theory Spec2Isabelle
  imports Complex_Main "HOL-Library.Monad_Syntax"
begin

section \<open>Data model (types.ts)\<close>

text \<open>
  The records follow the interfaces of \<^verbatim>\<open>types.ts\<close>. A field that is optional in
  TypeScript (\<^verbatim>\<open>startTime?: number\<close>) is an \<open>option\<close>; a JavaScript number that
  holds an integer (stars, costs, epoch milliseconds) is an \<open>int\<close>. Fields whose
  source name is shared by several interfaces (\<^verbatim>\<open>id\<close>, \<^verbatim>\<open>title\<close>, \<^verbatim>\<open>type\<close>) carry
  the interface name as a prefix.
\<close>

text \<open>
  A JavaScript number that need not be an integer of the program's making (one read
  from a text field) is \<open>NaN\<close> or an integer \<open>Num i\<close>.
\<close>

datatype jsnum = NaN | Num int

datatype RecurrenceFrequency = Daily | Weekly | Monthly | NoFrequency

record TaskRecurrence =
  frequency :: RecurrenceFrequency
  days :: "int list"
  dayOfMonth :: "jsnum option"
  endDate :: "string option"

datatype TaskType = Routine | School | Activity | Hygiene

datatype TaskStatus = Pending | Active | Done

record Task =
  task_id :: string
  task_title :: string
  description :: string
  task_reward :: int
  task_time :: string
  duration :: "string option"
  startTime :: "int option"
  task_type :: TaskType
  status :: TaskStatus
  emoji :: string
  recurrence :: "TaskRecurrence option"
  audio_pending_es :: "string option"
  audio_pending_en :: "string option"
  audio_active_es :: "string option"
  audio_active_en :: "string option"
  audio_done_es :: "string option"
  audio_done_en :: "string option"

datatype RewardType = Screen | Toy | Treat

record Reward =
  reward_id :: string
  reward_title :: string
  category :: string
  reward_cost :: int
  image :: string
  reward_type :: RewardType

record RedemptionRecord =
  redemption_id :: string
  rewardId :: string
  rewardTitle :: string
  cost :: int
  timestamp :: int
  redemption_note :: "string option"

datatype LoveLanguage =
  Physical_touch | Words_of_affirmation | Quality_time | Gifts | Acts_of_service

record Child =
  child_id :: string
  child_name :: string
  age :: "jsnum option"
  level :: int
  stars :: int
  avatar :: string
  active :: bool
  rewards :: "Reward list"
  tasks :: "Task list"
  loveLanguages :: "LoveLanguage list option"
  redemptionHistory :: "RedemptionRecord list option"

section \<open>JavaScript strings and numbers\<close>

text \<open>
  A string is a list of characters. The built-ins below are exact on ASCII text, which
  is what a time of day is written in: a character outside ASCII is carried along as
  an opaque character that is neither white space nor a letter with an upper case.

  A JavaScript number is modelled as \<open>NaN\<close> or an integer \<open>Num i\<close>; integer
  arithmetic is exact in JavaScript below \<open>2 ^ 53\<close>. A numeric literal with a decimal
  point or an exponent, and \<^verbatim>\<open>Infinity\<close>, denote floating-point values that this
  type does not represent: \<open>Number\<close> answers \<open>None\<close> for them, and so does every
  function that would have to compute with such a value. Where the program only
  compares such a value with a constant, the comparison is decided from the exact value
  of the literal (\<open>floatText\<close> below).
\<close>

definition isSpace :: "char \<Rightarrow> bool" where
  \<comment> \<open>TAB, LF, VT, FF, CR and the space: the ASCII part of \<^verbatim>\<open>\s\<close> and of what \<^verbatim>\<open>trim\<close> removes\<close>
  "isSpace c = (c \<in> set [CHR 0x09, CHR 0x0A, CHR 0x0B, CHR 0x0C, CHR 0x0D, CHR 0x20])"

definition inClass :: "char \<Rightarrow> string \<Rightarrow> bool" where
  "inClass c cls = (c \<in> set cls)"

definition isDigit :: "char \<Rightarrow> bool" where
  "isDigit c = inClass c ''0123456789''"

definition digit_char :: "nat \<Rightarrow> char" where
  "digit_char d = ''0123456789'' ! (d mod 10)"

definition trimStart :: "string \<Rightarrow> string" where
  "trimStart s = dropWhile isSpace s"

definition trim :: "string \<Rightarrow> string" where
  "trim s = rev (dropWhile isSpace (rev (dropWhile isSpace s)))"

text \<open>The place of the first occurrence of a character in a text.\<close>

fun position :: "char \<Rightarrow> string \<Rightarrow> nat option" where
  "position c [] = None"
| "position c (x # xs) = (if c = x then Some 0 else map_option (\<lambda>i. i + 1) (position c xs))"

definition upperChar :: "char \<Rightarrow> char" where
  "upperChar c =
     (case position c ''abcdefghijklmnopqrstuvwxyz'' of
        None \<Rightarrow> c
      | Some i \<Rightarrow> ''ABCDEFGHIJKLMNOPQRSTUVWXYZ'' ! i)"

definition toUpperCase :: "string \<Rightarrow> string" where
  "toUpperCase s = map upperChar s"

definition startsWith :: "string \<Rightarrow> string \<Rightarrow> bool" where
  "startsWith s sub = (take (length sub) s = sub)"

fun includes_str :: "string \<Rightarrow> string \<Rightarrow> bool" where
  "includes_str [] sub = (sub = [])"
| "includes_str (c # cs) sub = (startsWith (c # cs) sub \<or> includes_str cs sub)"

text \<open>\<^verbatim>\<open>s.split(':')\<close>: the pieces between the occurrences of the separator character.\<close>

fun split_char :: "char \<Rightarrow> string \<Rightarrow> string list" where
  "split_char sep [] = [[]]"
| "split_char sep (c # cs) =
     (if c = sep then [] # split_char sep cs
      else (case split_char sep cs of
              [] \<Rightarrow> [[c]]
            | p # ps \<Rightarrow> (c # p) # ps))"

text \<open>\<^verbatim>\<open>s.split(/\s+/)\<close>: the pieces between the maximal runs of white space.\<close>

function split_ws :: "string \<Rightarrow> string list" where
  "split_ws s =
     (case dropWhile (\<lambda>c. \<not> isSpace c) s of
        [] \<Rightarrow> [s]
      | r # rs \<Rightarrow> takeWhile (\<lambda>c. \<not> isSpace c) s # split_ws (dropWhile isSpace rs))"
  by pat_completeness auto
termination
proof (relation "measure length")
  show "wf (measure length)" by simp
next
  fix s :: string and r rs
  assume a: "dropWhile (\<lambda>c. \<not> isSpace c) s = r # rs"
  have "length (dropWhile isSpace rs) \<le> length rs"
    by (rule length_dropWhile_le)
  moreover have "length (r # rs) \<le> length s"
    using length_dropWhile_le [of "\<lambda>c. \<not> isSpace c" s] a by simp
  ultimately show "(dropWhile isSpace rs, s) \<in> measure length" by simp
qed

text \<open>\<^verbatim>\<open>parts[i]\<close>: \<^verbatim>\<open>undefined\<close> beyond the end of the array.\<close>

definition at_index :: "'a list \<Rightarrow> nat \<Rightarrow> 'a option" where
  "at_index xs i = (if i < length xs then Some (xs ! i) else None)"

text \<open>
  \<^verbatim>\<open>Number.prototype.toString()\<close>: the decimal digits of an integer, with a leading
  minus sign below zero, and \<^verbatim>\<open>"NaN"\<close>.
\<close>

fun nat_digits :: "nat \<Rightarrow> string" where
  "nat_digits n = (if n < 10 then [digit_char n] else nat_digits (n div 10) @ [digit_char (n mod 10)])"

definition int_toString :: "int \<Rightarrow> string" where
  "int_toString i = (if i < 0 then CHR ''-'' # nat_digits (nat (- i)) else nat_digits (nat i))"

definition toString :: "jsnum \<Rightarrow> string" where
  "toString x = (case x of NaN \<Rightarrow> ''NaN'' | Num i \<Rightarrow> int_toString i)"

definition padStart :: "string \<Rightarrow> nat \<Rightarrow> char \<Rightarrow> string" where
  "padStart s n c = replicate (n - length s) c @ s"

text \<open>The value of a digit in a radix up to 16, in either letter case.\<close>

definition digit_value :: "char \<Rightarrow> nat option" where
  "digit_value c =
     (case position c ''0123456789abcdef'' of
        Some v \<Rightarrow> Some v
      | None \<Rightarrow> map_option (\<lambda>i. i + 10) (position c ''ABCDEF''))"

definition isRadixDigit :: "nat \<Rightarrow> char \<Rightarrow> bool" where
  "isRadixDigit radix c = (case digit_value c of None \<Rightarrow> False | Some v \<Rightarrow> v < radix)"

definition digits_value :: "nat \<Rightarrow> string \<Rightarrow> int" where
  "digits_value radix ds =
     foldl (\<lambda>acc c. acc * int radix + int (case digit_value c of None \<Rightarrow> 0 | Some v \<Rightarrow> v)) 0 ds"

definition radix_literal :: "nat \<Rightarrow> string \<Rightarrow> jsnum" where
  "radix_literal radix ds =
     (if ds \<noteq> [] \<and> list_all (isRadixDigit radix) ds then Num (digits_value radix ds) else NaN)"

text \<open>
  The unsigned decimal literals with a decimal point or an exponent:
  \<^verbatim>\<open>digits . digits? exp?\<close>, \<^verbatim>\<open>. digits exp?\<close> and \<^verbatim>\<open>digits exp\<close>, where \<^verbatim>\<open>exp\<close> is
  \<^verbatim>\<open>e\<close> or \<^verbatim>\<open>E\<close>, an optional sign and digits.
\<close>

definition isMantissa :: "string \<Rightarrow> bool" where
  "isMantissa m =
     (case dropWhile isDigit m of
        [] \<Rightarrow> m \<noteq> []
      | c # fp \<Rightarrow> c = CHR ''.'' \<and> list_all isDigit fp \<and> (takeWhile isDigit m \<noteq> [] \<or> fp \<noteq> []))"

definition isExponent :: "string \<Rightarrow> bool" where
  "isExponent e =
     (case e of
        [] \<Rightarrow> False
      | c # r \<Rightarrow> if c = CHR ''+'' \<or> c = CHR ''-'' then r \<noteq> [] \<and> list_all isDigit r
                 else list_all isDigit (c # r))"

definition isFloatLiteral :: "string \<Rightarrow> bool" where
  "isFloatLiteral u =
     (case dropWhile (\<lambda>c. c \<noteq> CHR ''e'' \<and> c \<noteq> CHR ''E'') u of
        [] \<Rightarrow> isMantissa u
      | x # e \<Rightarrow> isMantissa (takeWhile (\<lambda>c. c \<noteq> CHR ''e'' \<and> c \<noteq> CHR ''E'') u) \<and> isExponent e)"

text \<open>
  \<^verbatim>\<open>Number(s)\<close>: white space is trimmed; the empty string is 0; a literal with the
  prefix \<^verbatim>\<open>0x\<close>, \<^verbatim>\<open>0o\<close> or \<^verbatim>\<open>0b\<close> (either case, no sign) is read in its radix; an
  optionally signed run of decimal digits is that integer; any other text is
  \<^verbatim>\<open>NaN\<close>, except the floating-point literals.
\<close>

definition signed_decimal :: "int \<Rightarrow> string \<Rightarrow> jsnum option" where
  "signed_decimal sg u =
     (if u \<noteq> [] \<and> list_all isDigit u then Some (Num (sg * digits_value 10 u))
      else if u = ''Infinity'' \<or> isFloatLiteral u then None
      else Some NaN)"

definition Number :: "string \<Rightarrow> jsnum option" where
  "Number s =
     (let t = trim s in
      if t = [] then Some (Num 0)
      else if startsWith t ''0x'' \<or> startsWith t ''0X'' then Some (radix_literal 16 (drop 2 t))
      else if startsWith t ''0o'' \<or> startsWith t ''0O'' then Some (radix_literal 8 (drop 2 t))
      else if startsWith t ''0b'' \<or> startsWith t ''0B'' then Some (radix_literal 2 (drop 2 t))
      else (case t of
              c # r \<Rightarrow> if c = CHR ''+'' then signed_decimal 1 r
                        else if c = CHR ''-'' then signed_decimal (- 1) r
                        else signed_decimal 1 t))"

text \<open>
  \<^verbatim>\<open>parseInt(s)\<close> with no radix: leading white space and one sign are skipped, the
  prefix \<^verbatim>\<open>0x\<close> selects radix 16, and the longest run of digits that follows is
  read; \<^verbatim>\<open>NaN\<close> if that run is empty.
\<close>

definition parseInt_digits :: "int \<Rightarrow> string \<Rightarrow> jsnum" where
  "parseInt_digits sg u =
     (if startsWith u ''0x'' \<or> startsWith u ''0X'' then
        (case takeWhile (isRadixDigit 16) (drop 2 u) of
           [] \<Rightarrow> NaN
         | z # zs \<Rightarrow> Num (sg * digits_value 16 (z # zs)))
      else
        (case takeWhile (isRadixDigit 10) u of
           [] \<Rightarrow> NaN
         | z # zs \<Rightarrow> Num (sg * digits_value 10 (z # zs))))"

definition parseInt :: "string \<Rightarrow> jsnum" where
  "parseInt s =
     (case trimStart s of
        [] \<Rightarrow> NaN
      | c # r \<Rightarrow> if c = CHR ''+'' then parseInt_digits 1 r
                 else if c = CHR ''-'' then parseInt_digits (- 1) r
                 else parseInt_digits 1 (c # r))"

text \<open>Arithmetic and comparison: \<^verbatim>\<open>NaN\<close> is absorbing, and every comparison with it is false.\<close>

definition js_add :: "jsnum \<Rightarrow> jsnum \<Rightarrow> jsnum" where
  "js_add x y = (case (x, y) of (Num a, Num b) \<Rightarrow> Num (a + b) | _ \<Rightarrow> NaN)"

definition js_mul :: "jsnum \<Rightarrow> jsnum \<Rightarrow> jsnum" where
  "js_mul x y = (case (x, y) of (Num a, Num b) \<Rightarrow> Num (a * b) | _ \<Rightarrow> NaN)"

definition js_less :: "jsnum \<Rightarrow> jsnum \<Rightarrow> bool" where
  "js_less x y = (case (x, y) of (Num a, Num b) \<Rightarrow> a < b | _ \<Rightarrow> False)"

definition js_ge :: "jsnum \<Rightarrow> jsnum \<Rightarrow> bool" where
  "js_ge x y = (case (x, y) of (Num a, Num b) \<Rightarrow> a \<ge> b | _ \<Rightarrow> False)"

text \<open>\<^verbatim>\<open>Math.floor(x / k)\<close> for a positive integer \<open>k\<close>.\<close>

definition floor_div :: "jsnum \<Rightarrow> int \<Rightarrow> jsnum" where
  "floor_div x k = (case x of NaN \<Rightarrow> NaN | Num a \<Rightarrow> Num (a div k))"

text \<open>\<^verbatim>\<open>x % k\<close>: the remainder takes the sign of the dividend.\<close>

definition js_rem :: "jsnum \<Rightarrow> int \<Rightarrow> jsnum" where
  "js_rem x k = (case x of NaN \<Rightarrow> NaN | Num a \<Rightarrow> Num (sgn a * (\<bar>a\<bar> mod \<bar>k\<bar>)))"

text \<open>\<^verbatim>\<open>x || d\<close> on numbers: 0 and \<^verbatim>\<open>NaN\<close> are falsy.\<close>

definition or_num :: "jsnum \<Rightarrow> jsnum \<Rightarrow> jsnum" where
  "or_num x d = (if x = NaN \<or> x = Num 0 then d else x)"

text \<open>\<^verbatim>\<open>s || d\<close> on an optional string: \<^verbatim>\<open>undefined\<close> and the empty string are falsy.\<close>

definition or_str :: "string option \<Rightarrow> string \<Rightarrow> string" where
  "or_str s d = (case s of None \<Rightarrow> d | Some t \<Rightarrow> if t = [] then d else t)"

text \<open>
  The texts for which \<open>Number\<close> answers \<open>None\<close> denote \<^verbatim>\<open>Infinity\<close>,
  \<^verbatim>\<open>-Infinity\<close> or the double nearest to the exact value of a decimal literal:
  the integer part, plus the fraction, times the power of ten of the exponent.
\<close>

datatype FloatText = Infinite bool | Finite rat

definition signed_digits :: "string \<Rightarrow> int" where
  "signed_digits e =
     (case e of
        [] \<Rightarrow> 0
      | c # r \<Rightarrow> if c = CHR ''-'' then - digits_value 10 r
                 else if c = CHR ''+'' then digits_value 10 r
                 else digits_value 10 (c # r))"

definition power10 :: "int \<Rightarrow> rat" where
  "power10 k = (if 0 \<le> k then 10 ^ nat k else 1 / 10 ^ nat (- k))"

definition mantissa_value :: "string \<Rightarrow> rat" where
  "mantissa_value m =
     (let ip = takeWhile isDigit m;
          fp = drop 1 (dropWhile isDigit m)
      in of_int (digits_value 10 ip) + of_int (digits_value 10 fp) / 10 ^ length fp)"

definition decimal_value :: "string \<Rightarrow> rat" where
  "decimal_value u =
     (let m = takeWhile (\<lambda>c. c \<noteq> CHR ''e'' \<and> c \<noteq> CHR ''E'') u;
          e = drop 1 (dropWhile (\<lambda>c. c \<noteq> CHR ''e'' \<and> c \<noteq> CHR ''E'') u)
      in mantissa_value m * power10 (signed_digits e))"

definition floatText :: "string \<Rightarrow> FloatText" where
  "floatText s =
     (case trim s of
        [] \<Rightarrow> Finite 0
      | c # r \<Rightarrow>
          if c = CHR ''-'' then (if r = ''Infinity'' then Infinite False else Finite (- decimal_value r))
          else if c = CHR ''+'' then (if r = ''Infinity'' then Infinite True else Finite (decimal_value r))
          else (if c # r = ''Infinity'' then Infinite True else Finite (decimal_value (c # r))))"




section \<open>Times of day (ParentDashboard.tsx, ChildPortal.tsx)\<close>

datatype TimeFormat = H12 | H24

text \<open>
  The two regular expressions of \<^verbatim>\<open>isValidTime\<close>, as recognisers:
  \<^verbatim>\<open>/^(0?[1-9]|1[0-2]):[0-5][0-9]\s?(AM|PM)$/\<close> and
  \<^verbatim>\<open>/^([01]?[0-9]|2[0-3]):[0-5][0-9]$/\<close>. The hour part holds no colon, so it is the
  text before the first colon.
\<close>

definition hour12 :: "string \<Rightarrow> bool" where
  "hour12 hh =
     (case hh of
        [d] \<Rightarrow> inClass d ''123456789''
      | [a, b] \<Rightarrow> (a = CHR ''0'' \<and> inClass b ''123456789'')
                   \<or> (a = CHR ''1'' \<and> inClass b ''012'')
      | _ \<Rightarrow> False)"

definition hour24 :: "string \<Rightarrow> bool" where
  "hour24 hh =
     (case hh of
        [d] \<Rightarrow> inClass d ''0123456789''
      | [a, b] \<Rightarrow> ((a = CHR ''0'' \<or> a = CHR ''1'') \<and> inClass b ''0123456789'')
                   \<or> (a = CHR ''2'' \<and> inClass b ''0123'')
      | _ \<Rightarrow> False)"

definition periodSuffix :: "string \<Rightarrow> bool" where
  "periodSuffix rest =
     (case rest of
        [a, b] \<Rightarrow> [a, b] = ''AM'' \<or> [a, b] = ''PM''
      | [w, a, b] \<Rightarrow> isSpace w \<and> ([a, b] = ''AM'' \<or> [a, b] = ''PM'')
      | _ \<Rightarrow> False)"

definition time12hRegex :: "string \<Rightarrow> bool" where
  "time12hRegex s =
     (case dropWhile (\<lambda>c. c \<noteq> CHR '':'') s of
        c # m1 # m2 # rest \<Rightarrow>
          hour12 (takeWhile (\<lambda>c. c \<noteq> CHR '':'') s)
          \<and> inClass m1 ''012345'' \<and> inClass m2 ''0123456789'' \<and> periodSuffix rest
      | _ \<Rightarrow> False)"

definition time24hRegex :: "string \<Rightarrow> bool" where
  "time24hRegex s =
     (case dropWhile (\<lambda>c. c \<noteq> CHR '':'') s of
        [c, m1, m2] \<Rightarrow>
          hour24 (takeWhile (\<lambda>c. c \<noteq> CHR '':'') s)
          \<and> inClass m1 ''012345'' \<and> inClass m2 ''0123456789''
      | _ \<Rightarrow> False)"

definition isValidTime :: "string \<Rightarrow> bool" where
  "isValidTime timeStr =
     (let clean = toUpperCase (trim timeStr)
      in time12hRegex clean \<or> time24hRegex clean)"

text \<open>
  \<^verbatim>\<open>isValidDuration\<close>: \<^verbatim>\<open>!isNaN(n) && n > 0 && n < 1440\<close> for \<^verbatim>\<open>n = Number(dur)\<close>.
  When \<open>n\<close> is the double nearest to the value \<open>q\<close> of a decimal literal, \<open>n\<close> is
  above 0 exactly when \<open>q\<close> is above half the least positive double, \<open>2 ^ - 1074\<close>, and
  \<open>n\<close> is below 1440 exactly when \<open>q\<close> is below the middle between 1440 and the double
  before it, \<open>1440 - 2 ^ - 42\<close>: a tie is rounded to the even neighbour, 0 and 1440.
\<close>

definition isValidDuration :: "string \<Rightarrow> bool" where
  "isValidDuration dur =
     (case Number dur of
        Some n \<Rightarrow> n \<noteq> NaN \<and> js_less (Num 0) n \<and> js_less n (Num 1440)
      | None \<Rightarrow>
          (case floatText dur of
             Infinite positive \<Rightarrow> False
           | Finite q \<Rightarrow> 1 / 2 ^ 1075 < q \<and> q < 1440 - 1 / 2 ^ 43))"

text \<open>\<^verbatim>\<open>Number(timeParts[1] || 0)\<close>: a missing or empty piece counts as the number 0.\<close>

definition Number_or0 :: "string option \<Rightarrow> jsnum option" where
  "Number_or0 piece =
     (case piece of
        None \<Rightarrow> Some (Num 0)
      | Some t \<Rightarrow> if t = [] then Some (Num 0) else Number t)"

text \<open>\<^verbatim>\<open>Number(timeParts[0])\<close>: \<^verbatim>\<open>Number(undefined)\<close> is \<^verbatim>\<open>NaN\<close>.\<close>

definition Number_opt :: "string option \<Rightarrow> jsnum option" where
  "Number_opt piece = (case piece of None \<Rightarrow> Some NaN | Some t \<Rightarrow> Number t)"

text \<open>
  The hour of the 12-hour branch after the two period adjustments, and the minute of
  the day it returns: \<^verbatim>\<open>hours * 60 + (minutes || 0)\<close>.
\<close>

definition adjustHours :: "string option \<Rightarrow> jsnum \<Rightarrow> jsnum" where
  "adjustHours period hours =
     (let hours1 = (if period = Some ''PM'' \<and> js_less hours (Num 12)
                    then js_add hours (Num 12) else hours)
      in if period = Some ''AM'' \<and> hours1 = Num 12 then Num 0 else hours1)"

text \<open>
  \<^verbatim>\<open>parseTimeToMinutes\<close> of ParentDashboard.tsx. The argument is \<open>None\<close> for
  \<^verbatim>\<open>undefined\<close> and \<^verbatim>\<open>null\<close>. The \<^verbatim>\<open>catch\<close> branch returns 0; the only statement of the
  \<^verbatim>\<open>try\<close> block that could throw is \<^verbatim>\<open>parts[0].split\<close> on a missing first piece.
\<close>

definition parseTimeToMinutes :: "string option \<Rightarrow> jsnum option" where
  "parseTimeToMinutes timeStr =
     (case timeStr of
        None \<Rightarrow> Some (Num 0)
      | Some ts \<Rightarrow>
          if ts = [] then Some (Num 0)
          else
            let clean = toUpperCase (trim ts);
                is12h = (includes_str clean ''AM'' \<or> includes_str clean ''PM'')
            in if is12h then
                 (let parts = split_ws clean
                  in case at_index parts 0 of
                       None \<Rightarrow> Some (Num 0)
                     | Some p0 \<Rightarrow>
                         (let timeParts = split_char CHR '':'' p0
                          in do { hours \<leftarrow> Number_opt (at_index timeParts 0);
                                  minutes \<leftarrow> Number_or0 (at_index timeParts 1);
                                  let period = or_str (at_index parts 1)
                                                 (if js_ge hours (Num 12) then ''PM'' else ''AM'');
                                  Some (js_add (js_mul (adjustHours (Some period) hours) (Num 60))
                                               (or_num minutes (Num 0))) }))
               else
                 (let parts = split_char CHR '':'' clean
                  in do { hours \<leftarrow> Number_opt (at_index parts 0);
                          minutes \<leftarrow> Number_or0 (at_index parts 1);
                          Some (js_add (js_mul (or_num hours (Num 0)) (Num 60))
                                       (or_num minutes (Num 0))) }))"

text \<open>
  \<^verbatim>\<open>parseTimeToMinutes\<close> of ChildPortal.tsx: the same, except that the period is
  \<^verbatim>\<open>parts[1]\<close> with no default.
\<close>

definition parseTimeToMinutes_portal :: "string option \<Rightarrow> jsnum option" where
  "parseTimeToMinutes_portal timeStr =
     (case timeStr of
        None \<Rightarrow> Some (Num 0)
      | Some ts \<Rightarrow>
          if ts = [] then Some (Num 0)
          else
            let clean = toUpperCase (trim ts);
                is12h = (includes_str clean ''AM'' \<or> includes_str clean ''PM'')
            in if is12h then
                 (let parts = split_ws clean
                  in case at_index parts 0 of
                       None \<Rightarrow> Some (Num 0)
                     | Some p0 \<Rightarrow>
                         (let timeParts = split_char CHR '':'' p0
                          in do { hours \<leftarrow> Number_opt (at_index timeParts 0);
                                  minutes \<leftarrow> Number_or0 (at_index timeParts 1);
                                  let period = at_index parts 1;
                                  Some (js_add (js_mul (adjustHours period hours) (Num 60))
                                               (or_num minutes (Num 0))) }))
               else
                 (let parts = split_char CHR '':'' clean
                  in do { hours \<leftarrow> Number_opt (at_index parts 0);
                          minutes \<leftarrow> Number_or0 (at_index parts 1);
                          Some (js_add (js_mul (or_num hours (Num 0)) (Num 60))
                                       (or_num minutes (Num 0))) }))"

definition pad :: "jsnum \<Rightarrow> string" where
  "pad n = padStart (toString n) 2 CHR ''0''"

text \<open>The common tail of the two formatters, from the hour \<open>h\<close> and the minute \<open>m\<close>.\<close>

definition formatHM :: "jsnum \<Rightarrow> jsnum \<Rightarrow> TimeFormat \<Rightarrow> string" where
  "formatHM h m fmt =
     (case fmt of
        H24 \<Rightarrow> pad h @ '':'' @ pad m
      | H12 \<Rightarrow>
          (let period = (if js_ge h (Num 12) then ''PM'' else ''AM'');
               h12 = or_num (js_rem h 12) (Num 12)
           in pad h12 @ '':'' @ pad m @ '' '' @ period))"

definition minutesToInternalString :: "jsnum \<Rightarrow> TimeFormat \<Rightarrow> string" where
  "minutesToInternalString mins fmt =
     (let h = js_rem (floor_div mins 60) 24;
          m = js_rem mins 60
      in formatHM h m fmt)"

definition displayTime :: "string option \<Rightarrow> TimeFormat \<Rightarrow> string option" where
  "displayTime timeStr fmt =
     do { mins \<leftarrow> parseTimeToMinutes timeStr;
          Some (minutesToInternalString mins fmt) }"

text \<open>\<^verbatim>\<open>displayTime\<close> of ChildPortal.tsx formats in place, with the hour not reduced modulo 24.\<close>

definition formatMinutes_portal :: "jsnum \<Rightarrow> TimeFormat \<Rightarrow> string" where
  "formatMinutes_portal mins fmt =
     (let h = floor_div mins 60;
          m = js_rem mins 60
      in formatHM h m fmt)"

definition displayTime_portal :: "string option \<Rightarrow> TimeFormat \<Rightarrow> string option" where
  "displayTime_portal timeStr fmt =
     do { mins \<leftarrow> parseTimeToMinutes_portal timeStr;
          Some (formatMinutes_portal mins fmt) }"

section \<open>Application state operations (App.tsx)\<close>

text \<open>
  The component keeps the family in the state variable \<^verbatim>\<open>children\<close>; every handler
  computes a new list and stores it with \<^verbatim>\<open>setChildren\<close>. A handler is modelled as
  the function from the current list (and the reading of \<^verbatim>\<open>Date.now()\<close>, where the
  handler takes one) to the list it stores. The writes a handler sends to the remote
  store without awaiting them are returned as a list of requests by a companion
  function.
\<close>

datatype request =
  UpdateTaskRow string TaskStatus "int option"
| UpdateChildStars string int

text \<open>\<^verbatim>\<open>if (currentUser?.familyId)\<close>: a missing user, a missing id and the empty string are falsy.\<close>

definition hasFamily :: "string option \<Rightarrow> bool" where
  "hasFamily familyId = (case familyId of None \<Rightarrow> False | Some f \<Rightarrow> f \<noteq> [])"

definition switchActiveChild :: "Child list \<Rightarrow> string \<Rightarrow> Child list" where
  "switchActiveChild children ident =
     map (\<lambda>c. c\<lparr>active := (child_id c = ident)\<rparr>) children"

definition updatedTask :: "Task \<Rightarrow> TaskStatus \<Rightarrow> int \<Rightarrow> Task" where
  "updatedTask task newStatus now =
     task\<lparr>status := newStatus,
          startTime := (if newStatus = Active then Some now else startTime task)\<rparr>"

definition updateTaskStatus :: "Child list \<Rightarrow> string \<Rightarrow> string \<Rightarrow> TaskStatus \<Rightarrow> int \<Rightarrow> Child list" where
  "updateTaskStatus children childId taskId newStatus now =
     map (\<lambda>child.
            if child_id child = childId then
              child\<lparr>tasks := map (\<lambda>task. if task_id task = taskId
                                           then updatedTask task newStatus now
                                           else task) (tasks child)\<rparr>
            else child) children"

definition updateTaskStatus_requests ::
  "string option \<Rightarrow> Child list \<Rightarrow> string \<Rightarrow> string \<Rightarrow> TaskStatus \<Rightarrow> int \<Rightarrow> request list" where
  "updateTaskStatus_requests familyId children childId taskId newStatus now =
     concat (map (\<lambda>child.
       if child_id child = childId then
         concat (map (\<lambda>task.
           if task_id task = taskId \<and> hasFamily familyId then
             [UpdateTaskRow taskId (status (updatedTask task newStatus now))
                                   (startTime (updatedTask task newStatus now))]
           else []) (tasks child))
       else []) children)"

definition newRedemption :: "Reward \<Rightarrow> string option \<Rightarrow> int \<Rightarrow> RedemptionRecord" where
  "newRedemption rw nt now =
     \<lparr>redemption_id = ''redemption_'' @ int_toString now,
      rewardId = reward_id rw,
      rewardTitle = reward_title rw,
      cost = reward_cost rw,
      timestamp = now,
      redemption_note = nt\<rparr>"

definition history :: "Child \<Rightarrow> RedemptionRecord list" where
  "history child = (case redemptionHistory child of None \<Rightarrow> [] | Some h \<Rightarrow> h)"

definition redeemedChild :: "Child \<Rightarrow> Reward \<Rightarrow> string option \<Rightarrow> int \<Rightarrow> Child" where
  "redeemedChild child rw nt now =
     child\<lparr>stars := stars child - reward_cost rw,
           redemptionHistory := Some (newRedemption rw nt now # history child)\<rparr>"

definition redeemReward ::
  "Child list \<Rightarrow> string \<Rightarrow> Reward \<Rightarrow> string option \<Rightarrow> int \<Rightarrow> bool \<times> Child list" where
  "redeemReward children childId rw nt now =
     (case find (\<lambda>c. child_id c = childId) children of
        None \<Rightarrow> (False, children)
      | Some activeChild \<Rightarrow>
          if stars activeChild < reward_cost rw then (False, children)
          else (True, map (\<lambda>child. if child_id child = childId
                                     then redeemedChild child rw nt now
                                     else child) children))"

definition redeemReward_requests ::
  "string option \<Rightarrow> Child list \<Rightarrow> string \<Rightarrow> Reward \<Rightarrow> string option \<Rightarrow> int \<Rightarrow> request list" where
  "redeemReward_requests familyId children childId rw nt now =
     (if fst (redeemReward children childId rw nt now) then
        concat (map (\<lambda>child.
          if child_id child = childId \<and> hasFamily familyId
          then [UpdateChildStars childId (stars (redeemedChild child rw nt now))]
          else []) children)
      else [])"

text \<open>
  \<^verbatim>\<open>children.length > 0 ? (children.find(c => c.active) || children[0]) : null\<close>,
  the child whose tasks the child portal shows.
\<close>

definition activeChildOf :: "Child list \<Rightarrow> Child option" where
  "activeChildOf children =
     (case children of
        [] \<Rightarrow> None
      | first # others \<Rightarrow>
          (case find active children of None \<Rightarrow> Some first | Some c \<Rightarrow> Some c))"

text \<open>
  The portal's \<^verbatim>\<open>onUpdateTask\<close> is
  \<^verbatim>\<open>(taskId, status) => activeChild && updateTaskStatus(activeChild.id, taskId, status)\<close>;
  \<^verbatim>\<open>handleStart\<close> and \<^verbatim>\<open>handleComplete\<close> of ChildPortal.tsx call it with
  \<^verbatim>\<open>'active'\<close> and \<^verbatim>\<open>'done'\<close>. What \<^verbatim>\<open>handleComplete\<close> does besides is the
  celebration and speech, which do not touch the family state.
\<close>

definition portal_onUpdateTask :: "Child list \<Rightarrow> string \<Rightarrow> TaskStatus \<Rightarrow> int \<Rightarrow> Child list" where
  "portal_onUpdateTask children taskId newStatus now =
     (case activeChildOf children of
        None \<Rightarrow> children
      | Some activeChild \<Rightarrow> updateTaskStatus children (child_id activeChild) taskId newStatus now)"

definition handleStart :: "Child list \<Rightarrow> string \<Rightarrow> int \<Rightarrow> Child list" where
  "handleStart children ident now = portal_onUpdateTask children ident Active now"

definition handleComplete :: "Child list \<Rightarrow> Task \<Rightarrow> int \<Rightarrow> Child list" where
  "handleComplete children task now = portal_onUpdateTask children (task_id task) Done now"

text \<open>
  \<^verbatim>\<open>preGenerateTaskAudio\<close> copies the task and stores, for each of the six pairs of a
  status and a language, the audio the speech service returned, when it returned a
  non-empty one. The service is the parameter \<open>speech\<close>.
\<close>

datatype Language = EN | ES

definition audioOr :: "string option \<Rightarrow> string option \<Rightarrow> string option" where
  "audioOr generated old =
     (case generated of None \<Rightarrow> old | Some b \<Rightarrow> if b = [] then old else Some b)"

definition preGenerateTaskAudio :: "Task \<Rightarrow> (TaskStatus \<Rightarrow> Language \<Rightarrow> string option) \<Rightarrow> Task" where
  "preGenerateTaskAudio task speech =
     task\<lparr>audio_pending_es := audioOr (speech Pending ES) (audio_pending_es task),
          audio_pending_en := audioOr (speech Pending EN) (audio_pending_en task),
          audio_active_es := audioOr (speech Active ES) (audio_active_es task),
          audio_active_en := audioOr (speech Active EN) (audio_active_en task),
          audio_done_es := audioOr (speech Done ES) (audio_done_es task),
          audio_done_en := audioOr (speech Done EN) (audio_done_en task)\<rparr>"

text \<open>
  The dashboard's \<^verbatim>\<open>onUpdateTask\<close>. It looks the old task up in the list the handler
  was created with (\<open>children\<close>), waits for the audio, and then replaces the task in
  the list current at that moment (\<open>prev\<close>, the argument of the \<^verbatim>\<open>setChildren\<close>
  callback).
\<close>

definition taskToSave ::
  "Child list \<Rightarrow> string \<Rightarrow> Task \<Rightarrow> (TaskStatus \<Rightarrow> Language \<Rightarrow> string option) \<Rightarrow> Task" where
  "taskToSave children childId task speech =
     (let targetChild = find (\<lambda>c. child_id c = childId) children;
          oldTask = (case targetChild of
                       None \<Rightarrow> None
                     | Some c \<Rightarrow> find (\<lambda>t. task_id t = task_id task) (tasks c));
          needsNewAudio = (case oldTask of
                             None \<Rightarrow> True
                           | Some old \<Rightarrow> task_title old \<noteq> task_title task
                                         \<or> description old \<noteq> description task)
      in if needsNewAudio \<and> targetChild \<noteq> None then preGenerateTaskAudio task speech else task)"

definition onUpdateTask ::
  "Child list \<Rightarrow> Child list \<Rightarrow> string \<Rightarrow> Task \<Rightarrow> (TaskStatus \<Rightarrow> Language \<Rightarrow> string option)
     \<Rightarrow> Child list" where
  "onUpdateTask children prev childId task speech =
     map (\<lambda>c. if child_id c = childId
               then c\<lparr>tasks := map (\<lambda>t. if task_id t = task_id task
                                          then taskToSave children childId task speech
                                          else t) (tasks c)\<rparr>
               else c) prev"

text \<open>The dashboard's \<^verbatim>\<open>onAddTask\<close>: the task, with its audio, is put at the end of the child's tasks.\<close>

definition onAddTask ::
  "Child list \<Rightarrow> Child list \<Rightarrow> string \<Rightarrow> Task \<Rightarrow> (TaskStatus \<Rightarrow> Language \<Rightarrow> string option)
     \<Rightarrow> Child list" where
  "onAddTask children prev childId task speech =
     (let taskWithAudio = (case find (\<lambda>c. child_id c = childId) children of
                             None \<Rightarrow> task
                           | Some targetChild \<Rightarrow> preGenerateTaskAudio task speech)
      in map (\<lambda>c. if child_id c = childId then c\<lparr>tasks := tasks c @ [taskWithAudio]\<rparr> else c) prev)"

section \<open>The task form of the guardian dashboard (ParentDashboard.tsx)\<close>

text \<open>
  The state variables of the form. \<^verbatim>\<open>editingTaskId\<close> is \<open>None\<close> for \<^verbatim>\<open>null\<close>.
\<close>

record TaskForm =
  newTask :: Task
  editingTaskId :: "string option"
  recurrenceFreq :: RecurrenceFrequency
  recurrenceDays :: "int list"
  recurrenceEndDate :: string
  recurrenceDayOfMonth :: jsnum
  triedToSave :: bool
  isAddingTask :: bool






text \<open>The task \<^verbatim>\<open>resetTaskState\<close> puts back into the form; its emoji is a star.\<close>

definition blankTask :: Task where
  "blankTask =
     \<lparr>task_id = [], task_title = [], description = [], task_reward = 5,
      task_time = ''09:00 AM'', duration = Some ''30'', startTime = None,
      task_type = Routine, status = Pending,
      emoji = [CHR 0xF0, CHR 0x9F, CHR 0x8C, CHR 0x9F],
      recurrence = None,
      audio_pending_es = None, audio_pending_en = None,
      audio_active_es = None, audio_active_en = None,
      audio_done_es = None, audio_done_en = None\<rparr>"



definition formRecurrence :: "TaskForm \<Rightarrow> TaskRecurrence option" where
  "formRecurrence form =
     (if recurrenceFreq form \<noteq> NoFrequency then
        Some \<lparr>frequency = recurrenceFreq form,
              days = (if recurrenceFreq form = Weekly then recurrenceDays form else []),
              dayOfMonth = (if recurrenceFreq form = Monthly
                            then Some (recurrenceDayOfMonth form) else None),
              endDate = (if recurrenceEndDate form = [] then None
                         else Some (recurrenceEndDate form))\<rparr>
      else None)"





section \<open>The task that is due now (ChildPortal.tsx, ParentDashboard.tsx)\<close>

text \<open>
  Both views keep the reading of the clock in \<^verbatim>\<open>currentTime\<close>, a \<^verbatim>\<open>Date\<close>, of
  which they read the hour and the minute. A \<^verbatim>\<open>Date\<close> is the record of its local
  fields: the day of the month, the day of the week (0 for Sunday), the hour and the
  minute.
\<close>

record DateTime =
  getDate :: int
  getDay :: int
  getHours :: int
  getMinutes :: int

definition nowMinutes :: "DateTime \<Rightarrow> int" where
  "nowMinutes currentTime = getHours currentTime * 60 + getMinutes currentTime"

text \<open>
  The callback of \<^verbatim>\<open>find\<close>, from the start the time was parsed to:
  \<^verbatim>\<open>nowMinutes >= startMins && nowMinutes < endMins\<close> with
  \<^verbatim>\<open>endMins = startMins + parseInt(task.duration || '0')\<close>.
\<close>

definition dueNow :: "jsnum \<Rightarrow> Task \<Rightarrow> int \<Rightarrow> bool" where
  "dueNow startMins task now =
     (let durMins = parseInt (or_str (duration task) ''0'');
          endMins = js_add startMins durMins
      in js_ge (Num now) startMins \<and> js_less (Num now) endMins)"

text \<open>
  The callback in each view, with the view's own \<^verbatim>\<open>parseTimeToMinutes\<close>; \<open>None\<close>
  when the time parses to a value outside the model.
\<close>

definition dueInPortal :: "Task \<Rightarrow> int \<Rightarrow> bool option" where
  "dueInPortal task now =
     map_option (\<lambda>startMins. dueNow startMins task now)
       (parseTimeToMinutes_portal (Some (task_time task)))"

definition dueInDashboard :: "Task \<Rightarrow> int \<Rightarrow> bool option" where
  "dueInDashboard task now =
     map_option (\<lambda>startMins. dueNow startMins task now)
       (parseTimeToMinutes (Some (task_time task)))"

text \<open>
  \<^verbatim>\<open>Array.prototype.find\<close>: the first element for which the callback answers true,
  and \<^verbatim>\<open>undefined\<close> (\<open>Some None\<close>) when there is none. The result is \<open>None\<close> when
  the callback has no answer in the model for an element that \<^verbatim>\<open>find\<close> reaches.
\<close>

fun find_first :: "('a \<Rightarrow> bool option) \<Rightarrow> 'a list \<Rightarrow> 'a option option" where
  "find_first p [] = Some None"
| "find_first p (x # xs) =
     (case p x of
        None \<Rightarrow> None
      | Some True \<Rightarrow> Some (Some x)
      | Some False \<Rightarrow> find_first p xs)"

text \<open>\<^verbatim>\<open>getCurrentActiveTaskFromSchedule\<close> of ChildPortal.tsx, over the tasks of the active child.\<close>

definition getCurrentActiveTaskFromSchedule :: "Task list \<Rightarrow> DateTime \<Rightarrow> Task option option" where
  "getCurrentActiveTaskFromSchedule ts currentTime =
     find_first (\<lambda>task. dueInPortal task (nowMinutes currentTime)) ts"

text \<open>
  \<^verbatim>\<open>activeTaskNow\<close> of ParentDashboard.tsx, over \<^verbatim>\<open>sortedTasks\<close>, the tasks of the
  selected child sorted by their start. It answers \<^verbatim>\<open>null\<close> for no tasks and
  \<^verbatim>\<open>undefined\<close> for none due; both are \<open>Some None\<close>.
\<close>

definition activeTaskNow :: "Task list \<Rightarrow> DateTime \<Rightarrow> Task option option" where
  "activeTaskNow sortedTasks currentTime =
     (if sortedTasks = [] then Some None
      else find_first (\<lambda>task. dueInDashboard task (nowMinutes currentTime)) sortedTasks)"

section \<open>The one-time migration (migrationService.ts)\<close>

text \<open>
  The remote store holds the tables the SQL scripts declare, each with
  \<^verbatim>\<open>id TEXT PRIMARY KEY\<close>; tasks and rewards reference their child. A row of
  \<^verbatim>\<open>children\<close> has the columns the migration writes; a row of \<^verbatim>\<open>tasks\<close> or
  \<^verbatim>\<open>rewards\<close> is the \<^verbatim>\<open>child_id\<close> with the fields of the task or reward.
\<close>

record ChildRow =
  row_id :: string
  family_id :: string
  row_name :: string
  row_avatar :: string
  row_level :: int
  row_stars :: int
  row_active :: bool
  row_age :: "jsnum option"
  love_languages :: "LoveLanguage list"

type_synonym TaskRow = "string \<times> Task"

type_synonym RewardRow = "string \<times> Reward"

record Remote =
  children_tbl :: "ChildRow list"
  tasks_tbl :: "TaskRow list"
  rewards_tbl :: "RewardRow list"

text \<open>
  \<^verbatim>\<open>from('children').select('id').eq('id', cid).single()\<close> yields a row when exactly
  one row has the id.
\<close>

definition selectChild :: "Remote \<Rightarrow> string \<Rightarrow> bool" where
  "selectChild r cid = (length (filter (\<lambda>row. row_id row = cid) (children_tbl r)) = 1)"

text \<open>
  An insert is one statement: it is rejected as a whole, with an error, when a new id
  is already in the table or occurs twice in the statement, or when a referenced child
  is missing; otherwise the rows are added.
\<close>

definition insertChildRow :: "Remote \<Rightarrow> ChildRow \<Rightarrow> Remote option" where
  "insertChildRow r row =
     (if row_id row \<in> set (map row_id (children_tbl r)) then None
      else Some (r\<lparr>children_tbl := children_tbl r @ [row]\<rparr>))"

definition insertTaskRows :: "Remote \<Rightarrow> TaskRow list \<Rightarrow> Remote option" where
  "insertTaskRows r rows =
     (if distinct (map (task_id \<circ> snd) rows)
         \<and> (\<forall>row \<in> set rows. task_id (snd row) \<notin> set (map (task_id \<circ> snd) (tasks_tbl r))
                              \<and> fst row \<in> set (map row_id (children_tbl r)))
      then Some (r\<lparr>tasks_tbl := tasks_tbl r @ rows\<rparr>)
      else None)"

definition insertRewardRows :: "Remote \<Rightarrow> RewardRow list \<Rightarrow> Remote option" where
  "insertRewardRows r rows =
     (if distinct (map (reward_id \<circ> snd) rows)
         \<and> (\<forall>row \<in> set rows. reward_id (snd row) \<notin> set (map (reward_id \<circ> snd) (rewards_tbl r))
                              \<and> fst row \<in> set (map row_id (children_tbl r)))
      then Some (r\<lparr>rewards_tbl := rewards_tbl r @ rows\<rparr>)
      else None)"

text \<open>
  What happens to one awaited call is the environment's choice: the store serves it;
  or the call comes back with an error and no effect (no network, no authorization);
  or the call throws. The choices still to come are part of the state of a run, with
  the store and the trace of the requests made so far. When the list of choices is
  used up every further call is served.
\<close>

datatype Outcome = Served | Refused | Thrown

datatype Event =
  SelectChild string
| InsertChild ChildRow bool
| InsertTasks string "TaskRow list" bool
| InsertRewards string "RewardRow list" bool
| UpdateChild ChildRow bool

record Run =
  remote :: Remote
  pending :: "Outcome list"
  trace :: "Event list"

definition remoteCall :: "Run \<Rightarrow> Outcome \<times> Run" where
  "remoteCall run =
     (case pending run of
        [] \<Rightarrow> (Served, run)
      | out # outs \<Rightarrow> (out, run\<lparr>pending := outs\<rparr>))"

definition logged :: "Event \<Rightarrow> Run \<Rightarrow> Run" where
  "logged e run = run\<lparr>trace := trace run @ [e]\<rparr>"

definition childRowOf :: "string \<Rightarrow> Child \<Rightarrow> ChildRow" where
  "childRowOf familyId child =
     \<lparr>row_id = child_id child,
      family_id = familyId,
      row_name = child_name child,
      row_avatar = avatar child,
      row_level = level child,
      row_stars = stars child,
      row_active = active child,
      row_age = age child,
      love_languages = (case loveLanguages child of None \<Rightarrow> [] | Some ll \<Rightarrow> ll)\<rparr>"

text \<open>
  The body of the loop over the children of the snapshot. \<open>Inl\<close> is a thrown call,
  which leaves the loop for the \<^verbatim>\<open>catch\<close> block; \<open>Inr\<close> goes on to the next child.
\<close>

definition insertTasks :: "Child \<Rightarrow> Run \<Rightarrow> Run + Run" where
  "insertTasks child run =
     (if tasks child = [] then Inr run
      else
        (let rows = map (\<lambda>task. (child_id child, task)) (tasks child)
         in case remoteCall run of
              (Thrown, run1) \<Rightarrow> Inl (logged (InsertTasks (child_id child) rows False) run1)
            | (Refused, run1) \<Rightarrow> Inr (logged (InsertTasks (child_id child) rows False) run1)
            | (Served, run1) \<Rightarrow>
                (case insertTaskRows (remote run1) rows of
                   None \<Rightarrow> Inr (logged (InsertTasks (child_id child) rows False) run1)
                 | Some r \<Rightarrow>
                     Inr (logged (InsertTasks (child_id child) rows True) (run1\<lparr>remote := r\<rparr>)))))"

definition insertRewards :: "Child \<Rightarrow> Run \<Rightarrow> Run + Run" where
  "insertRewards child run =
     (if rewards child = [] then Inr run
      else
        (let rows = map (\<lambda>rw. (child_id child, rw)) (rewards child)
         in case remoteCall run of
              (Thrown, run1) \<Rightarrow> Inl (logged (InsertRewards (child_id child) rows False) run1)
            | (Refused, run1) \<Rightarrow> Inr (logged (InsertRewards (child_id child) rows False) run1)
            | (Served, run1) \<Rightarrow>
                (case insertRewardRows (remote run1) rows of
                   None \<Rightarrow> Inr (logged (InsertRewards (child_id child) rows False) run1)
                 | Some r \<Rightarrow>
                     Inr (logged (InsertRewards (child_id child) rows True) (run1\<lparr>remote := r\<rparr>)))))"

definition insertChild :: "string \<Rightarrow> Child \<Rightarrow> Run \<Rightarrow> Run + Run" where
  "insertChild familyId child run =
     (let row = childRowOf familyId child
      in case remoteCall run of
           (Thrown, run1) \<Rightarrow> Inl (logged (InsertChild row False) run1)
         | (Refused, run1) \<Rightarrow> Inr (logged (InsertChild row False) run1)
         | (Served, run1) \<Rightarrow>
             (case insertChildRow (remote run1) row of
                None \<Rightarrow> Inr (logged (InsertChild row False) run1)
              | Some r \<Rightarrow>
                  (case insertTasks child (logged (InsertChild row True) (run1\<lparr>remote := r\<rparr>)) of
                     Inl run2 \<Rightarrow> Inl run2
                   | Inr run2 \<Rightarrow> insertRewards child run2)))"

definition migrateChild :: "string \<Rightarrow> Child \<Rightarrow> Run \<Rightarrow> Run + Run" where
  "migrateChild familyId child run =
     (case remoteCall run of
        (Thrown, run1) \<Rightarrow> Inl (logged (SelectChild (child_id child)) run1)
      | (Refused, run1) \<Rightarrow> insertChild familyId child (logged (SelectChild (child_id child)) run1)
      | (Served, run1) \<Rightarrow>
          if selectChild (remote run1) (child_id child)
          then Inr (logged (SelectChild (child_id child)) run1)
          else insertChild familyId child (logged (SelectChild (child_id child)) run1))"

fun migrateChildren :: "string \<Rightarrow> Child list \<Rightarrow> Run \<Rightarrow> Run + Run" where
  "migrateChildren familyId [] run = Inr run"
| "migrateChildren familyId (child # others) run =
     (case migrateChild familyId child run of
        Inl run1 \<Rightarrow> Inl run1
      | Inr run1 \<Rightarrow> migrateChildren familyId others run1)"

text \<open>
  The two items of \<^verbatim>\<open>localStorage\<close>. The snapshot item is absent (or empty), or its
  text does not parse to an object, or it parses to an object whose \<^verbatim>\<open>children\<close>
  may be missing.
\<close>

datatype Stored = Unparseable | Snapshot "Child list option"

record LocalStorage =
  kidscalendar_db_v1 :: "Stored option"
  kidscalendar_migrated_v2 :: "string option"

definition migrateLocalStorageToSupabase ::
  "string \<Rightarrow> string \<Rightarrow> LocalStorage \<Rightarrow> Run \<Rightarrow> bool \<times> LocalStorage \<times> Run" where
  "migrateLocalStorageToSupabase userId familyId ls run =
     (case kidscalendar_db_v1 ls of
        None \<Rightarrow> (True, ls, run)
      | Some Unparseable \<Rightarrow> (False, ls, run)
      | Some (Snapshot stored) \<Rightarrow>
          (case migrateChildren familyId (case stored of None \<Rightarrow> [] | Some cs \<Rightarrow> cs) run of
             Inl run1 \<Rightarrow> (False, ls, run1)
           | Inr run1 \<Rightarrow> (True, ls\<lparr>kidscalendar_migrated_v2 := Some ''true''\<rparr>, run1)))"

definition resetMigrationFlag :: "LocalStorage \<Rightarrow> LocalStorage" where
  "resetMigrationFlag ls = ls\<lparr>kidscalendar_migrated_v2 := None\<rparr>"

text \<open>
  \<^verbatim>\<open>triggerMigration\<close> of App.tsx, the effect that runs when the user's id or family
  changes, that is at every login: \<open>None\<close> when its guard keeps it from calling the
  migration.
\<close>

record UserAccount =
  account_id :: "string option"
  account_familyId :: "string option"

definition triggerMigration ::
  "UserAccount option \<Rightarrow> bool \<Rightarrow> LocalStorage \<Rightarrow> Run \<Rightarrow> (bool \<times> LocalStorage \<times> Run) option" where
  "triggerMigration currentUser isSyncing ls run =
     (case currentUser of
        None \<Rightarrow> None
      | Some user \<Rightarrow>
          (case (account_id user, account_familyId user) of
             (Some uid, Some fid) \<Rightarrow>
               if uid \<noteq> [] \<and> fid \<noteq> [] \<and> \<not> isSyncing
               then Some (migrateLocalStorageToSupabase uid fid ls run)
               else None
           | _ \<Rightarrow> None))"

text \<open>Counting in a trace: the accepted inserts of a child, and the inserts requested for its tasks and rewards.\<close>

definition childInserted :: "string \<Rightarrow> Event \<Rightarrow> bool" where
  "childInserted cid e = (case e of InsertChild row ok \<Rightarrow> ok \<and> row_id row = cid | _ \<Rightarrow> False)"

definition tasksRequested :: "string \<Rightarrow> Event \<Rightarrow> bool" where
  "tasksRequested cid e = (case e of InsertTasks c rows ok \<Rightarrow> c = cid | _ \<Rightarrow> False)"

definition rewardsRequested :: "string \<Rightarrow> Event \<Rightarrow> bool" where
  "rewardsRequested cid e = (case e of InsertRewards c rows ok \<Rightarrow> c = cid | _ \<Rightarrow> False)"

definition count_events :: "(Event \<Rightarrow> bool) \<Rightarrow> Event list \<Rightarrow> nat" where
  "count_events P tr = length (filter P tr)"

definition stateOf :: "Run + Run \<Rightarrow> Run" where
  "stateOf res = (case res of Inl run \<Rightarrow> run | Inr run \<Rightarrow> run)"

definition child_ids :: "Run \<Rightarrow> string set" where
  "child_ids run = set (map row_id (children_tbl (remote run)))"

text \<open>
  The relation between the state \<open>base\<close> at some moment and a later state \<open>run\<close> that
  the loop maintains: a child present at \<open>base\<close> stays present and gains no accepted
  insert and no request for its tasks or rewards; a child absent at \<open>base\<close> gains at
  most one accepted insert, is present exactly when it gained one, and gains at most as
  many task and reward requests as accepted inserts.
\<close>

definition migration_inv :: "Run \<Rightarrow> Run \<Rightarrow> bool" where
  "migration_inv base run =
     (distinct (map row_id (children_tbl (remote run)))
      \<and> (\<forall>cid.
            (cid \<in> child_ids base \<longrightarrow>
               cid \<in> child_ids run
               \<and> count_events (childInserted cid) (trace run)
                    = count_events (childInserted cid) (trace base)
               \<and> count_events (tasksRequested cid) (trace run)
                    = count_events (tasksRequested cid) (trace base)
               \<and> count_events (rewardsRequested cid) (trace run)
                    = count_events (rewardsRequested cid) (trace base))
          \<and> (cid \<notin> child_ids base \<longrightarrow>
               count_events (childInserted cid) (trace base)
                 \<le> count_events (childInserted cid) (trace run)
               \<and> count_events (childInserted cid) (trace run)
                    \<le> count_events (childInserted cid) (trace base) + 1
               \<and> (cid \<in> child_ids run \<longleftrightarrow>
                    count_events (childInserted cid) (trace run)
                      = count_events (childInserted cid) (trace base) + 1)
               \<and> count_events (tasksRequested cid) (trace run)
                    + count_events (childInserted cid) (trace base)
                  \<le> count_events (tasksRequested cid) (trace base)
                    + count_events (childInserted cid) (trace run)
               \<and> count_events (rewardsRequested cid) (trace run)
                    + count_events (childInserted cid) (trace base)
                  \<le> count_events (rewardsRequested cid) (trace base)
                    + count_events (childInserted cid) (trace run))))"

text \<open>What the inserts of a child's tasks and rewards leave, once its row was accepted.\<close>

definition afterChild :: "Child \<Rightarrow> Run \<Rightarrow> Run" where
  "afterChild child run =
     stateOf (case insertTasks child run of Inl run2 \<Rightarrow> Inl run2 | Inr run2 \<Rightarrow> insertRewards child run2)"

text \<open>
  The two kinds of step of the loop: one that accepts no insert of a child and asks for
  no tasks or rewards, and one that accepts the insert of its own child, absent until
  then, and asks at most once for its tasks and at most once for its rewards.
\<close>

definition quiet_step :: "Run \<Rightarrow> Run \<Rightarrow> bool" where
  "quiet_step run run' =
     (children_tbl (remote run') = children_tbl (remote run)
      \<and> (\<forall>cid. count_events (childInserted cid) (trace run')
                   = count_events (childInserted cid) (trace run)
               \<and> count_events (tasksRequested cid) (trace run')
                   = count_events (tasksRequested cid) (trace run)
               \<and> count_events (rewardsRequested cid) (trace run')
                   = count_events (rewardsRequested cid) (trace run)))"

definition insert_step :: "string \<Rightarrow> Child \<Rightarrow> Run \<Rightarrow> Run \<Rightarrow> bool" where
  "insert_step fam child run run' =
     (child_id child \<notin> child_ids run
      \<and> children_tbl (remote run') = children_tbl (remote run) @ [childRowOf fam child]
      \<and> (\<forall>cid. count_events (childInserted cid) (trace run')
                   = count_events (childInserted cid) (trace run)
                     + (if cid = child_id child then 1 else 0)
               \<and> count_events (tasksRequested cid) (trace run)
                   \<le> count_events (tasksRequested cid) (trace run')
               \<and> count_events (tasksRequested cid) (trace run')
                   \<le> count_events (tasksRequested cid) (trace run)
                     + (if cid = child_id child then 1 else 0)
               \<and> count_events (rewardsRequested cid) (trace run)
                   \<le> count_events (rewardsRequested cid) (trace run')
               \<and> count_events (rewardsRequested cid) (trace run')
                   \<le> count_events (rewardsRequested cid) (trace run)
                     + (if cid = child_id child then 1 else 0)))"

text \<open>
  Two runs in succession: the second starts from the local storage and from the store,
  the environment and the trace that the first one left. A run that starts the trace
  begins with the store as it is and the environment's choices ahead of it.
\<close>

definition freshRun :: "Remote \<Rightarrow> Outcome list \<Rightarrow> Run" where
  "freshRun r outcomes = \<lparr>remote = r, pending = outcomes, trace = []\<rparr>"

definition migrateTwice :: "string \<Rightarrow> string \<Rightarrow> LocalStorage \<Rightarrow> Run \<Rightarrow> Run \<times> Run" where
  "migrateTwice userId familyId ls start =
     (case migrateLocalStorageToSupabase userId familyId ls start of
        (ok1, ls1, run1) \<Rightarrow>
          (case migrateLocalStorageToSupabase userId familyId ls1 run1 of
             (ok2, ls2, run2) \<Rightarrow> (run1, run2)))"

text \<open>The children of the snapshot, and an environment that serves every call.\<close>

definition snapshotChildren :: "LocalStorage \<Rightarrow> Child list" where
  "snapshotChildren ls =
     (case kidscalendar_db_v1 ls of
        Some (Snapshot (Some cs)) \<Rightarrow> cs
      | _ \<Rightarrow> [])"

definition allServed :: "Run \<Rightarrow> bool" where
  "allServed run = list_all (\<lambda>out. out = Served) (pending run)"

section \<open>The other writers of the family state (App.tsx, ParentSettings.tsx)\<close>

text \<open>
  Every call of \<^verbatim>\<open>setChildren\<close> in App.tsx that is not modelled above. As before a
  handler is the function from the list it reads to the list it stores; a handler that
  passes a callback to \<^verbatim>\<open>setChildren\<close> works on \<open>prev\<close>, the list current at that
  moment.
\<close>

definition addChild :: "Child list \<Rightarrow> Child \<Rightarrow> Child list" where
  "addChild children child = children @ [child]"

definition updateChild :: "Child list \<Rightarrow> Child \<Rightarrow> Child list" where
  "updateChild children updatedChild =
     map (\<lambda>c. if child_id c = child_id updatedChild then updatedChild else c) children"

definition deleteChild :: "Child list \<Rightarrow> string \<Rightarrow> Child list" where
  "deleteChild children ident = filter (\<lambda>c. child_id c \<noteq> ident) children"

text \<open>
  \<^verbatim>\<open>onAddTasks\<close> asks for the audio of every task of the batch, so here the speech
  service takes the task as well.
\<close>

definition onAddTasks ::
  "Child list \<Rightarrow> Child list \<Rightarrow> string \<Rightarrow> Task list
     \<Rightarrow> (Task \<Rightarrow> TaskStatus \<Rightarrow> Language \<Rightarrow> string option) \<Rightarrow> Child list" where
  "onAddTasks children prev childId ts speech =
     (let tasksWithAudio = (case find (\<lambda>c. child_id c = childId) children of
                              None \<Rightarrow> ts
                            | Some targetChild \<Rightarrow> map (\<lambda>t. preGenerateTaskAudio t (speech t)) ts)
      in map (\<lambda>c. if child_id c = childId then c\<lparr>tasks := tasks c @ tasksWithAudio\<rparr> else c) prev)"

definition onDeleteTask :: "Child list \<Rightarrow> string \<Rightarrow> string \<Rightarrow> Child list" where
  "onDeleteTask children childId taskId =
     map (\<lambda>c. if child_id c = childId
               then c\<lparr>tasks := filter (\<lambda>t. task_id t \<noteq> taskId) (tasks c)\<rparr>
               else c) children"

definition onAddReward :: "Child list \<Rightarrow> string \<Rightarrow> Reward \<Rightarrow> Child list" where
  "onAddReward prev childId rw =
     map (\<lambda>c. if child_id c = childId then c\<lparr>rewards := rewards c @ [rw]\<rparr> else c) prev"

definition onUpdateReward :: "Child list \<Rightarrow> string \<Rightarrow> Reward \<Rightarrow> Child list" where
  "onUpdateReward children childId rw =
     map (\<lambda>c. if child_id c = childId
               then c\<lparr>rewards := map (\<lambda>r. if reward_id r = reward_id rw then rw else r) (rewards c)\<rparr>
               else c) children"

definition onDeleteReward :: "Child list \<Rightarrow> string \<Rightarrow> string \<Rightarrow> Child list" where
  "onDeleteReward children childId ident =
     map (\<lambda>c. if child_id c = childId
               then c\<lparr>rewards := filter (\<lambda>r. reward_id r \<noteq> ident) (rewards c)\<rparr>
               else c) children"

text \<open>
  \<^verbatim>\<open>fetchFamilyData\<close> stores the children that \<^verbatim>\<open>DatabaseService.fetchFamilyData\<close>
  returns for the family of the user's profile. \<open>profileFamily\<close> is the
  \<^verbatim>\<open>family_id\<close> of the profile that was read (\<open>None\<close> when no profile came back or
  it has none) and \<open>fetched\<close> is the answer of the service (\<open>None\<close> when it throws).
  Signing out stores the empty list.
\<close>

definition fetchFamilyData ::
  "string option \<Rightarrow> string option \<Rightarrow> (string \<Rightarrow> Child list option) \<Rightarrow> Child list \<Rightarrow> Child list" where
  "fetchFamilyData targetUserId profileFamily fetched children =
     (if or_str targetUserId [] = [] then children
      else if or_str profileFamily [] = [] then children
      else (case fetched (or_str profileFamily []) of
              None \<Rightarrow> children
            | Some dbChildren \<Rightarrow> dbChildren))"

definition handleLogout :: "Child list \<Rightarrow> Child list" where
  "handleLogout children = []"

text \<open>
  The dialog of ParentSettings.tsx that edits or adds a child. \<^verbatim>\<open>openEditChild\<close>
  keeps the child it was opened on in \<^verbatim>\<open>editingChild\<close> and fills the form from it;
  \<^verbatim>\<open>saveChild\<close> hands \<^verbatim>\<open>onUpdateChild\<close> that copy with the four fields of the form,
  or hands \<^verbatim>\<open>onAddChild\<close> a new child named after the clock.
\<close>

record ChildForm =
  form_name :: string
  form_age :: string
  form_avatar :: string
  form_loveLanguages :: "LoveLanguage list option"

definition openEditChild :: "Child \<Rightarrow> Child option \<times> ChildForm" where
  "openEditChild child =
     (Some child,
      \<lparr>form_name = child_name child,
       form_age = or_str (map_option toString (age child)) [],
       form_avatar = avatar child,
       form_loveLanguages = Some (case loveLanguages child of None \<Rightarrow> [] | Some ll \<Rightarrow> ll)\<rparr>)"

definition formAge :: "ChildForm \<Rightarrow> jsnum option" where
  "formAge childForm = (if form_age childForm = [] then None else Some (parseInt (form_age childForm)))"

definition saveChild :: "Child list \<Rightarrow> Child option \<Rightarrow> ChildForm \<Rightarrow> int \<Rightarrow> Child list" where
  "saveChild children editingChild childForm now =
     (if trim (form_name childForm) = [] then children
      else
        (case editingChild of
           Some edited \<Rightarrow>
             updateChild children
               (edited\<lparr>child_name := form_name childForm,
                       age := formAge childForm,
                       avatar := form_avatar childForm,
                       loveLanguages := form_loveLanguages childForm\<rparr>)
         | None \<Rightarrow>
             addChild children
               \<lparr>child_id = ''c_'' @ int_toString now,
                child_name = form_name childForm,
                age = formAge childForm,
                level = 1,
                stars = 0,
                avatar = form_avatar childForm,
                active = False,
                rewards = [],
                tasks = [],
                loveLanguages = form_loveLanguages childForm,
                redemptionHistory = None\<rparr>))"

text \<open>
  \<^verbatim>\<open>uploadFamilyData\<close>, which \<^verbatim>\<open>addChild\<close> and \<^verbatim>\<open>updateChild\<close> call with the one
  child they were given when the user has a family, and the settings call with the
  whole list. It gives up at once for a user without a family, for an empty list, and
  when every child is brand new: its id is \<^verbatim>\<open>c_\<close> and a time less than five seconds
  before now. Otherwise it looks every child up in the store, as the migration does.
  A child that is not found is inserted with its tasks and rewards, by the same
  statements as in the migration. For a child that is found it updates the row of that
  id with every column of the child's row but the family: the event
  \<open>UpdateChild\<close> holds the row that was sent and whether the store took it.
\<close>

definition brandNew :: "int \<Rightarrow> Child \<Rightarrow> bool" where
  "brandNew now c =
     (startsWith (child_id c) ''c_''
      \<and> (case parseInt (or_str (at_index (split_char CHR ''_'' (child_id c)) 1) ''0'') of
            NaN \<Rightarrow> False
          | Num created \<Rightarrow> now - created < 5000))"

definition updateChildRow :: "Remote \<Rightarrow> ChildRow \<Rightarrow> Remote" where
  "updateChildRow r row =
     r\<lparr>children_tbl := map (\<lambda>old. if row_id old = row_id row
                                   then row\<lparr>family_id := family_id old\<rparr>
                                   else old) (children_tbl r)\<rparr>"

definition updateRow :: "string \<Rightarrow> Child \<Rightarrow> Run \<Rightarrow> Run + Run" where
  "updateRow familyId child run =
     (let row = childRowOf familyId child
      in case remoteCall run of
           (Thrown, run1) \<Rightarrow> Inl (logged (UpdateChild row False) run1)
         | (Refused, run1) \<Rightarrow> Inr (logged (UpdateChild row False) run1)
         | (Served, run1) \<Rightarrow>
             Inr (logged (UpdateChild row True) (run1\<lparr>remote := updateChildRow (remote run1) row\<rparr>)))"

definition uploadChild :: "string \<Rightarrow> Child \<Rightarrow> Run \<Rightarrow> Run + Run" where
  "uploadChild familyId child run =
     (case remoteCall run of
        (Thrown, run1) \<Rightarrow> Inl (logged (SelectChild (child_id child)) run1)
      | (Refused, run1) \<Rightarrow> insertChild familyId child (logged (SelectChild (child_id child)) run1)
      | (Served, run1) \<Rightarrow>
          if selectChild (remote run1) (child_id child)
          then updateRow familyId child (logged (SelectChild (child_id child)) run1)
          else insertChild familyId child (logged (SelectChild (child_id child)) run1))"

fun uploadChildren :: "string \<Rightarrow> Child list \<Rightarrow> Run \<Rightarrow> Run + Run" where
  "uploadChildren familyId [] run = Inr run"
| "uploadChildren familyId (child # others) run =
     (case uploadChild familyId child run of
        Inl run1 \<Rightarrow> Inl run1
      | Inr run1 \<Rightarrow> uploadChildren familyId others run1)"

text \<open>
  The three ways the upload ends: it gave up before the first call; a call threw and
  the \<^verbatim>\<open>catch\<close> block reported it; or the loop came to its end, and then the family
  is read again from the store with \<^verbatim>\<open>fetchFamilyData\<close>.
\<close>

datatype Upload = GaveUp | Failed | Uploaded

definition uploadFamilyData :: "string option \<Rightarrow> Child list \<Rightarrow> int \<Rightarrow> Run \<Rightarrow> Upload \<times> Run" where
  "uploadFamilyData familyId localChildren now run =
     (if \<not> hasFamily familyId \<or> localChildren = [] then (GaveUp, run)
      else if list_all (brandNew now) localChildren then (GaveUp, run)
      else
        (case uploadChildren (or_str familyId []) localChildren run of
           Inl run1 \<Rightarrow> (Failed, run1)
         | Inr run1 \<Rightarrow> (Uploaded, run1)))"

text \<open>The upload that \<^verbatim>\<open>updateChild\<close> and \<^verbatim>\<open>addChild\<close> start.\<close>

definition updateChild_upload :: "string option \<Rightarrow> Child \<Rightarrow> int \<Rightarrow> Run \<Rightarrow> Upload \<times> Run" where
  "updateChild_upload familyId updatedChild now run =
     (if hasFamily familyId then uploadFamilyData familyId [updatedChild] now run
      else (GaveUp, run))"

definition addChild_upload :: "string option \<Rightarrow> Child \<Rightarrow> int \<Rightarrow> Run \<Rightarrow> Upload \<times> Run" where
  "addChild_upload familyId child now run =
     (if hasFamily familyId then uploadFamilyData familyId [child] now run
      else (GaveUp, run))"

section \<open>Sample data\<close>

definition sampleTask :: "string \<Rightarrow> string \<Rightarrow> string \<Rightarrow> TaskStatus \<Rightarrow> int option \<Rightarrow> Task" where
  "sampleTask ident at_time minutes st started =
     \<lparr>task_id = ident, task_title = ''Brush teeth'', description = ''Two minutes'',
      task_reward = 5, task_time = at_time, duration = Some minutes, startTime = started,
      task_type = Hygiene, status = st, emoji = ''*'', recurrence = None,
      audio_pending_es = None, audio_pending_en = None,
      audio_active_es = None, audio_active_en = None,
      audio_done_es = None, audio_done_en = None\<rparr>"

definition sampleReward :: "string \<Rightarrow> int \<Rightarrow> Reward" where
  "sampleReward ident price =
     \<lparr>reward_id = ident, reward_title = ''Movie night'', category = ''Screen Time'',
      reward_cost = price, image = [], reward_type = Screen\<rparr>"

definition sampleChild :: "string \<Rightarrow> int \<Rightarrow> bool \<Rightarrow> Task list \<Rightarrow> Child" where
  "sampleChild ident balance is_active ts =
     \<lparr>child_id = ident, child_name = ''Ana'', age = Some (Num 7), level = 1, stars = balance,
      avatar = [], active = is_active, rewards = [], tasks = ts,
      loveLanguages = None, redemptionHistory = None\<rparr>"

definition emptyForm :: TaskForm where
  "emptyForm =
     \<lparr>newTask = blankTask, editingTaskId = None, recurrenceFreq = NoFrequency,
      recurrenceDays = [], recurrenceEndDate = [], recurrenceDayOfMonth = Num 1,
      triedToSave = False, isAddingTask = False\<rparr>"

definition noSpeech :: "TaskStatus \<Rightarrow> Language \<Rightarrow> string option" where
  "noSpeech st lang = None"

definition sampleFamily :: "Child list" where
  "sampleFamily =
     [sampleChild ''a'' 40 True [sampleTask ''t1'' ''08:00'' ''30'' Active (Some 5),
                                 sampleTask ''t2'' ''09:00'' ''30'' Pending None],
      sampleChild ''b'' 3 False [sampleTask ''t1'' ''08:00'' ''30'' Pending None]]"


definition emptyRemote :: Remote where
  "emptyRemote = \<lparr>children_tbl = [], tasks_tbl = [], rewards_tbl = []\<rparr>"

definition sampleStorage :: LocalStorage where
  "sampleStorage =
     \<lparr>kidscalendar_db_v1 = Some (Snapshot (Some sampleFamily)), kidscalendar_migrated_v2 = None\<rparr>"

definition sampleUser :: UserAccount where
  "sampleUser = \<lparr>account_id = Some ''u1'', account_familyId = Some ''fam''\<rparr>"


definition sampleRemote :: Remote where
  "sampleRemote =
     \<lparr>children_tbl = [childRowOf ''fam'' (sampleChild ''a'' 40 True [])],
      tasks_tbl = [], rewards_tbl = []\<rparr>"

definition weeklyTask :: "string \<Rightarrow> int list \<Rightarrow> Task" where
  "weeklyTask ident on_days =
     (sampleTask ident ''08:00'' ''30'' Pending None)
       \<lparr>recurrence := Some \<lparr>frequency = Weekly, days = on_days, dayOfMonth = None, endDate = None\<rparr>\<rparr>"

definition clockAt :: "int \<Rightarrow> int \<Rightarrow> int \<Rightarrow> DateTime" where
  "clockAt weekday h m = \<lparr>getDate = 3, getDay = weekday, getHours = h, getMinutes = m\<rparr>"
section \<open>Properties\<close>

text \<open>The definitions that a concrete evaluation unfolds.\<close>

lemmas js_defs = isSpace_def inClass_def isDigit_def digit_char_def trimStart_def trim_def
  upperChar_def toUpperCase_def startsWith_def at_index_def int_toString_def toString_def
  padStart_def digit_value_def isRadixDigit_def digits_value_def radix_literal_def
  isMantissa_def isExponent_def isFloatLiteral_def signed_decimal_def Number_def
  parseInt_digits_def parseInt_def js_add_def js_mul_def js_less_def js_ge_def floor_div_def
  js_rem_def or_num_def or_str_def


lemmas time_defs = hour12_def hour24_def periodSuffix_def time12hRegex_def time24hRegex_def
  isValidTime_def isValidDuration_def Number_or0_def Number_opt_def adjustHours_def
  parseTimeToMinutes_def parseTimeToMinutes_portal_def pad_def formatHM_def
  minutesToInternalString_def displayTime_def formatMinutes_portal_def displayTime_portal_def


text \<open>A call to the store changes neither the store nor the trace, and is served when every call is.\<close>

lemma remoteCall_frame:
  "remoteCall run = (out, run1) \<Longrightarrow> remote run1 = remote run \<and> trace run1 = trace run"
  by (auto simp: remoteCall_def split: list.splits)

lemma remoteCall_served:
  assumes "allServed run"
  shows "remoteCall run = (Served, run\<lparr>pending := tl (pending run)\<rparr>)
         \<and> allServed (run\<lparr>pending := tl (pending run)\<rparr>)"
  using assms by (cases "pending run") (simp_all add: remoteCall_def allServed_def)

subsection \<open>Switching the active child\<close>

lemma filter_active_switch_absent:
  "ident \<notin> child_id ` set children \<Longrightarrow> filter active (switchActiveChild children ident) = []"
  by (induction children) (auto simp: switchActiveChild_def)

lemma filter_active_switch_distinct:
  "distinct (map child_id children) \<Longrightarrow>
   length (filter active (switchActiveChild children ident)) \<le> 1"
proof (induction children)
  case Nil
  then show ?case by (simp add: switchActiveChild_def)
next
  case (Cons c cs)
  show ?case
  proof (cases "child_id c = ident")
    case True
    with Cons.prems have "ident \<notin> child_id ` set cs" by auto
    then have "filter active (switchActiveChild cs ident) = []"
      by (rule filter_active_switch_absent)
    then show ?thesis using True by (simp add: switchActiveChild_def)
  next
    case False
    then show ?thesis using Cons by (simp add: switchActiveChild_def)
  qed
qed

text \<open>
  Claim C10. \<^verbatim>\<open>switchActiveChild\<close> keeps every child in its place and changes only
  the \<open>active\<close> field, which becomes true exactly for the children whose id is the given
  one. So any two active children of the result have the same id; when the ids of the
  list are distinct (the id is the primary key of a child) at most one child is
  active; and when no child has the given id no child is active.
\<close>

theorem switchActiveChild_active_iff:
  "length (switchActiveChild children ident) = length children
   \<and> (\<forall>i < length children.
         switchActiveChild children ident ! i
           = (children ! i)\<lparr>active := (child_id (children ! i) = ident)\<rparr>)
   \<and> (\<forall>c \<in> set (switchActiveChild children ident). active c \<longleftrightarrow> child_id c = ident)
   \<and> (\<forall>c1 \<in> set (switchActiveChild children ident).
       \<forall>c2 \<in> set (switchActiveChild children ident).
         active c1 \<and> active c2 \<longrightarrow> child_id c1 = child_id c2)
   \<and> (distinct (map child_id children) \<longrightarrow>
         length (filter active (switchActiveChild children ident)) \<le> 1)
   \<and> (ident \<notin> child_id ` set children \<longrightarrow>
         filter active (switchActiveChild children ident) = [])"
proof -
  have a: "\<forall>c \<in> set (switchActiveChild children ident). active c \<longleftrightarrow> child_id c = ident"
    by (auto simp: switchActiveChild_def)
  have b: "\<forall>i < length children.
         switchActiveChild children ident ! i
           = (children ! i)\<lparr>active := (child_id (children ! i) = ident)\<rparr>"
    by (simp add: switchActiveChild_def)
  show ?thesis
    using a b filter_active_switch_distinct [of children ident]
      filter_active_switch_absent [of ident children]
    by (simp add: switchActiveChild_def)
qed

theorem switchActiveChild_active_iff_witness:
  "distinct (map child_id sampleFamily)
   \<and> length (filter active (switchActiveChild sampleFamily ''b'')) \<le> 1
   \<and> map active (switchActiveChild sampleFamily ''b'') = [False, True]
   \<and> ''z'' \<notin> child_id ` set sampleFamily
   \<and> filter active (switchActiveChild sampleFamily ''z'') = []"
proof -
  note at_b = switchActiveChild_active_iff [of sampleFamily "''b''"]
  note at_z = switchActiveChild_active_iff [of sampleFamily "''z''"]
  have d: "distinct (map child_id sampleFamily)"
    by (simp add: sampleFamily_def sampleChild_def)
  have z: "''z'' \<notin> child_id ` set sampleFamily"
    by (simp add: sampleFamily_def sampleChild_def)
  have one: "length (filter active (switchActiveChild sampleFamily ''b'')) \<le> 1"
    using at_b d by blast
  have none: "filter active (switchActiveChild sampleFamily ''z'') = []"
    using at_z z by blast
  have val: "map active (switchActiveChild sampleFamily ''b'') = [False, True]"
    by (simp add: sampleFamily_def sampleChild_def switchActiveChild_def)
  show ?thesis using d z one none val by blast
qed

subsection \<open>The frame of a status transition, and the writers of the star balance\<close>

lemma updatedTask_frame:
  "(updatedTask t st now)\<lparr>status := status t, startTime := startTime t\<rparr> = t"
  by (simp add: updatedTask_def)

lemma updateTaskStatus_stars:
  "map stars (updateTaskStatus children childId taskId newStatus now) = map stars children"
  by (simp add: updateTaskStatus_def comp_def cong: map_cong)

lemma portal_onUpdateTask_stars:
  "map stars (portal_onUpdateTask children taskId newStatus now) = map stars children"
  by (simp add: portal_onUpdateTask_def updateTaskStatus_stars split: option.split)

lemma task_handlers_stars:
  "map stars (onAddTask children prev childId task speech) = map stars prev
   \<and> map stars (onAddTasks children prev childId ts speeches) = map stars prev
   \<and> map stars (onUpdateTask children prev childId task speech) = map stars prev
   \<and> map stars (onDeleteTask children childId taskId) = map stars children"
  by (simp add: onAddTask_def onAddTasks_def onUpdateTask_def onDeleteTask_def Let_def comp_def
        cong: map_cong)

lemma reward_handlers_stars:
  "map stars (onAddReward prev childId rw) = map stars prev
   \<and> map stars (onUpdateReward children childId rw) = map stars children
   \<and> map stars (onDeleteReward children childId ident) = map stars children
   \<and> map stars (switchActiveChild children ident) = map stars children"
  by (simp add: onAddReward_def onUpdateReward_def onDeleteReward_def switchActiveChild_def
        comp_def cong: map_cong)

lemma redeemReward_stars:
  "map stars (snd (redeemReward children childId rw nt now))
     = map (\<lambda>c. if fst (redeemReward children childId rw nt now) \<and> child_id c = childId
                 then stars c - reward_cost rw else stars c) children"
  by (simp add: redeemReward_def redeemedChild_def comp_def split: option.split cong: map_cong)

lemma updateChild_stars:
  "map stars (updateChild children updatedChild)
     = map (\<lambda>c. if child_id c = child_id updatedChild then stars updatedChild else stars c) children"
  by (simp add: updateChild_def comp_def cong: map_cong)

lemma saveChild_stars:
  "map stars (saveChild children (Some edited) childForm now)
     = map (\<lambda>c. if child_id c = child_id edited \<and> trim (form_name childForm) \<noteq> []
                 then stars edited else stars c) children
   \<and> map stars (saveChild children None childForm now)
     = map stars children @ (if trim (form_name childForm) = [] then [] else [0])"
  by (simp add: saveChild_def updateChild_def addChild_def comp_def cong: map_cong)

lemma updateChildRow_stars:
  "\<forall>row \<in> set (children_tbl (updateChildRow r new)).
     row_id row = row_id new \<longrightarrow> row_stars row = row_stars new"
  by (auto simp: updateChildRow_def)

lemma uploadChild_found:
  assumes "allServed run" and "selectChild (remote run) (child_id child)"
  shows "\<exists>run'. uploadChild fam child run = Inr run'
           \<and> remote run' = updateChildRow (remote run) (childRowOf fam child)
           \<and> trace run' = trace run @ [SelectChild (child_id child),
                                        UpdateChild (childRowOf fam child) True]"
proof -
  define run1 where "run1 = run\<lparr>pending := tl (pending run)\<rparr>"
  define run2 where "run2 = logged (SelectChild (child_id child)) run1"
  have c1: "remoteCall run = (Served, run1)" and s1: "allServed run1"
    using remoteCall_served [OF assms(1)] by (simp_all add: run1_def)
  have s2: "allServed run2" using s1 by (simp add: run2_def logged_def allServed_def)
  have c2: "remoteCall run2 = (Served, run2\<lparr>pending := tl (pending run2)\<rparr>)"
    using remoteCall_served [OF s2] by simp
  have found: "selectChild (remote run1) (child_id child)"
    using assms(2) by (simp add: run1_def)
  have "uploadChild fam child run = updateRow fam child run2"
    using c1 found by (simp add: uploadChild_def run2_def)
  then show ?thesis
    using c2 by (simp add: updateRow_def Let_def logged_def run2_def run1_def)
qed

lemma updateChild_upload_found:
  assumes "allServed run" and "hasFamily familyId" and "\<not> brandNew now updatedChild"
    and "selectChild (remote run) (child_id updatedChild)"
  shows "fst (updateChild_upload familyId updatedChild now run) = Uploaded
         \<and> remote (snd (updateChild_upload familyId updatedChild now run))
             = updateChildRow (remote run) (childRowOf (or_str familyId []) updatedChild)"
proof -
  obtain run' where u: "uploadChild (or_str familyId []) updatedChild run = Inr run'"
    and r: "remote run' = updateChildRow (remote run) (childRowOf (or_str familyId []) updatedChild)"
    using uploadChild_found [OF assms(1,4)] by blast
  show ?thesis
    using assms(2,3) u r by (simp add: updateChild_upload_def uploadFamilyData_def)
qed

text \<open>
  Claim C3, as amended. \<^verbatim>\<open>updateTaskStatus\<close> keeps the list of star balances as it is,
  and so do \<^verbatim>\<open>handleStart\<close> and \<^verbatim>\<open>handleComplete\<close> of the child portal, which go
  through it. Every child keeps all its fields but \<open>tasks\<close>, and a child with another
  id is unchanged. Every task keeps its place and all its fields but \<open>status\<close> and
  \<open>startTime\<close>, and a task with another id is unchanged. The only writes sent to the
  remote store are updates of the status and start time of the task's row.

  The star balance is not written by redemption alone. The task handlers, the reward
  handlers and \<^verbatim>\<open>switchActiveChild\<close> keep every balance, and \<^verbatim>\<open>redeemReward\<close>, when
  it succeeds, lowers by the cost the balance of the children of the given id. But
  \<^verbatim>\<open>updateChild\<close> gives the children of the id of the child it is handed the balance
  that child carries; \<^verbatim>\<open>saveChild\<close> of the settings hands it the balance of the copy
  taken when the dialog was opened, or adds a child with balance 0; \<^verbatim>\<open>addChild\<close> adds
  the balance of the new child and \<^verbatim>\<open>deleteChild\<close> keeps the balances of the other
  ids; \<^verbatim>\<open>fetchFamilyData\<close> stores the children the store returned, and signing out
  stores none. And the upload that \<^verbatim>\<open>updateChild\<close> starts for a user with a family
  writes that balance to the store: when the child is not brand new, the store has its
  row and serves every call, the upload completes and leaves the store with that row
  updated, so that every row of the child's id holds the balance of the child handed
  to \<^verbatim>\<open>updateChild\<close>.
\<close>

theorem updateTaskStatus_frame:
  "length (updateTaskStatus children childId taskId newStatus now) = length children
   \<and> map stars (updateTaskStatus children childId taskId newStatus now) = map stars children
   \<and> map stars (handleComplete children task now) = map stars children
   \<and> map stars (handleStart children taskId now) = map stars children
   \<and> (\<forall>i < length children.
        (updateTaskStatus children childId taskId newStatus now ! i)\<lparr>tasks := tasks (children ! i)\<rparr>
           = children ! i
        \<and> (child_id (children ! i) \<noteq> childId \<longrightarrow>
             updateTaskStatus children childId taskId newStatus now ! i = children ! i)
        \<and> length (tasks (updateTaskStatus children childId taskId newStatus now ! i))
             = length (tasks (children ! i))
        \<and> (\<forall>j < length (tasks (children ! i)).
             (tasks (updateTaskStatus children childId taskId newStatus now ! i) ! j)
                \<lparr>status := status (tasks (children ! i) ! j),
                 startTime := startTime (tasks (children ! i) ! j)\<rparr>
               = tasks (children ! i) ! j
             \<and> (task_id (tasks (children ! i) ! j) \<noteq> taskId \<longrightarrow>
                  tasks (updateTaskStatus children childId taskId newStatus now ! i) ! j
                    = tasks (children ! i) ! j)))
   \<and> (\<forall>r \<in> set (updateTaskStatus_requests familyId children childId taskId newStatus now).
        \<exists>s t. r = UpdateTaskRow taskId s t)
   \<and> map stars (onAddTask children prev childId task speech) = map stars prev
   \<and> map stars (onAddTasks children prev childId ts speeches) = map stars prev
   \<and> map stars (onUpdateTask children prev childId task speech) = map stars prev
   \<and> map stars (onDeleteTask children childId taskId) = map stars children
   \<and> map stars (onAddReward prev childId rw) = map stars prev
   \<and> map stars (onUpdateReward children childId rw) = map stars children
   \<and> map stars (onDeleteReward children childId ident) = map stars children
   \<and> map stars (switchActiveChild children ident) = map stars children
   \<and> map stars (snd (redeemReward children childId rw nt now))
        = map (\<lambda>c. if fst (redeemReward children childId rw nt now) \<and> child_id c = childId
                    then stars c - reward_cost rw else stars c) children
   \<and> map stars (updateChild children updatedChild)
        = map (\<lambda>c. if child_id c = child_id updatedChild then stars updatedChild else stars c)
            children
   \<and> map stars (saveChild children (Some edited) childForm now)
        = map (\<lambda>c. if child_id c = child_id edited \<and> trim (form_name childForm) \<noteq> []
                    then stars edited else stars c) children
   \<and> map stars (saveChild children None childForm now)
        = map stars children @ (if trim (form_name childForm) = [] then [] else [0])
   \<and> map stars (addChild children updatedChild) = map stars children @ [stars updatedChild]
   \<and> map stars (deleteChild children ident)
        = map stars (filter (\<lambda>c. child_id c \<noteq> ident) children)
   \<and> (userId \<noteq> [] \<and> fam \<noteq> [] \<and> fetched fam = Some dbChildren \<longrightarrow>
        fetchFamilyData (Some userId) (Some fam) fetched children = dbChildren)
   \<and> handleLogout children = []
   \<and> (allServed run \<and> hasFamily familyId \<and> \<not> brandNew now updatedChild
        \<and> selectChild (remote run) (child_id updatedChild) \<longrightarrow>
        fst (updateChild_upload familyId updatedChild now run) = Uploaded
        \<and> remote (snd (updateChild_upload familyId updatedChild now run))
            = updateChildRow (remote run) (childRowOf (or_str familyId []) updatedChild)
        \<and> (\<forall>row \<in> set (children_tbl (remote (snd (updateChild_upload familyId updatedChild
                                                       now run)))).
              row_id row = child_id updatedChild \<longrightarrow> row_stars row = stars updatedChild))"
proof -
  have per_child: "\<And>i. i < length children \<Longrightarrow>
        (updateTaskStatus children childId taskId newStatus now ! i)\<lparr>tasks := tasks (children ! i)\<rparr>
           = children ! i
        \<and> (child_id (children ! i) \<noteq> childId \<longrightarrow>
             updateTaskStatus children childId taskId newStatus now ! i = children ! i)
        \<and> length (tasks (updateTaskStatus children childId taskId newStatus now ! i))
             = length (tasks (children ! i))
        \<and> (\<forall>j < length (tasks (children ! i)).
             (tasks (updateTaskStatus children childId taskId newStatus now ! i) ! j)
                \<lparr>status := status (tasks (children ! i) ! j),
                 startTime := startTime (tasks (children ! i) ! j)\<rparr>
               = tasks (children ! i) ! j
             \<and> (task_id (tasks (children ! i) ! j) \<noteq> taskId \<longrightarrow>
                  tasks (updateTaskStatus children childId taskId newStatus now ! i) ! j
                    = tasks (children ! i) ! j))"
    by (simp add: updateTaskStatus_def updatedTask_frame)
  have reqs: "\<forall>r \<in> set (updateTaskStatus_requests familyId children childId taskId newStatus now).
        \<exists>s t. r = UpdateTaskRow taskId s t"
    by (auto simp: updateTaskStatus_requests_def split: if_splits)
  have len: "length (updateTaskStatus children childId taskId newStatus now) = length children"
    by (simp add: updateTaskStatus_def)
  have transition:
    "length (updateTaskStatus children childId taskId newStatus now) = length children
   \<and> map stars (updateTaskStatus children childId taskId newStatus now) = map stars children
   \<and> map stars (handleComplete children task now) = map stars children
   \<and> map stars (handleStart children taskId now) = map stars children
   \<and> (\<forall>i < length children.
        (updateTaskStatus children childId taskId newStatus now ! i)\<lparr>tasks := tasks (children ! i)\<rparr>
           = children ! i
        \<and> (child_id (children ! i) \<noteq> childId \<longrightarrow>
             updateTaskStatus children childId taskId newStatus now ! i = children ! i)
        \<and> length (tasks (updateTaskStatus children childId taskId newStatus now ! i))
             = length (tasks (children ! i))
        \<and> (\<forall>j < length (tasks (children ! i)).
             (tasks (updateTaskStatus children childId taskId newStatus now ! i) ! j)
                \<lparr>status := status (tasks (children ! i) ! j),
                 startTime := startTime (tasks (children ! i) ! j)\<rparr>
               = tasks (children ! i) ! j
             \<and> (task_id (tasks (children ! i) ! j) \<noteq> taskId \<longrightarrow>
                  tasks (updateTaskStatus children childId taskId newStatus now ! i) ! j
                    = tasks (children ! i) ! j)))
   \<and> (\<forall>r \<in> set (updateTaskStatus_requests familyId children childId taskId newStatus now).
        \<exists>s t. r = UpdateTaskRow taskId s t)"
    using len per_child reqs updateTaskStatus_stars [of children childId taskId newStatus now]
      portal_onUpdateTask_stars [of children "task_id task" Done now]
      portal_onUpdateTask_stars [of children taskId Active now]
    unfolding handleComplete_def handleStart_def by blast
  have others:
    "map stars (addChild children updatedChild) = map stars children @ [stars updatedChild]
     \<and> map stars (deleteChild children ident)
          = map stars (filter (\<lambda>c. child_id c \<noteq> ident) children)
     \<and> (userId \<noteq> [] \<and> fam \<noteq> [] \<and> fetched fam = Some dbChildren \<longrightarrow>
          fetchFamilyData (Some userId) (Some fam) fetched children = dbChildren)
     \<and> handleLogout children = []"
    by (simp add: addChild_def deleteChild_def fetchFamilyData_def handleLogout_def or_str_def)
  have upload:
    "allServed run \<and> hasFamily familyId \<and> \<not> brandNew now updatedChild
        \<and> selectChild (remote run) (child_id updatedChild) \<longrightarrow>
        fst (updateChild_upload familyId updatedChild now run) = Uploaded
        \<and> remote (snd (updateChild_upload familyId updatedChild now run))
            = updateChildRow (remote run) (childRowOf (or_str familyId []) updatedChild)
        \<and> (\<forall>row \<in> set (children_tbl (remote (snd (updateChild_upload familyId updatedChild
                                                       now run)))).
              row_id row = child_id updatedChild \<longrightarrow> row_stars row = stars updatedChild)"
  proof (intro impI, elim conjE)
    assume a: "allServed run" "hasFamily familyId" "\<not> brandNew now updatedChild"
      "selectChild (remote run) (child_id updatedChild)"
    note f = updateChild_upload_found [OF a]
    have "\<forall>row \<in> set (children_tbl (remote (snd (updateChild_upload familyId updatedChild
                                                       now run)))).
              row_id row = child_id updatedChild \<longrightarrow> row_stars row = stars updatedChild"
      using updateChildRow_stars [of "remote run" "childRowOf (or_str familyId []) updatedChild"] f
      by (simp add: childRowOf_def)
    then show "fst (updateChild_upload familyId updatedChild now run) = Uploaded
        \<and> remote (snd (updateChild_upload familyId updatedChild now run))
            = updateChildRow (remote run) (childRowOf (or_str familyId []) updatedChild)
        \<and> (\<forall>row \<in> set (children_tbl (remote (snd (updateChild_upload familyId updatedChild
                                                       now run)))).
              row_id row = child_id updatedChild \<longrightarrow> row_stars row = stars updatedChild)"
      using f by blast
  qed
  show ?thesis
    using transition
      task_handlers_stars [of children prev childId task speech ts speeches taskId]
      reward_handlers_stars [of prev childId rw children ident]
      redeemReward_stars [of children childId rw nt now]
      updateChild_stars [of children updatedChild]
      saveChild_stars [of children edited childForm now]
      others upload
    by blast
qed

theorem updateTaskStatus_frame_witness:
  "map stars (updateTaskStatus sampleFamily ''a'' ''t1'' Done 1000) = [40, 3]
   \<and> map stars (handleComplete sampleFamily (sampleTask ''t1'' ''08:00'' ''30'' Active (Some 5)) 1000)
       = [40, 3]
   \<and> (1::nat) < length sampleFamily
   \<and> child_id (sampleFamily ! 1) \<noteq> ''a''
   \<and> updateTaskStatus sampleFamily ''a'' ''t1'' Done 1000 ! 1 = sampleFamily ! 1
   \<and> map (map status \<circ> tasks) (updateTaskStatus sampleFamily ''a'' ''t1'' Done 1000)
       = [[Done, Pending], [Pending]]
   \<and> map (map startTime \<circ> tasks) (updateTaskStatus sampleFamily ''a'' ''t1'' Done 1000)
       = [[Some 5, None], [None]]
   \<and> updateTaskStatus_requests (Some ''fam'') sampleFamily ''a'' ''t1'' Done 1000
       = [UpdateTaskRow ''t1'' Done (Some 5)]
   \<and> allServed (freshRun sampleRemote [])
   \<and> hasFamily (Some ''fam'')
   \<and> \<not> brandNew 1000 (sampleChild ''a'' 99 True [])
   \<and> selectChild (remote (freshRun sampleRemote [])) (child_id (sampleChild ''a'' 99 True []))
   \<and> fst (updateChild_upload (Some ''fam'') (sampleChild ''a'' 99 True []) 1000
            (freshRun sampleRemote [])) = Uploaded
   \<and> map row_stars (children_tbl (remote (freshRun sampleRemote []))) = [40]
   \<and> map row_stars (children_tbl (remote (snd (updateChild_upload (Some ''fam'')
            (sampleChild ''a'' 99 True []) 1000 (freshRun sampleRemote []))))) = [99]"
proof -
  note frame = updateTaskStatus_frame
    [of sampleFamily "''a''" "''t1''" Done 1000
        "sampleTask ''t1'' ''08:00'' ''30'' Active (Some 5)" "Some ''fam''"
        sampleFamily noSpeech "[]" "\<lambda>t. noSpeech" "sampleReward ''r'' 30" "''b''" None
        "sampleChild ''a'' 99 True []" "sampleChild ''a'' 40 True []"
        "snd (openEditChild (sampleChild ''a'' 40 True []))" "''u1''" "''fam''"
        "\<lambda>f. Some sampleFamily" sampleFamily "freshRun sampleRemote []"]
  have st: "map stars sampleFamily = [40, 3]"
    by (simp add: sampleFamily_def sampleChild_def)
  have s1: "map stars (updateTaskStatus sampleFamily ''a'' ''t1'' Done 1000) = [40, 3]"
    using frame st by simp
  have s2: "map stars (handleComplete sampleFamily
               (sampleTask ''t1'' ''08:00'' ''30'' Active (Some 5)) 1000) = [40, 3]"
    using frame st by simp
  have i1: "(1::nat) < length sampleFamily"
    by (simp add: sampleFamily_def)
  have other: "child_id (sampleFamily ! 1) \<noteq> ''a''"
    by (simp add: sampleFamily_def sampleChild_def)
  have same: "updateTaskStatus sampleFamily ''a'' ''t1'' Done 1000 ! 1 = sampleFamily ! 1"
    using frame i1 other by blast
  have vals: "map (map status \<circ> tasks) (updateTaskStatus sampleFamily ''a'' ''t1'' Done 1000)
       = [[Done, Pending], [Pending]]
   \<and> map (map startTime \<circ> tasks) (updateTaskStatus sampleFamily ''a'' ''t1'' Done 1000)
       = [[Some 5, None], [None]]
   \<and> updateTaskStatus_requests (Some ''fam'') sampleFamily ''a'' ''t1'' Done 1000
       = [UpdateTaskRow ''t1'' Done (Some 5)]"
    by (simp add: updateTaskStatus_def updateTaskStatus_requests_def updatedTask_def
          sampleFamily_def sampleChild_def sampleTask_def hasFamily_def)
  have served: "allServed (freshRun sampleRemote [])"
    by (simp add: allServed_def freshRun_def)
  have family: "hasFamily (Some ''fam'')"
    by (simp add: hasFamily_def)
  have old: "\<not> brandNew 1000 (sampleChild ''a'' 99 True [])"
    by (simp add: brandNew_def sampleChild_def startsWith_def)
  have found: "selectChild (remote (freshRun sampleRemote [])) (child_id (sampleChild ''a'' 99 True []))"
    by (simp add: selectChild_def freshRun_def sampleRemote_def childRowOf_def sampleChild_def)
  have up: "fst (updateChild_upload (Some ''fam'') (sampleChild ''a'' 99 True []) 1000
                   (freshRun sampleRemote [])) = Uploaded"
    and store: "remote (snd (updateChild_upload (Some ''fam'') (sampleChild ''a'' 99 True []) 1000
                   (freshRun sampleRemote [])))
                = updateChildRow (remote (freshRun sampleRemote []))
                    (childRowOf (or_str (Some ''fam'') []) (sampleChild ''a'' 99 True []))"
    using frame served family old found by blast+
  have before: "map row_stars (children_tbl (remote (freshRun sampleRemote []))) = [40]"
    by (simp add: freshRun_def sampleRemote_def childRowOf_def sampleChild_def)
  have after: "map row_stars (children_tbl (remote (snd (updateChild_upload (Some ''fam'')
            (sampleChild ''a'' 99 True []) 1000 (freshRun sampleRemote []))))) = [99]"
    unfolding store
    by (simp add: updateChildRow_def freshRun_def sampleRemote_def childRowOf_def sampleChild_def)
  show ?thesis using s1 s2 i1 other same vals served family old found up before after by blast
qed

theorem star_balance_counterexample:
  "map stars sampleFamily = [40, 3]
   \<and> map stars (updateChild sampleFamily (sampleChild ''a'' 99 True [])) = [99, 3]
   \<and> map stars (snd (redeemReward sampleFamily ''a'' (sampleReward ''r'' 30) None 7)) = [10, 3]
   \<and> map stars (saveChild (snd (redeemReward sampleFamily ''a'' (sampleReward ''r'' 30) None 7))
                   (fst (openEditChild (sampleFamily ! 0)))
                   (snd (openEditChild (sampleFamily ! 0))) 8) = [40, 3]
   \<and> map row_stars (children_tbl sampleRemote) = [40]
   \<and> map row_stars (children_tbl (remote (snd (updateChild_upload (Some ''fam'')
            (sampleChild ''a'' 99 True []) 1000 (freshRun sampleRemote []))))) = [99]"
  by (simp add: updateChild_def saveChild_def openEditChild_def redeemReward_def redeemedChild_def
        updateChild_upload_def uploadFamilyData_def uploadChild_def updateRow_def updateChildRow_def
        remoteCall_def logged_def selectChild_def brandNew_def hasFamily_def freshRun_def
        sampleRemote_def childRowOf_def sampleFamily_def sampleChild_def sampleReward_def
        sampleTask_def trim_def trimStart_def isSpace_def startsWith_def or_str_def Let_def)

subsection \<open>Redeeming a reward\<close>

lemma find_map_redeemed:
  "find (\<lambda>c. child_id c = childId) children = Some child \<Longrightarrow>
   find (\<lambda>c. child_id c = childId)
        (map (\<lambda>c. if child_id c = childId then redeemedChild c rw nt now else c) children)
     = Some (redeemedChild child rw nt now)"
  by (induction children) (auto simp: redeemedChild_def)

text \<open>
  Claim C1. Let \<open>child\<close> be the child that \<^verbatim>\<open>children.find\<close> returns for the id. With
  fewer stars than the reward costs, \<^verbatim>\<open>redeemReward\<close> returns false and the list is
  unchanged. Otherwise it returns true; the child found afterwards under the id is
  \<open>child\<close> with the cost taken off its stars and with one new record put in front of
  its history, the history itself kept; every child with another id is unchanged. The
  new record carries the reward's id, title and cost and the reading of the clock.
  When no child has the id the call returns false and changes nothing.
\<close>

theorem redeemReward_spec:
  "(find (\<lambda>c. child_id c = childId) children = None \<longrightarrow>
      redeemReward children childId rw nt now = (False, children))
   \<and> (\<forall>child. find (\<lambda>c. child_id c = childId) children = Some child \<longrightarrow>
        (stars child < reward_cost rw \<longrightarrow>
           redeemReward children childId rw nt now = (False, children))
      \<and> (reward_cost rw \<le> stars child \<longrightarrow>
           fst (redeemReward children childId rw nt now)
         \<and> length (snd (redeemReward children childId rw nt now)) = length children
         \<and> find (\<lambda>c. child_id c = childId) (snd (redeemReward children childId rw nt now))
             = Some (child\<lparr>stars := stars child - reward_cost rw,
                            redemptionHistory := Some (newRedemption rw nt now # history child)\<rparr>)
         \<and> (\<forall>i < length children.
               snd (redeemReward children childId rw nt now) ! i =
                 (if child_id (children ! i) = childId
                  then (children ! i)\<lparr>stars := stars (children ! i) - reward_cost rw,
                         redemptionHistory :=
                           Some (newRedemption rw nt now # history (children ! i))\<rparr>
                  else children ! i))))
   \<and> rewardId (newRedemption rw nt now) = reward_id rw
   \<and> rewardTitle (newRedemption rw nt now) = reward_title rw
   \<and> cost (newRedemption rw nt now) = reward_cost rw
   \<and> timestamp (newRedemption rw nt now) = now"
proof -
  have none: "find (\<lambda>c. child_id c = childId) children = None \<longrightarrow>
      redeemReward children childId rw nt now = (False, children)"
    by (simp add: redeemReward_def)
  have some: "\<And>child. find (\<lambda>c. child_id c = childId) children = Some child \<Longrightarrow>
        (stars child < reward_cost rw \<longrightarrow>
           redeemReward children childId rw nt now = (False, children))
      \<and> (reward_cost rw \<le> stars child \<longrightarrow>
           fst (redeemReward children childId rw nt now)
         \<and> length (snd (redeemReward children childId rw nt now)) = length children
         \<and> find (\<lambda>c. child_id c = childId) (snd (redeemReward children childId rw nt now))
             = Some (child\<lparr>stars := stars child - reward_cost rw,
                            redemptionHistory := Some (newRedemption rw nt now # history child)\<rparr>)
         \<and> (\<forall>i < length children.
               snd (redeemReward children childId rw nt now) ! i =
                 (if child_id (children ! i) = childId
                  then (children ! i)\<lparr>stars := stars (children ! i) - reward_cost rw,
                         redemptionHistory :=
                           Some (newRedemption rw nt now # history (children ! i))\<rparr>
                  else children ! i)))"
  proof -
    fix child
    assume f: "find (\<lambda>c. child_id c = childId) children = Some child"
    have fm: "find (\<lambda>c. child_id c = childId)
        (map (\<lambda>c. if child_id c = childId then redeemedChild c rw nt now else c) children)
      = Some (child\<lparr>stars := stars child - reward_cost rw,
                     redemptionHistory := Some (newRedemption rw nt now # history child)\<rparr>)"
      using find_map_redeemed [OF f, of rw nt now] by (simp add: redeemedChild_def)
    show "(stars child < reward_cost rw \<longrightarrow>
           redeemReward children childId rw nt now = (False, children))
      \<and> (reward_cost rw \<le> stars child \<longrightarrow>
           fst (redeemReward children childId rw nt now)
         \<and> length (snd (redeemReward children childId rw nt now)) = length children
         \<and> find (\<lambda>c. child_id c = childId) (snd (redeemReward children childId rw nt now))
             = Some (child\<lparr>stars := stars child - reward_cost rw,
                            redemptionHistory := Some (newRedemption rw nt now # history child)\<rparr>)
         \<and> (\<forall>i < length children.
               snd (redeemReward children childId rw nt now) ! i =
                 (if child_id (children ! i) = childId
                  then (children ! i)\<lparr>stars := stars (children ! i) - reward_cost rw,
                         redemptionHistory :=
                           Some (newRedemption rw nt now # history (children ! i))\<rparr>
                  else children ! i)))"
      using f fm by (simp add: redeemReward_def redeemedChild_def)
  qed
  have rec: "rewardId (newRedemption rw nt now) = reward_id rw
   \<and> rewardTitle (newRedemption rw nt now) = reward_title rw
   \<and> cost (newRedemption rw nt now) = reward_cost rw
   \<and> timestamp (newRedemption rw nt now) = now"
    by (simp add: newRedemption_def)
  show ?thesis using none some rec by blast
qed

theorem redeemReward_spec_witness:
  "find (\<lambda>c. child_id c = ''a'') sampleFamily = Some (sampleFamily ! 0)
   \<and> stars (sampleFamily ! 0) = 40
   \<and> redeemReward sampleFamily ''a'' (sampleReward ''r1'' 50) None 1700 = (False, sampleFamily)
   \<and> fst (redeemReward sampleFamily ''a'' (sampleReward ''r1'' 30) None 1700)
   \<and> map stars (snd (redeemReward sampleFamily ''a'' (sampleReward ''r1'' 30) None 1700)) = [10, 3]
   \<and> map history (snd (redeemReward sampleFamily ''a'' (sampleReward ''r1'' 30) None 1700))
      = [[\<lparr>redemption_id = ''redemption_1700'', rewardId = ''r1'', rewardTitle = ''Movie night'',
           cost = 30, timestamp = 1700, redemption_note = None\<rparr>], []]
   \<and> find (\<lambda>c. child_id c = ''z'') sampleFamily = None
   \<and> redeemReward sampleFamily ''z'' (sampleReward ''r1'' 30) None 1700 = (False, sampleFamily)"
proof -
  note dear = redeemReward_spec [of "''a''" sampleFamily "sampleReward ''r1'' 50" None 1700]
  note cheap = redeemReward_spec [of "''a''" sampleFamily "sampleReward ''r1'' 30" None 1700]
  note absent = redeemReward_spec [of "''z''" sampleFamily "sampleReward ''r1'' 30" None 1700]
  have f: "find (\<lambda>c. child_id c = ''a'') sampleFamily = Some (sampleFamily ! 0)"
    by (simp add: sampleFamily_def sampleChild_def)
  have bal: "stars (sampleFamily ! 0) = 40"
    by (simp add: sampleFamily_def sampleChild_def)
  have lt: "stars (sampleFamily ! 0) < reward_cost (sampleReward ''r1'' 50)"
    by (simp add: sampleFamily_def sampleChild_def sampleReward_def)
  have ge: "reward_cost (sampleReward ''r1'' 30) \<le> stars (sampleFamily ! 0)"
    by (simp add: sampleFamily_def sampleChild_def sampleReward_def)
  have fails: "redeemReward sampleFamily ''a'' (sampleReward ''r1'' 50) None 1700
                 = (False, sampleFamily)"
    using dear f lt by blast
  have ok: "fst (redeemReward sampleFamily ''a'' (sampleReward ''r1'' 30) None 1700)"
    using cheap f ge by blast
  have nf: "find (\<lambda>c. child_id c = ''z'') sampleFamily = None"
    by (simp add: sampleFamily_def sampleChild_def)
  have unchanged: "redeemReward sampleFamily ''z'' (sampleReward ''r1'' 30) None 1700
                   = (False, sampleFamily)"
    using absent nf by blast
  have vals: "map stars (snd (redeemReward sampleFamily ''a'' (sampleReward ''r1'' 30) None 1700))
                = [10, 3]
   \<and> map history (snd (redeemReward sampleFamily ''a'' (sampleReward ''r1'' 30) None 1700))
      = [[\<lparr>redemption_id = ''redemption_1700'', rewardId = ''r1'', rewardTitle = ''Movie night'',
           cost = 30, timestamp = 1700, redemption_note = None\<rparr>], []]"
    by (simp add: redeemReward_def redeemedChild_def newRedemption_def history_def
          sampleFamily_def sampleChild_def sampleReward_def int_toString_def digit_char_def)
  show ?thesis using f bal fails ok nf unchanged vals by blast
qed

subsection \<open>Editing a task from the dashboard\<close>











subsection \<open>Running the migration twice\<close>

lemmas migration_defs = migrateTwice_def freshRun_def migrateLocalStorageToSupabase_def
  triggerMigration_def migrateChild_def insertChild_def insertTasks_def insertRewards_def
  remoteCall_def logged_def selectChild_def insertChildRow_def insertTaskRows_def
  insertRewardRows_def childRowOf_def Let_def

lemma count_events_snoc:
  "count_events P (tr @ [e]) = count_events P tr + (if P e then 1 else 0)"
  by (simp add: count_events_def)

lemmas event_simps = count_events_snoc logged_def childInserted_def tasksRequested_def
  rewardsRequested_def stateOf_def

lemma insertTasks_effect:
  "children_tbl (remote (stateOf (insertTasks child run))) = children_tbl (remote run)
   \<and> count_events (childInserted cid) (trace (stateOf (insertTasks child run)))
        = count_events (childInserted cid) (trace run)
   \<and> count_events (rewardsRequested cid) (trace (stateOf (insertTasks child run)))
        = count_events (rewardsRequested cid) (trace run)
   \<and> count_events (tasksRequested cid) (trace run)
        \<le> count_events (tasksRequested cid) (trace (stateOf (insertTasks child run)))
   \<and> count_events (tasksRequested cid) (trace (stateOf (insertTasks child run)))
        \<le> count_events (tasksRequested cid) (trace run) + (if cid = child_id child then 1 else 0)"
proof -
  obtain out run1 where rc: "remoteCall run = (out, run1)" by force
  note fr = remoteCall_frame [OF rc]
  show ?thesis
    using rc fr
    by (cases out)
       (auto simp: insertTasks_def insertTaskRows_def Let_def event_simps split: option.splits)
qed

lemma insertRewards_effect:
  "children_tbl (remote (stateOf (insertRewards child run))) = children_tbl (remote run)
   \<and> count_events (childInserted cid) (trace (stateOf (insertRewards child run)))
        = count_events (childInserted cid) (trace run)
   \<and> count_events (tasksRequested cid) (trace (stateOf (insertRewards child run)))
        = count_events (tasksRequested cid) (trace run)
   \<and> count_events (rewardsRequested cid) (trace run)
        \<le> count_events (rewardsRequested cid) (trace (stateOf (insertRewards child run)))
   \<and> count_events (rewardsRequested cid) (trace (stateOf (insertRewards child run)))
        \<le> count_events (rewardsRequested cid) (trace run) + (if cid = child_id child then 1 else 0)"
proof -
  obtain out run1 where rc: "remoteCall run = (out, run1)" by force
  note fr = remoteCall_frame [OF rc]
  show ?thesis
    using rc fr
    by (cases out)
       (auto simp: insertRewards_def insertRewardRows_def Let_def event_simps split: option.splits)
qed

lemma afterChild_effect:
  "children_tbl (remote (afterChild child run)) = children_tbl (remote run)
   \<and> count_events (childInserted cid) (trace (afterChild child run))
        = count_events (childInserted cid) (trace run)
   \<and> count_events (tasksRequested cid) (trace run)
        \<le> count_events (tasksRequested cid) (trace (afterChild child run))
   \<and> count_events (tasksRequested cid) (trace (afterChild child run))
        \<le> count_events (tasksRequested cid) (trace run) + (if cid = child_id child then 1 else 0)
   \<and> count_events (rewardsRequested cid) (trace run)
        \<le> count_events (rewardsRequested cid) (trace (afterChild child run))
   \<and> count_events (rewardsRequested cid) (trace (afterChild child run))
        \<le> count_events (rewardsRequested cid) (trace run) + (if cid = child_id child then 1 else 0)"
proof (cases "insertTasks child run")
  case (Inl run2)
  then have "afterChild child run = stateOf (insertTasks child run)"
    by (simp add: afterChild_def stateOf_def)
  then show ?thesis using insertTasks_effect [of child run cid] by simp
next
  case (Inr run2)
  then have a: "afterChild child run = stateOf (insertRewards child run2)"
    and b: "stateOf (insertTasks child run) = run2"
    by (simp_all add: afterChild_def stateOf_def)
  show ?thesis
    using insertTasks_effect [of child run cid] insertRewards_effect [of child run2 cid]
    unfolding a b by simp
qed

lemma insertChild_step:
  "quiet_step run (stateOf (insertChild fam child run))
   \<or> insert_step fam child run (stateOf (insertChild fam child run))"
proof -
  obtain out run1 where rc: "remoteCall run = (out, run1)" by force
  note fr = remoteCall_frame [OF rc]
  show ?thesis
  proof (cases "out = Served \<and> insertChildRow (remote run1) (childRowOf fam child) \<noteq> None")
    case False
    then have "quiet_step run (stateOf (insertChild fam child run))"
      using rc fr
      by (cases out) (auto simp: insertChild_def quiet_step_def Let_def event_simps)
    then show ?thesis ..
  next
    case True
    then obtain r where r: "insertChildRow (remote run1) (childRowOf fam child) = Some r"
      and out: "out = Served" by auto
    have absent: "child_id child \<notin> child_ids run" and tbl: "children_tbl r = children_tbl (remote run) @ [childRowOf fam child]"
      using r fr by (auto simp: insertChildRow_def child_ids_def childRowOf_def split: if_splits)
    have st: "stateOf (insertChild fam child run)
                = afterChild child (logged (InsertChild (childRowOf fam child) True) (run1\<lparr>remote := r\<rparr>))"
      using rc out r by (simp add: insertChild_def afterChild_def Let_def)
    have "insert_step fam child run (stateOf (insertChild fam child run))"
      unfolding insert_step_def st
      using absent tbl fr
        afterChild_effect [of child "logged (InsertChild (childRowOf fam child) True) (run1\<lparr>remote := r\<rparr>)"]
      by (auto simp: event_simps childRowOf_def)
    then show ?thesis ..
  qed
qed


lemma migrateChild_step:
  "quiet_step run (stateOf (migrateChild fam child run))
   \<or> insert_step fam child run (stateOf (migrateChild fam child run))"
proof -
  obtain out run1 where rc: "remoteCall run = (out, run1)" by force
  note fr = remoteCall_frame [OF rc]
  define run2 where "run2 = logged (SelectChild (child_id child)) run1"
  have same: "quiet_step run run2"
    using fr by (simp add: run2_def quiet_step_def event_simps)
  have ids: "child_ids run2 = child_ids run"
    using fr by (simp add: run2_def child_ids_def logged_def)
  show ?thesis
  proof (cases "out = Thrown \<or> (out = Served \<and> selectChild (remote run1) (child_id child))")
    case True
    then have "stateOf (migrateChild fam child run) = run2"
      using rc by (cases out) (auto simp: migrateChild_def run2_def stateOf_def)
    then show ?thesis using same by simp
  next
    case False
    then have "stateOf (migrateChild fam child run) = stateOf (insertChild fam child run2)"
      using rc by (cases out) (auto simp: migrateChild_def run2_def)
    then show ?thesis
      using insertChild_step [of run2 fam child] same ids
      by (auto simp: quiet_step_def insert_step_def)
  qed
qed

lemma migration_inv_refl:
  "distinct (map row_id (children_tbl (remote run))) \<Longrightarrow> migration_inv run run"
  by (simp add: migration_inv_def)

lemma migration_inv_quiet:
  assumes "migration_inv base run" and "quiet_step run run'"
  shows "migration_inv base run'"
  using assms by (simp add: migration_inv_def quiet_step_def child_ids_def)

lemma migration_inv_arith:
  fixes a b c ta tb tc ra rb rc :: nat
  assumes i: "(pb \<longrightarrow> pr \<and> b = a \<and> tb = ta \<and> rb = ra)
            \<and> (\<not> pb \<longrightarrow> a \<le> b \<and> b \<le> a + 1 \<and> (pr \<longleftrightarrow> b = a + 1)
                       \<and> tb + a \<le> ta + b \<and> rb + a \<le> ra + b)"
    and s: "c = b + d \<and> tb \<le> tc \<and> tc \<le> tb + d \<and> rb \<le> rc \<and> rc \<le> rb + d"
    and d: "(d = 1 \<and> \<not> pr \<and> pr') \<or> (d = 0 \<and> pr' = pr)"
  shows "(pb \<longrightarrow> pr' \<and> c = a \<and> tc = ta \<and> rc = ra)
       \<and> (\<not> pb \<longrightarrow> a \<le> c \<and> c \<le> a + 1 \<and> (pr' \<longleftrightarrow> c = a + 1)
                  \<and> tc + a \<le> ta + c \<and> rc + a \<le> ra + c)"
proof (cases pb)
  case True
  with i have "pr" "b = a" "tb = ta" "rb = ra" by simp_all
  with d have "d = 0" "pr'" by auto
  with s \<open>b = a\<close> \<open>tb = ta\<close> \<open>rb = ra\<close> True show ?thesis by simp
next
  case False
  with i have f: "a \<le> b" "b \<le> a + 1" "pr \<longleftrightarrow> b = a + 1" "tb + a \<le> ta + b" "rb + a \<le> ra + b"
    by simp_all
  from d show ?thesis
  proof
    assume "d = 1 \<and> \<not> pr \<and> pr'"
    then have "d = 1" "\<not> pr" "pr'" by simp_all
    with f have "b = a" by arith
    with s f \<open>d = 1\<close> \<open>pr'\<close> False show ?thesis by simp
  next
    assume "d = 0 \<and> pr' = pr"
    then have "d = 0" "pr' = pr" by simp_all
    with s f False show ?thesis by simp
  qed
qed

lemma migration_inv_insert:
  assumes inv: "migration_inv base run" and step: "insert_step fam child run run'"
  shows "migration_inv base run'"
proof -
  have absent: "child_id child \<notin> child_ids run"
    and tbl: "children_tbl (remote run') = children_tbl (remote run) @ [childRowOf fam child]"
    using step by (simp_all add: insert_step_def)
  have ids: "child_ids run' = insert (child_id child) (child_ids run)"
    using tbl by (simp add: child_ids_def childRowOf_def)
  have dist: "distinct (map row_id (children_tbl (remote run')))"
    using inv absent tbl by (simp add: migration_inv_def child_ids_def childRowOf_def)
  have per: "\<And>cid.
            (cid \<in> child_ids base \<longrightarrow>
               cid \<in> child_ids run'
               \<and> count_events (childInserted cid) (trace run')
                    = count_events (childInserted cid) (trace base)
               \<and> count_events (tasksRequested cid) (trace run')
                    = count_events (tasksRequested cid) (trace base)
               \<and> count_events (rewardsRequested cid) (trace run')
                    = count_events (rewardsRequested cid) (trace base))
          \<and> (cid \<notin> child_ids base \<longrightarrow>
               count_events (childInserted cid) (trace base)
                 \<le> count_events (childInserted cid) (trace run')
               \<and> count_events (childInserted cid) (trace run')
                    \<le> count_events (childInserted cid) (trace base) + 1
               \<and> (cid \<in> child_ids run' \<longleftrightarrow>
                    count_events (childInserted cid) (trace run')
                      = count_events (childInserted cid) (trace base) + 1)
               \<and> count_events (tasksRequested cid) (trace run')
                    + count_events (childInserted cid) (trace base)
                  \<le> count_events (tasksRequested cid) (trace base)
                    + count_events (childInserted cid) (trace run')
               \<and> count_events (rewardsRequested cid) (trace run')
                    + count_events (childInserted cid) (trace base)
                  \<le> count_events (rewardsRequested cid) (trace base)
                    + count_events (childInserted cid) (trace run'))"
  proof -
    fix cid
    define d :: nat where "d = (if cid = child_id child then 1 else 0)"
    note i = inv [unfolded migration_inv_def, THEN conjunct2, rule_format, of cid]
    note s = step [unfolded insert_step_def, THEN conjunct2, THEN conjunct2, rule_format, of cid,
                   folded d_def]
    have dd: "(d = 1 \<and> cid \<notin> child_ids run \<and> cid \<in> child_ids run')
              \<or> (d = 0 \<and> (cid \<in> child_ids run') = (cid \<in> child_ids run))"
      using absent ids by (simp add: d_def)
    show "?thesis cid"
      by (rule migration_inv_arith [OF i s dd])
  qed
  show ?thesis unfolding migration_inv_def using dist per by blast
qed

lemma migrateChild_inv:
  "migration_inv base run \<Longrightarrow> migration_inv base (stateOf (migrateChild fam child run))"
  using migrateChild_step [of run fam child] migration_inv_quiet migration_inv_insert by blast

lemma migrateChildren_inv:
  "migration_inv base run \<Longrightarrow> migration_inv base (stateOf (migrateChildren fam cs run))"
proof (induction cs arbitrary: run)
  case Nil
  then show ?case by (simp add: stateOf_def)
next
  case (Cons c cs)
  show ?case
  proof (cases "migrateChild fam c run")
    case (Inl run1)
    then have "stateOf (migrateChildren fam (c # cs) run) = stateOf (migrateChild fam c run)"
      by (simp add: stateOf_def)
    then show ?thesis using migrateChild_inv [OF Cons.prems, of fam c] by simp
  next
    case (Inr run1)
    then have a: "stateOf (migrateChildren fam (c # cs) run) = stateOf (migrateChildren fam cs run1)"
      and b: "stateOf (migrateChild fam c run) = run1"
      by (simp_all add: stateOf_def)
    from migrateChild_inv [OF Cons.prems, of fam c] b have "migration_inv base run1" by simp
    from Cons.IH [OF this] a show ?thesis by simp
  qed
qed

lemma migrate_inv:
  "migration_inv base run \<Longrightarrow>
   migration_inv base (snd (snd (migrateLocalStorageToSupabase u fam ls run)))"
proof (cases "kidscalendar_db_v1 ls")
  case None
  assume "migration_inv base run"
  then show ?thesis using None by (simp add: migrateLocalStorageToSupabase_def)
next
  case (Some stored)
  assume inv: "migration_inv base run"
  show ?thesis
  proof (cases stored)
    case Unparseable
    then show ?thesis using Some inv by (simp add: migrateLocalStorageToSupabase_def)
  next
    case (Snapshot cs)
    have "snd (snd (migrateLocalStorageToSupabase u fam ls run))
            = stateOf (migrateChildren fam (case cs of None \<Rightarrow> [] | Some l \<Rightarrow> l) run)"
      using Some Snapshot
      by (simp add: migrateLocalStorageToSupabase_def stateOf_def split: sum.splits)
    then show ?thesis using migrateChildren_inv [OF inv] by simp
  qed
qed

lemma migrate_keeps_snapshot:
  "kidscalendar_db_v1 (fst (snd (migrateLocalStorageToSupabase u fam ls run))) = kidscalendar_db_v1 ls"
  by (simp add: migrateLocalStorageToSupabase_def split: option.splits Stored.splits sum.splits)

lemma count_rows_distinct:
  "distinct (map row_id rows) \<Longrightarrow>
   length (filter (\<lambda>row. row_id row = cid) rows) = (if cid \<in> row_id ` set rows then 1 else 0)"
  by (induction rows) auto

lemma selectChild_iff:
  assumes "distinct (map row_id (children_tbl r))"
  shows "selectChild r cid \<longleftrightarrow> cid \<in> set (map row_id (children_tbl r))"
  using count_rows_distinct [OF assms, of cid] by (simp add: selectChild_def)

lemma migrateChild_found:
  assumes "remoteCall run = (Served, run')" and "selectChild (remote run) (child_id child)"
  shows "migrateChild fam child run = Inr (logged (SelectChild (child_id child)) run')"
  using assms remoteCall_frame [OF assms(1)] by (simp add: migrateChild_def)

lemma insertTasks_served:
  assumes "allServed run"
  shows "\<exists>run'. insertTasks child run = Inr run' \<and> allServed run'
           \<and> children_tbl (remote run') = children_tbl (remote run)"
  using remoteCall_served [OF assms] assms
  by (auto simp: insertTasks_def insertTaskRows_def Let_def logged_def allServed_def)

lemma insertRewards_served:
  assumes "allServed run"
  shows "\<exists>run'. insertRewards child run = Inr run' \<and> allServed run'
           \<and> children_tbl (remote run') = children_tbl (remote run)"
  using remoteCall_served [OF assms] assms
  by (auto simp: insertRewards_def insertRewardRows_def Let_def logged_def allServed_def)

lemma migrateChild_served:
  assumes s: "allServed run" and d: "distinct (map row_id (children_tbl (remote run)))"
  shows "\<exists>run'. migrateChild fam child run = Inr run' \<and> allServed run'
           \<and> distinct (map row_id (children_tbl (remote run')))
           \<and> child_ids run' = insert (child_id child) (child_ids run)"
proof -
  define run1 where "run1 = run\<lparr>pending := tl (pending run)\<rparr>"
  have rc: "remoteCall run = (Served, run1)" and s1: "allServed run1"
    using remoteCall_served [OF s] by (simp_all add: run1_def)
  have r1: "remote run1 = remote run" by (simp add: run1_def)
  show ?thesis
  proof (cases "selectChild (remote run) (child_id child)")
    case True
    then have "child_id child \<in> child_ids run"
      using selectChild_iff [OF d] by (simp add: child_ids_def)
    then have "child_ids (logged (SelectChild (child_id child)) run1) = insert (child_id child) (child_ids run)"
      by (auto simp: child_ids_def logged_def r1)
    then show ?thesis
      using migrateChild_found [OF rc True] s1 d
      by (simp add: logged_def allServed_def r1)
  next
    case False
    then have absent: "child_id child \<notin> set (map row_id (children_tbl (remote run)))"
      using selectChild_iff [OF d] by simp
    define run2 where "run2 = logged (SelectChild (child_id child)) run1"
    have s2: "allServed run2" and r2: "remote run2 = remote run"
      using s1 by (simp_all add: run2_def logged_def allServed_def r1)
    define run3 where "run3 = run2\<lparr>pending := tl (pending run2)\<rparr>"
    have rc2: "remoteCall run2 = (Served, run3)" and s3: "allServed run3"
      using remoteCall_served [OF s2] by (simp_all add: run3_def)
    define row where "row = childRowOf fam child"
    define rem where "rem = (remote run)\<lparr>children_tbl := children_tbl (remote run) @ [row]\<rparr>"
    have ins: "insertChildRow (remote run3) row = Some rem"
      using absent by (simp add: insertChildRow_def run3_def r2 row_def rem_def childRowOf_def)
    define run4 where "run4 = logged (InsertChild row True) (run3\<lparr>remote := rem\<rparr>)"
    have s4: "allServed run4" using s3 by (simp add: run4_def logged_def allServed_def)
    have t4: "children_tbl (remote run4) = children_tbl (remote run) @ [row]"
      by (simp add: run4_def logged_def rem_def)
    obtain run5 where i5: "insertTasks child run4 = Inr run5" and s5: "allServed run5"
      and t5: "children_tbl (remote run5) = children_tbl (remote run4)"
      using insertTasks_served [OF s4] by blast
    obtain run6 where i6: "insertRewards child run5 = Inr run6" and s6: "allServed run6"
      and t6: "children_tbl (remote run6) = children_tbl (remote run5)"
      using insertRewards_served [OF s5] by blast
    have "insertChild fam child run2 = Inr run6"
      using rc2 ins i5 i6 by (simp add: insertChild_def Let_def row_def [symmetric] run4_def)
    then have m: "migrateChild fam child run = Inr run6"
      using rc False by (simp add: migrateChild_def r1 run2_def)
    have tbl: "children_tbl (remote run6) = children_tbl (remote run) @ [row]"
      using t4 t5 t6 by simp
    have "distinct (map row_id (children_tbl (remote run6)))"
      using d absent by (simp add: tbl row_def childRowOf_def)
    moreover have "child_ids run6 = insert (child_id child) (child_ids run)"
      by (simp add: child_ids_def tbl row_def childRowOf_def)
    ultimately show ?thesis using m s6 by blast
  qed
qed

lemma migrateChildren_served:
  assumes "allServed run" and "distinct (map row_id (children_tbl (remote run)))"
  shows "\<exists>run'. migrateChildren fam cs run = Inr run' \<and> allServed run'
           \<and> distinct (map row_id (children_tbl (remote run')))
           \<and> child_ids run' = child_id ` set cs \<union> child_ids run"
  using assms
proof (induction cs arbitrary: run)
  case Nil
  then show ?case by simp
next
  case (Cons c cs)
  obtain run1 where m: "migrateChild fam c run = Inr run1" and s1: "allServed run1"
    and d1: "distinct (map row_id (children_tbl (remote run1)))"
    and i1: "child_ids run1 = insert (child_id c) (child_ids run)"
    using migrateChild_served [OF Cons.prems] by blast
  obtain run2 where m2: "migrateChildren fam cs run1 = Inr run2" and s2: "allServed run2"
    and d2: "distinct (map row_id (children_tbl (remote run2)))"
    and i2: "child_ids run2 = child_id ` set cs \<union> child_ids run1"
    using Cons.IH [OF s1 d1] by blast
  have "migrateChildren fam (c # cs) run = Inr run2" using m m2 by simp
  moreover have "child_ids run2 = child_id ` set (c # cs) \<union> child_ids run"
    using i1 i2 by auto
  ultimately show ?case using s2 d2 by blast
qed

lemma migrateChildren_present:
  assumes "allServed run" and "distinct (map row_id (children_tbl (remote run)))"
    and "child_id ` set cs \<subseteq> child_ids run"
  shows "\<exists>run'. migrateChildren fam cs run = Inr run'
           \<and> trace run' = trace run @ map (\<lambda>c. SelectChild (child_id c)) cs
           \<and> remote run' = remote run"
  using assms
proof (induction cs arbitrary: run)
  case Nil
  then show ?case by simp
next
  case (Cons c cs)
  define run1 where "run1 = run\<lparr>pending := tl (pending run)\<rparr>"
  have rc: "remoteCall run = (Served, run1)" and s1: "allServed run1"
    using remoteCall_served [OF Cons.prems(1)] by (simp_all add: run1_def)
  have "child_id c \<in> child_ids run" using Cons.prems(3) by simp
  then have found: "selectChild (remote run) (child_id c)"
    using selectChild_iff [OF Cons.prems(2)] by (simp add: child_ids_def)
  define run2 where "run2 = logged (SelectChild (child_id c)) run1"
  have m: "migrateChild fam c run = Inr run2"
    using migrateChild_found [OF rc found] by (simp add: run2_def)
  have s2: "allServed run2" and r2: "remote run2 = remote run"
    and t2: "trace run2 = trace run @ [SelectChild (child_id c)]"
    using s1 by (simp_all add: run2_def run1_def logged_def allServed_def)
  have d2: "distinct (map row_id (children_tbl (remote run2)))"
    using Cons.prems(2) by (simp add: r2)
  have c2: "child_id ` set cs \<subseteq> child_ids run2"
    using Cons.prems(3) by (simp add: child_ids_def r2)
  obtain run3 where m3: "migrateChildren fam cs run2 = Inr run3"
    and t3: "trace run3 = trace run2 @ map (\<lambda>c. SelectChild (child_id c)) cs"
    and r3: "remote run3 = remote run2"
    using Cons.IH [OF s2 d2 c2] by blast
  have "migrateChildren fam (c # cs) run = Inr run3" using m m3 by simp
  then show ?case using t3 r3 t2 r2 by simp
qed

lemma migrateTwice_served:
  assumes "list_all (\<lambda>out. out = Served) env" and "distinct (map row_id (children_tbl r0))"
  shows "trace (snd (migrateTwice u fam ls (freshRun r0 env)))
           = trace (fst (migrateTwice u fam ls (freshRun r0 env)))
             @ map (\<lambda>c. SelectChild (child_id c)) (snapshotChildren ls)
       \<and> remote (snd (migrateTwice u fam ls (freshRun r0 env)))
           = remote (fst (migrateTwice u fam ls (freshRun r0 env)))"
proof -
  define start where "start = freshRun r0 env"
  have s0: "allServed start" and d0: "distinct (map row_id (children_tbl (remote start)))"
    using assms by (simp_all add: start_def freshRun_def allServed_def)
  obtain run1 where m1: "migrateChildren fam (snapshotChildren ls) start = Inr run1"
    and s1: "allServed run1" and d1: "distinct (map row_id (children_tbl (remote run1)))"
    and i1: "child_ids run1 = child_id ` set (snapshotChildren ls) \<union> child_ids start"
    using migrateChildren_served [OF s0 d0] by blast
  have c1: "child_id ` set (snapshotChildren ls) \<subseteq> child_ids run1" using i1 by simp
  obtain run2 where m2: "migrateChildren fam (snapshotChildren ls) run1 = Inr run2"
    and t2: "trace run2 = trace run1 @ map (\<lambda>c. SelectChild (child_id c)) (snapshotChildren ls)"
    and r2: "remote run2 = remote run1"
    using migrateChildren_present [OF s1 d1 c1] by blast
  show ?thesis
  proof (cases "kidscalendar_db_v1 ls")
    case None
    then show ?thesis
      by (simp add: migrateTwice_def migrateLocalStorageToSupabase_def snapshotChildren_def)
  next
    case (Some stored)
    show ?thesis
    proof (cases stored)
      case Unparseable
      then show ?thesis using Some
        by (simp add: migrateTwice_def migrateLocalStorageToSupabase_def snapshotChildren_def)
    next
      case (Snapshot cs)
      have sc: "(case cs of None \<Rightarrow> [] | Some l \<Rightarrow> l) = snapshotChildren ls"
        using Some Snapshot by (simp add: snapshotChildren_def split: option.splits)
      have "migrateTwice u fam ls start = (run1, run2)"
        using Some Snapshot m1 m2
        by (simp add: migrateTwice_def migrateLocalStorageToSupabase_def sc)
      then show ?thesis using t2 r2 by (simp add: start_def)
    qed
  qed
qed

text \<open>
  Claim C5. Start with any local storage, any remote store whose child ids are distinct
  (the primary key), and any outcomes of the calls to come, and run the migration
  twice in succession. Over both runs every child id has at most one accepted insert
  of a child row, at most one insert requested for its tasks and at most one for its
  rewards. A child present in the store before the first run has none of the three,
  and a child present after the first run gains none of the three in the second run.
  The snapshot is the same for both runs, and the child ids of the store are still
  distinct at the end. The skipping is the work of the existence check: whenever the
  lookup of a child is served and finds it, the step for that child is the lookup
  alone, with no insert requested; and when every call is served, the second run
  consists of one lookup for each child of the snapshot and nothing else, and leaves
  the store as the first run left it.
\<close>

theorem migration_twice_at_most_once:
  assumes "distinct (map row_id (children_tbl r0))"
  shows "kidscalendar_db_v1 (fst (snd (migrateLocalStorageToSupabase u fam ls (freshRun r0 env))))
           = kidscalendar_db_v1 ls
       \<and> (\<forall>cid. count_events (childInserted cid)
                    (trace (snd (migrateTwice u fam ls (freshRun r0 env)))) \<le> 1
               \<and> count_events (tasksRequested cid)
                    (trace (snd (migrateTwice u fam ls (freshRun r0 env)))) \<le> 1
               \<and> count_events (rewardsRequested cid)
                    (trace (snd (migrateTwice u fam ls (freshRun r0 env)))) \<le> 1)
       \<and> (\<forall>cid \<in> set (map row_id (children_tbl r0)).
               count_events (childInserted cid)
                    (trace (snd (migrateTwice u fam ls (freshRun r0 env)))) = 0
               \<and> count_events (tasksRequested cid)
                    (trace (snd (migrateTwice u fam ls (freshRun r0 env)))) = 0
               \<and> count_events (rewardsRequested cid)
                    (trace (snd (migrateTwice u fam ls (freshRun r0 env)))) = 0)
       \<and> (\<forall>cid \<in> child_ids (fst (migrateTwice u fam ls (freshRun r0 env))).
               cid \<in> child_ids (snd (migrateTwice u fam ls (freshRun r0 env)))
               \<and> count_events (childInserted cid)
                    (trace (snd (migrateTwice u fam ls (freshRun r0 env))))
                  = count_events (childInserted cid)
                      (trace (fst (migrateTwice u fam ls (freshRun r0 env))))
               \<and> count_events (tasksRequested cid)
                    (trace (snd (migrateTwice u fam ls (freshRun r0 env))))
                  = count_events (tasksRequested cid)
                      (trace (fst (migrateTwice u fam ls (freshRun r0 env))))
               \<and> count_events (rewardsRequested cid)
                    (trace (snd (migrateTwice u fam ls (freshRun r0 env))))
                  = count_events (rewardsRequested cid)
                      (trace (fst (migrateTwice u fam ls (freshRun r0 env)))))
       \<and> distinct (map row_id
            (children_tbl (remote (snd (migrateTwice u fam ls (freshRun r0 env))))))
       \<and> (\<forall>child run run'.
              remoteCall run = (Served, run') \<and> selectChild (remote run) (child_id child) \<longrightarrow>
              migrateChild fam child run = Inr (logged (SelectChild (child_id child)) run'))
       \<and> (list_all (\<lambda>out. out = Served) env \<longrightarrow>
              trace (snd (migrateTwice u fam ls (freshRun r0 env)))
                = trace (fst (migrateTwice u fam ls (freshRun r0 env)))
                  @ map (\<lambda>c. SelectChild (child_id c)) (snapshotChildren ls)
              \<and> remote (snd (migrateTwice u fam ls (freshRun r0 env)))
                = remote (fst (migrateTwice u fam ls (freshRun r0 env))))"
proof -
  define start where "start = freshRun r0 env"
  define ls1 where "ls1 = fst (snd (migrateLocalStorageToSupabase u fam ls start))"
  define run1 where "run1 = snd (snd (migrateLocalStorageToSupabase u fam ls start))"
  define run2 where "run2 = snd (snd (migrateLocalStorageToSupabase u fam ls1 run1))"
  have twice: "migrateTwice u fam ls start = (run1, run2)"
    by (simp add: migrateTwice_def ls1_def run1_def run2_def split: prod.splits)
  have s0: "migration_inv start start"
    using assms by (simp add: migration_inv_refl start_def freshRun_def)
  have s1: "migration_inv start run1"
    unfolding run1_def by (rule migrate_inv [OF s0])
  have s2: "migration_inv start run2"
    unfolding run2_def by (rule migrate_inv [OF s1])
  have d1: "distinct (map row_id (children_tbl (remote run1)))"
    using s1 by (simp add: migration_inv_def)
  have r2: "migration_inv run1 run2"
    unfolding run2_def by (rule migrate_inv [OF migration_inv_refl [OF d1]])
  have empty: "trace start = []" and ids0: "child_ids start = set (map row_id (children_tbl r0))"
    by (simp_all add: start_def freshRun_def child_ids_def)
  have once: "\<And>cid. count_events (childInserted cid) (trace run2) \<le> 1
               \<and> count_events (tasksRequested cid) (trace run2) \<le> 1
               \<and> count_events (rewardsRequested cid) (trace run2) \<le> 1"
  proof -
    fix cid
    note i = s2 [unfolded migration_inv_def, THEN conjunct2, rule_format, of cid]
    show "count_events (childInserted cid) (trace run2) \<le> 1
               \<and> count_events (tasksRequested cid) (trace run2) \<le> 1
               \<and> count_events (rewardsRequested cid) (trace run2) \<le> 1"
      using i by (cases "cid \<in> child_ids start") (simp_all add: empty count_events_def)
  qed
  have before: "\<And>cid. cid \<in> set (map row_id (children_tbl r0)) \<Longrightarrow>
               count_events (childInserted cid) (trace run2) = 0
               \<and> count_events (tasksRequested cid) (trace run2) = 0
               \<and> count_events (rewardsRequested cid) (trace run2) = 0"
  proof -
    fix cid
    assume "cid \<in> set (map row_id (children_tbl r0))"
    then have "cid \<in> child_ids start" by (simp add: ids0)
    with s2 [unfolded migration_inv_def, THEN conjunct2, rule_format, of cid]
    show "count_events (childInserted cid) (trace run2) = 0
               \<and> count_events (tasksRequested cid) (trace run2) = 0
               \<and> count_events (rewardsRequested cid) (trace run2) = 0"
      by (simp add: empty count_events_def)
  qed
  have skip: "\<And>cid. cid \<in> child_ids run1 \<Longrightarrow>
               cid \<in> child_ids run2
               \<and> count_events (childInserted cid) (trace run2)
                  = count_events (childInserted cid) (trace run1)
               \<and> count_events (tasksRequested cid) (trace run2)
                  = count_events (tasksRequested cid) (trace run1)
               \<and> count_events (rewardsRequested cid) (trace run2)
                  = count_events (rewardsRequested cid) (trace run1)"
    using r2 [unfolded migration_inv_def, THEN conjunct2, rule_format] by blast
  have d2: "distinct (map row_id (children_tbl (remote run2)))"
    using s2 by (simp add: migration_inv_def)
  have snap: "kidscalendar_db_v1 (fst (snd (migrateLocalStorageToSupabase u fam ls start)))
           = kidscalendar_db_v1 ls"
    by (rule migrate_keeps_snapshot)
  have found: "\<And>child run run'.
      remoteCall run = (Served, run') \<and> selectChild (remote run) (child_id child) \<Longrightarrow>
      migrateChild fam child run = Inr (logged (SelectChild (child_id child)) run')"
    using migrateChild_found by blast
  have served: "list_all (\<lambda>out. out = Served) env \<Longrightarrow>
      trace run2 = trace run1 @ map (\<lambda>c. SelectChild (child_id c)) (snapshotChildren ls)
      \<and> remote run2 = remote run1"
    using migrateTwice_served [OF _ assms, of env u fam ls]
    unfolding start_def [symmetric] twice fst_conv snd_conv by simp
  show ?thesis
    unfolding start_def [symmetric] twice fst_conv snd_conv
    using snap once before skip d2 found served by blast
qed

theorem migration_twice_at_most_once_witness:
  "distinct (map row_id (children_tbl emptyRemote))
   \<and> count_events (childInserted ''a'')
        (trace (snd (migrateTwice ''u1'' ''fam'' sampleStorage
                       (freshRun emptyRemote [Served, Refused])))) \<le> 1
   \<and> count_events (tasksRequested ''a'')
        (trace (snd (migrateTwice ''u1'' ''fam'' sampleStorage
                       (freshRun emptyRemote [Served, Refused])))) \<le> 1
   \<and> map row_id (children_tbl (remote (fst (migrateTwice ''u1'' ''fam'' sampleStorage
                       (freshRun emptyRemote [Served, Refused]))))) = [''b'']
   \<and> map row_id (children_tbl (remote (snd (migrateTwice ''u1'' ''fam'' sampleStorage
                       (freshRun emptyRemote [Served, Refused]))))) = [''b'', ''a'']
   \<and> count_events (childInserted ''b'')
        (trace (snd (migrateTwice ''u1'' ''fam'' sampleStorage
                       (freshRun emptyRemote [Served, Refused]))))
      = count_events (childInserted ''b'')
          (trace (fst (migrateTwice ''u1'' ''fam'' sampleStorage
                         (freshRun emptyRemote [Served, Refused]))))
   \<and> list_all (\<lambda>out. out = Served) [Served, Served]
   \<and> snapshotChildren sampleStorage = sampleFamily
   \<and> trace (snd (migrateTwice ''u1'' ''fam'' sampleStorage (freshRun emptyRemote [Served, Served])))
      = trace (fst (migrateTwice ''u1'' ''fam'' sampleStorage (freshRun emptyRemote [Served, Served])))
        @ [SelectChild ''a'', SelectChild ''b'']
   \<and> map row_id (children_tbl (remote (fst (migrateTwice ''u1'' ''fam'' sampleStorage
                       (freshRun emptyRemote [Served, Served]))))) = [''a'', ''b'']"
proof -
  note twice = migration_twice_at_most_once
    [of emptyRemote "''u1''" "''fam''" sampleStorage "[Served, Refused]"]
  note calm = migration_twice_at_most_once
    [of emptyRemote "''u1''" "''fam''" sampleStorage "[Served, Served]"]
  have d: "distinct (map row_id (children_tbl emptyRemote))"
    by (simp add: emptyRemote_def)
  have ids: "map row_id (children_tbl (remote (fst (migrateTwice ''u1'' ''fam'' sampleStorage
                       (freshRun emptyRemote [Served, Refused]))))) = [''b'']
   \<and> map row_id (children_tbl (remote (snd (migrateTwice ''u1'' ''fam'' sampleStorage
                       (freshRun emptyRemote [Served, Refused]))))) = [''b'', ''a'']"
    by (simp add: migration_defs sampleStorage_def sampleFamily_def sampleChild_def
          sampleTask_def emptyRemote_def)
  then have present: "''b'' \<in> child_ids (fst (migrateTwice ''u1'' ''fam'' sampleStorage
                       (freshRun emptyRemote [Served, Refused])))"
    by (simp add: child_ids_def)
  have all: "list_all (\<lambda>out. out = Served) [Served, Served]" by simp
  have snap: "snapshotChildren sampleStorage = sampleFamily"
    by (simp add: snapshotChildren_def sampleStorage_def)
  have sel: "map (\<lambda>c. SelectChild (child_id c)) sampleFamily = [SelectChild ''a'', SelectChild ''b'']"
    by (simp add: sampleFamily_def sampleChild_def)
  have lookups: "trace (snd (migrateTwice ''u1'' ''fam'' sampleStorage
                               (freshRun emptyRemote [Served, Served])))
      = trace (fst (migrateTwice ''u1'' ''fam'' sampleStorage (freshRun emptyRemote [Served, Served])))
        @ [SelectChild ''a'', SelectChild ''b'']"
    using calm [OF d] all unfolding snap sel by blast
  have first: "map row_id (children_tbl (remote (fst (migrateTwice ''u1'' ''fam'' sampleStorage
                       (freshRun emptyRemote [Served, Served]))))) = [''a'', ''b'']"
    by (simp add: migration_defs sampleStorage_def sampleFamily_def sampleChild_def
          sampleTask_def emptyRemote_def)
  show ?thesis using twice [OF d] d ids present all snap lookups first by blast
qed

subsection \<open>The migration flag\<close>

lemma migration_ignores_flag:
  "fst (migrateLocalStorageToSupabase u fam (ls\<lparr>kidscalendar_migrated_v2 := v\<rparr>) run)
     = fst (migrateLocalStorageToSupabase u fam ls run)
   \<and> snd (snd (migrateLocalStorageToSupabase u fam (ls\<lparr>kidscalendar_migrated_v2 := v\<rparr>) run))
     = snd (snd (migrateLocalStorageToSupabase u fam ls run))"
  by (simp add: migrateLocalStorageToSupabase_def split: option.splits Stored.splits sum.splits)

text \<open>
  Claim C4. The code at the failing input: a snapshot with two children and an empty
  store. The first run returns true and writes the flag. At the next login
  \<^verbatim>\<open>triggerMigration\<close> calls the migration again, with the flag set, and the migration
  runs again: it reads the snapshot and asks the store about each child. Neither
  function reads the flag. And with no snapshot the run returns true and writes no flag.
\<close>

theorem migration_runs_again_with_flag_set:
  "fst (migrateLocalStorageToSupabase ''u1'' ''fam'' sampleStorage (freshRun emptyRemote []))
   \<and> kidscalendar_migrated_v2
        (fst (snd (migrateLocalStorageToSupabase ''u1'' ''fam'' sampleStorage
                     (freshRun emptyRemote []))))
      = Some ''true''
   \<and> map_option (\<lambda>res. trace (snd (snd res)))
        (triggerMigration (Some sampleUser) False
           (fst (snd (migrateLocalStorageToSupabase ''u1'' ''fam'' sampleStorage
                        (freshRun emptyRemote []))))
           (freshRun (remote (snd (snd (migrateLocalStorageToSupabase ''u1'' ''fam'' sampleStorage
                                          (freshRun emptyRemote []))))) []))
      = Some [SelectChild ''a'', SelectChild ''b'']
   \<and> migrateLocalStorageToSupabase ''u1'' ''fam''
        \<lparr>kidscalendar_db_v1 = None, kidscalendar_migrated_v2 = None\<rparr> (freshRun emptyRemote [])
      = (True, \<lparr>kidscalendar_db_v1 = None, kidscalendar_migrated_v2 = None\<rparr>,
         freshRun emptyRemote [])"
  by (simp add: migration_defs sampleStorage_def sampleFamily_def sampleChild_def sampleTask_def
        sampleUser_def emptyRemote_def)

subsection \<open>Formatting a minute of the day and parsing it back\<close>

declare split_ws.simps [simp del]
declare nat_digits.simps [simp del]

lemma digit_cases:
  "d < 10 \<Longrightarrow> d = 0 \<or> d = 1 \<or> d = 2 \<or> d = 3 \<or> d = 4 \<or> d = 5 \<or> d = 6 \<or> d = 7 \<or> d = 8 \<or> d = (9::nat)"
  by arith

lemma digit_char_is_digit:
  assumes "d < 10"
  shows "digit_char d \<in> set ''0123456789''"
  using digit_cases [OF assms] by (elim disjE; simp add: digit_char_def)

lemma digit_value_digit_char:
  assumes "d < 10"
  shows "digit_value (digit_char d) = Some d"
  using digit_cases [OF assms] by (elim disjE; simp add: digit_char_def digit_value_def)

lemma decimal_char_cases:
  "c \<in> set ''0123456789'' \<Longrightarrow>
   c = CHR ''0'' \<or> c = CHR ''1'' \<or> c = CHR ''2'' \<or> c = CHR ''3'' \<or> c = CHR ''4'' \<or>
   c = CHR ''5'' \<or> c = CHR ''6'' \<or> c = CHR ''7'' \<or> c = CHR ''8'' \<or> c = CHR ''9''"
  by simp

lemma decimal_char_facts:
  assumes "c \<in> set ''0123456789''"
  shows "\<not> isSpace c" and "upperChar c = c" and "isDigit c"
    and "c \<noteq> CHR '':''" and "c \<noteq> CHR ''A''" and "c \<noteq> CHR ''P''" and "c \<noteq> CHR ''M''"
    and "c \<noteq> CHR ''x''" and "c \<noteq> CHR ''X''" and "c \<noteq> CHR ''o''" and "c \<noteq> CHR ''O''"
    and "c \<noteq> CHR ''b''" and "c \<noteq> CHR ''B''" and "c \<noteq> CHR ''+''" and "c \<noteq> CHR ''-''"
  using decimal_char_cases [OF assms]
  by (elim disjE; simp add: isSpace_def upperChar_def isDigit_def inClass_def)+

lemmas digit_char_facts = decimal_char_facts [OF digit_char_is_digit] digit_value_digit_char

lemma Number_two_digits:
  assumes "a < 10" and "b < 10"
  shows "Number [digit_char a, digit_char b] = Some (Num (int (10 * a + b)))"
  using digit_char_facts [OF assms(1)] digit_char_facts [OF assms(2)]
  by (simp add: Number_def trim_def startsWith_def signed_decimal_def digits_value_def)

lemma pad_two_digits:
  assumes "0 \<le> n" and "n < 100"
  shows "pad (Num n) = [digit_char (nat n div 10), digit_char (nat n mod 10)]"
proof (cases "n < 10")
  case True
  then have "nat n div 10 = 0" "nat n mod 10 = nat n" "nat n < 10" using assms by simp_all
  then show ?thesis
    using assms True
    by (simp add: pad_def toString_def int_toString_def padStart_def nat_digits.simps [of "nat n"]
          digit_char_def)
next
  case False
  then have "nat n div 10 < 10" "\<not> nat n < 10" using assms by simp_all
  then show ?thesis
    using assms
    by (simp add: pad_def toString_def int_toString_def padStart_def nat_digits.simps [of "nat n"]
          nat_digits.simps [of "nat n div 10"])
qed

lemma literal_char_facts:
  "\<not> isSpace CHR '':''" "\<not> isSpace CHR ''A''" "\<not> isSpace CHR ''P''" "\<not> isSpace CHR ''M''"
  "isSpace CHR '' ''"
  "upperChar CHR '':'' = CHR '':''" "upperChar CHR ''A'' = CHR ''A''"
  "upperChar CHR ''P'' = CHR ''P''" "upperChar CHR ''M'' = CHR ''M''"
  "upperChar CHR '' '' = CHR '' ''"
  by (simp_all add: isSpace_def upperChar_def)

lemma or_num_Num: "or_num (Num n) (Num 0) = Num n"
  by (simp add: or_num_def)

lemma split_ws_no_space:
  assumes "\<forall>c \<in> set s. \<not> isSpace c"
  shows "split_ws s = [s]"
proof -
  have "dropWhile (\<lambda>c. \<not> isSpace c) s = []"
    using assms by (simp add: dropWhile_eq_Nil_conv)
  then show ?thesis by (subst split_ws.simps) (simp only: list.case)
qed

lemma split_ws_one_space:
  assumes "\<forall>c \<in> set u. \<not> isSpace c" and "isSpace w" and "\<forall>c \<in> set v. \<not> isSpace c" and "v \<noteq> []"
  shows "split_ws (u @ w # v) = [u, v]"
proof -
  have d: "dropWhile (\<lambda>c. \<not> isSpace c) (u @ w # v) = w # v"
    using assms(1,2) by (simp add: dropWhile_append3)
  have t: "takeWhile (\<lambda>c. \<not> isSpace c) (u @ w # v) = u"
    using assms(1,2) by (simp add: takeWhile_append2)
  have dv: "dropWhile isSpace v = v"
    using assms(3,4) by (cases v) simp_all
  show ?thesis
    by (subst split_ws.simps) (simp only: d t dv split_ws_no_space [OF assms(3)] list.case)
qed

lemma parse24_digits:
  assumes "a < 10" "b < 10" "c < 10" "d < 10"
  shows "parseTimeToMinutes (Some [digit_char a, digit_char b, CHR '':'', digit_char c, digit_char d])
           = Some (Num (int (10 * a + b) * 60 + int (10 * c + d)))"
    and "parseTimeToMinutes_portal (Some [digit_char a, digit_char b, CHR '':'', digit_char c, digit_char d])
           = Some (Num (int (10 * a + b) * 60 + int (10 * c + d)))"
  using digit_char_facts [OF assms(1)] digit_char_facts [OF assms(2)]
        digit_char_facts [OF assms(3)] digit_char_facts [OF assms(4)]
        Number_two_digits [OF assms(1) assms(2)] Number_two_digits [OF assms(3) assms(4)]
  by (simp_all add: parseTimeToMinutes_def parseTimeToMinutes_portal_def trim_def toUpperCase_def
        startsWith_def at_index_def Number_opt_def Number_or0_def or_num_def js_add_def js_mul_def
        literal_char_facts)

lemma parse12_digits:
  assumes "a < 10" "b < 10" "c < 10" "d < 10" and p: "p = CHR ''A'' \<or> p = CHR ''P''"
  shows "parseTimeToMinutes
           (Some [digit_char a, digit_char b, CHR '':'', digit_char c, digit_char d, CHR '' '', p, CHR ''M''])
           = Some (js_add (js_mul (adjustHours (Some [p, CHR ''M'']) (Num (int (10 * a + b)))) (Num 60))
                          (Num (int (10 * c + d))))"
    and "parseTimeToMinutes_portal
           (Some [digit_char a, digit_char b, CHR '':'', digit_char c, digit_char d, CHR '' '', p, CHR ''M''])
           = Some (js_add (js_mul (adjustHours (Some [p, CHR ''M'']) (Num (int (10 * a + b)))) (Num 60))
                          (Num (int (10 * c + d))))"
proof -
  note fa = digit_char_facts [OF assms(1)] and fb = digit_char_facts [OF assms(2)]
    and fc = digit_char_facts [OF assms(3)] and fd = digit_char_facts [OF assms(4)]
  have fp: "\<not> isSpace p" "upperChar p = p" "p \<noteq> CHR '':''"
    using p by (auto simp: literal_char_facts)
  have sw: "split_ws [digit_char a, digit_char b, CHR '':'', digit_char c, digit_char d,
                      CHR '' '', p, CHR ''M'']
              = [[digit_char a, digit_char b, CHR '':'', digit_char c, digit_char d], [p, CHR ''M'']]"
    using split_ws_one_space
            [of "[digit_char a, digit_char b, CHR '':'', digit_char c, digit_char d]" "CHR '' ''"
                "[p, CHR ''M'']"]
          fa(1) fb(1) fc(1) fd(1) fp(1)
    by (simp add: literal_char_facts)
  have inc: "includes_str [digit_char a, digit_char b, CHR '':'', digit_char c, digit_char d,
                      CHR '' '', p, CHR ''M''] ''AM''
             \<or> includes_str [digit_char a, digit_char b, CHR '':'', digit_char c, digit_char d,
                      CHR '' '', p, CHR ''M''] ''PM''"
    using p by (auto simp: startsWith_def)
  show "parseTimeToMinutes
           (Some [digit_char a, digit_char b, CHR '':'', digit_char c, digit_char d, CHR '' '', p, CHR ''M''])
           = Some (js_add (js_mul (adjustHours (Some [p, CHR ''M'']) (Num (int (10 * a + b)))) (Num 60))
                          (Num (int (10 * c + d))))"
    using fa fb fc fd fp inc
          Number_two_digits [OF assms(1) assms(2)] Number_two_digits [OF assms(3) assms(4)]
    by (simp add: parseTimeToMinutes_def trim_def toUpperCase_def sw
          at_index_def Number_opt_def Number_or0_def or_num_Num or_str_def literal_char_facts
          del: includes_str.simps)
  show "parseTimeToMinutes_portal
           (Some [digit_char a, digit_char b, CHR '':'', digit_char c, digit_char d, CHR '' '', p, CHR ''M''])
           = Some (js_add (js_mul (adjustHours (Some [p, CHR ''M'']) (Num (int (10 * a + b)))) (Num 60))
                          (Num (int (10 * c + d))))"
    using fa fb fc fd fp inc
          Number_two_digits [OF assms(1) assms(2)] Number_two_digits [OF assms(3) assms(4)]
    by (simp add: parseTimeToMinutes_portal_def trim_def toUpperCase_def sw
          at_index_def Number_opt_def Number_or0_def or_num_Num literal_char_facts
          del: includes_str.simps)
qed

lemma js_rem_nonneg:
  assumes "0 \<le> a"
  shows "js_rem (Num a) k = Num (a mod \<bar>k\<bar>)"
  using assms by (cases "a = 0") (simp_all add: js_rem_def)

lemma two_digit_value:
  assumes "0 \<le> n"
  shows "int (10 * (nat n div 10) + nat n mod 10) = n"
  using assms by simp

lemma hour_minute_bounds:
  assumes "0 \<le> m" and "m \<le> (1439::int)"
  shows "0 \<le> m div 60" "m div 60 < 24" "0 \<le> m mod 60" "m mod 60 < 60" "m div 60 * 60 + m mod 60 = m"
  using assms by simp_all

lemma adjustHours_AM:
  assumes "0 \<le> h" and "h < 12"
  shows "adjustHours (Some ''AM'') (Num (if h = 0 then 12 else h)) = Num h"
  using assms by (simp add: adjustHours_def js_less_def js_add_def)

lemma adjustHours_PM:
  assumes "12 \<le> h" and "h < 24"
  shows "adjustHours (Some ''PM'') (Num (if h = 12 then 12 else h - 12)) = Num h"
  using assms by (simp add: adjustHours_def js_less_def js_add_def)

lemma hour12_of:
  assumes "0 \<le> (h::int)" and "h < 24"
  shows "(if h mod 12 = 0 then 12 else h mod 12)
           = (if h < 12 then (if h = 0 then 12 else h) else (if h = 12 then 12 else h - 12))"
  using assms by presburger

lemma format24:
  assumes "0 \<le> h" "h < 24" "0 \<le> mm" "mm < 60"
  shows "formatHM (Num h) (Num mm) H24
           = [digit_char (nat h div 10), digit_char (nat h mod 10), CHR '':'',
              digit_char (nat mm div 10), digit_char (nat mm mod 10)]"
proof -
  have "pad (Num h) = [digit_char (nat h div 10), digit_char (nat h mod 10)]"
    using assms by (intro pad_two_digits) simp_all
  moreover have "pad (Num mm) = [digit_char (nat mm div 10), digit_char (nat mm mod 10)]"
    using assms by (intro pad_two_digits) simp_all
  ultimately show ?thesis by (simp add: formatHM_def)
qed

lemma format12:
  assumes "0 \<le> h" "h < 24" "0 \<le> mm" "mm < 60"
    and k: "k = (if h < 12 then (if h = 0 then 12 else h) else (if h = 12 then 12 else h - 12))"
  shows "formatHM (Num h) (Num mm) H12
           = [digit_char (nat k div 10), digit_char (nat k mod 10), CHR '':'',
              digit_char (nat mm div 10), digit_char (nat mm mod 10), CHR '' '',
              if 12 \<le> h then CHR ''P'' else CHR ''A'', CHR ''M'']"
proof -
  have km: "k = (if h mod 12 = 0 then 12 else h mod 12)"
    using hour12_of [OF assms(1,2)] k by simp
  have h12: "or_num (js_rem (Num h) 12) (Num 12) = Num k"
    using assms(1) by (simp add: js_rem_nonneg or_num_def km)
  have kb: "0 \<le> k" "k < 100" using k assms by (simp_all split: if_splits)
  have pk: "pad (Num k) = [digit_char (nat k div 10), digit_char (nat k mod 10)]"
    by (rule pad_two_digits [OF kb])
  have pm: "pad (Num mm) = [digit_char (nat mm div 10), digit_char (nat mm mod 10)]"
    using assms by (intro pad_two_digits) simp_all
  have ge: "js_ge (Num h) (Num 12) = (12 \<le> h)" by (simp add: js_ge_def)
  show ?thesis
    by (simp only: formatHM_def TimeFormat.case Let_def h12 pk pm ge) simp
qed

lemma roundtrip_hm:
  assumes "0 \<le> h" "h < 24" "0 \<le> mm" "mm < 60"
  shows "parseTimeToMinutes (Some (formatHM (Num h) (Num mm) fmt)) = Some (Num (h * 60 + mm))
       \<and> parseTimeToMinutes_portal (Some (formatHM (Num h) (Num mm) fmt)) = Some (Num (h * 60 + mm))"
proof -
  have dm: "nat mm div 10 < 10" "nat mm mod 10 < 10" using assms by simp_all
  have vm: "int (10 * (nat mm div 10) + nat mm mod 10) = mm"
    using assms by (intro two_digit_value) simp
  show ?thesis
  proof (cases fmt)
    case H24
    have dh: "nat h div 10 < 10" "nat h mod 10 < 10" using assms by simp_all
    have vh: "int (10 * (nat h div 10) + nat h mod 10) = h"
      using assms by (intro two_digit_value) simp
    show ?thesis
      unfolding H24 format24 [OF assms] parse24_digits(1) [OF dh dm]
        parse24_digits(2) [OF dh dm] vh vm by simp
  next
    case H12
    define k where "k = (if h < 12 then (if h = 0 then 12 else h) else (if h = 12 then 12 else h - 12))"
    define p where "p = (if 12 \<le> h then CHR ''P'' else CHR ''A'')"
    have kb: "0 \<le> k" "k < 100" using assms by (simp_all add: k_def)
    have dk: "nat k div 10 < 10" "nat k mod 10 < 10" using kb by simp_all
    have vk: "int (10 * (nat k div 10) + nat k mod 10) = k"
      using kb by (intro two_digit_value) simp
    have pp: "p = CHR ''A'' \<or> p = CHR ''P''" by (simp add: p_def)
    have adj: "adjustHours (Some [p, CHR ''M'']) (Num k) = Num h"
    proof (cases "h < 12")
      case True
      then show ?thesis using adjustHours_AM [OF assms(1) True] by (simp add: p_def k_def)
    next
      case False
      then have "12 \<le> h" by simp
      from adjustHours_PM [OF this assms(2)] show ?thesis using False by (simp add: p_def k_def)
    qed
    have val: "js_add (js_mul (Num h) (Num 60)) (Num mm) = Num (h * 60 + mm)"
      by (simp add: js_add_def js_mul_def)
    note f = format12 [OF assms k_def, folded p_def]
    show ?thesis
      unfolding H12 f parse12_digits(1) [OF dk dm pp] parse12_digits(2) [OF dk dm pp]
        vk vm adj val by simp
  qed
qed

lemma formatters_hm:
  assumes "0 \<le> m" and "m \<le> 1439"
  shows "minutesToInternalString (Num m) fmt = formatHM (Num (m div 60)) (Num (m mod 60)) fmt"
    and "formatMinutes_portal (Num m) fmt = formatHM (Num (m div 60)) (Num (m mod 60)) fmt"
proof -
  note b = hour_minute_bounds [OF assms]
  have "js_rem (Num (m div 60)) 24 = Num (m div 60)"
    using b(1,2) by (simp add: js_rem_nonneg)
  moreover have "js_rem (Num m) 60 = Num (m mod 60)"
    using assms(1) by (simp add: js_rem_nonneg)
  ultimately show "minutesToInternalString (Num m) fmt = formatHM (Num (m div 60)) (Num (m mod 60)) fmt"
    and "formatMinutes_portal (Num m) fmt = formatHM (Num (m div 60)) (Num (m mod 60)) fmt"
    by (simp_all add: minutesToInternalString_def formatMinutes_portal_def floor_div_def Let_def)
qed

text \<open>
  Claim C2. For every minute \<open>m\<close> of the day, from 0 to 1439, and both display
  modes, parsing the text the formatter produces for \<open>m\<close> gives \<open>m\<close> again: for
  \<^verbatim>\<open>parseTimeToMinutes\<close> and \<^verbatim>\<open>minutesToInternalString\<close> of the dashboard, and for
  \<^verbatim>\<open>parseTimeToMinutes\<close> and the formatting of \<^verbatim>\<open>displayTime\<close> of the child portal.
  Hence for any text that parses to \<open>m\<close>, the text \<^verbatim>\<open>displayTime\<close> shows for it
  parses to \<open>m\<close> as well.
\<close>

theorem time_roundtrip:
  assumes "0 \<le> m" and "m \<le> 1439"
  shows "parseTimeToMinutes (Some (minutesToInternalString (Num m) fmt)) = Some (Num m)
       \<and> parseTimeToMinutes_portal (Some (formatMinutes_portal (Num m) fmt)) = Some (Num m)
       \<and> (\<forall>ts. parseTimeToMinutes ts = Some (Num m) \<longrightarrow>
              Option.bind (displayTime ts fmt) (\<lambda>t. parseTimeToMinutes (Some t)) = Some (Num m))
       \<and> (\<forall>ts. parseTimeToMinutes_portal ts = Some (Num m) \<longrightarrow>
              Option.bind (displayTime_portal ts fmt) (\<lambda>t. parseTimeToMinutes_portal (Some t))
                = Some (Num m))"
proof -
  note b = hour_minute_bounds [OF assms]
  note r = roundtrip_hm [OF b(1-4), of fmt, unfolded b(5)]
  note f = formatters_hm [OF assms, of fmt]
  have dash: "parseTimeToMinutes (Some (minutesToInternalString (Num m) fmt)) = Some (Num m)"
    using r f(1) by simp
  have portal: "parseTimeToMinutes_portal (Some (formatMinutes_portal (Num m) fmt)) = Some (Num m)"
    using r f(2) by simp
  have shown: "\<And>ts. parseTimeToMinutes ts = Some (Num m) \<Longrightarrow>
      Option.bind (displayTime ts fmt) (\<lambda>t. parseTimeToMinutes (Some t)) = Some (Num m)"
    using dash by (simp add: displayTime_def)
  have shown_portal: "\<And>ts. parseTimeToMinutes_portal ts = Some (Num m) \<Longrightarrow>
      Option.bind (displayTime_portal ts fmt) (\<lambda>t. parseTimeToMinutes_portal (Some t))
        = Some (Num m)"
    using portal by (simp add: displayTime_portal_def)
  show ?thesis using dash portal shown shown_portal by blast
qed

theorem time_roundtrip_witness:
  "(0::int) \<le> 570 \<and> (570::int) \<le> 1439
   \<and> minutesToInternalString (Num 570) H12 = ''09:30 AM''
   \<and> parseTimeToMinutes (Some (minutesToInternalString (Num 570) H12)) = Some (Num 570)
   \<and> formatMinutes_portal (Num 570) H24 = ''09:30''
   \<and> parseTimeToMinutes_portal (Some (formatMinutes_portal (Num 570) H24)) = Some (Num 570)
   \<and> parseTimeToMinutes_portal (Some ''9:30 am'') = Some (Num 570)
   \<and> Option.bind (displayTime_portal (Some ''9:30 am'') H12)
         (\<lambda>t. parseTimeToMinutes_portal (Some t)) = Some (Num 570)"
proof -
  note at12 = time_roundtrip [of 570 H12]
  note at24 = time_roundtrip [of 570 H24]
  have lo: "(0::int) \<le> 570" and hi: "(570::int) \<le> 1439" by simp_all
  have text12: "minutesToInternalString (Num 570) H12 = ''09:30 AM''"
    by (simp add: js_defs time_defs nat_digits.simps)
  have text24: "formatMinutes_portal (Num 570) H24 = ''09:30''"
    by (simp add: js_defs time_defs nat_digits.simps)
  have typed: "parseTimeToMinutes_portal (Some ''9:30 am'') = Some (Num 570)"
    by (simp add: js_defs time_defs split_ws.simps)
  have back12: "parseTimeToMinutes (Some (minutesToInternalString (Num 570) H12)) = Some (Num 570)"
    using at12 [OF lo hi] by blast
  have back24: "parseTimeToMinutes_portal (Some (formatMinutes_portal (Num 570) H24))
                  = Some (Num 570)"
    using at24 [OF lo hi] by blast
  have shown: "Option.bind (displayTime_portal (Some ''9:30 am'') H12)
         (\<lambda>t. parseTimeToMinutes_portal (Some t)) = Some (Num 570)"
    using at12 [OF lo hi] typed by blast
  show ?thesis using lo hi text12 text24 typed back12 back24 shown by blast
qed

subsection \<open>The range of the parsed time\<close>

lemma decimal_char_value:
  assumes "c \<in> set ''0123456789''"
  shows "c = digit_char (of_char c - 48)" and "of_char c - 48 < (10::nat)"
  using decimal_char_cases [OF assms] by (elim disjE; simp add: digit_char_def)+

lemma class_bounds:
  "inClass c ''123456789'' \<Longrightarrow> c \<in> set ''0123456789'' \<and> 1 \<le> (of_char c - 48 :: nat)"
  "inClass c ''012345'' \<Longrightarrow> c \<in> set ''0123456789'' \<and> (of_char c - 48 :: nat) < 6"
  "inClass c ''0123'' \<Longrightarrow> c \<in> set ''0123456789'' \<and> (of_char c - 48 :: nat) < 4"
  "inClass c ''012'' \<Longrightarrow> c \<in> set ''0123456789'' \<and> (of_char c - 48 :: nat) < 3"
  "inClass c ''0123456789'' \<Longrightarrow> c \<in> set ''0123456789''"
  by (auto simp: inClass_def)

lemma Number_one_digit:
  assumes "a < 10"
  shows "Number [digit_char a] = Some (Num (int a))"
  using digit_char_facts [OF assms]
  by (simp add: Number_def trim_def startsWith_def signed_decimal_def digits_value_def)

lemma Number_minutes_period:
  assumes "a < 10" and "b < 10" and "p = CHR ''A'' \<or> p = CHR ''P''"
  shows "Number [digit_char a, digit_char b, p, CHR ''M''] = Some NaN"
  using digit_char_facts [OF assms(1)] digit_char_facts [OF assms(2)] assms(3)
  by (auto simp: Number_def trim_def startsWith_def signed_decimal_def isFloatLiteral_def
        isMantissa_def isSpace_def isDigit_def inClass_def)

text \<open>The hour and the minute that the two regular expressions let through.\<close>

lemma hour24_value:
  assumes "hour24 hh"
  shows "\<exists>H. Number hh = Some (Num H) \<and> 0 \<le> H \<and> H \<le> 23 \<and> set hh \<subseteq> set ''0123456789''"
proof -
  consider d where "hh = [d]" "inClass d ''0123456789''"
    | a b where "hh = [a, b]" "a = CHR ''0'' \<or> a = CHR ''1''" "inClass b ''0123456789''"
    | b where "hh = [CHR ''2'', b]" "inClass b ''0123''"
    using assms by (auto simp: hour24_def split: list.splits)
  then show ?thesis
  proof cases
    case 1
    note d = class_bounds(5) [OF 1(2)]
    show ?thesis
      using Number_one_digit [OF decimal_char_value(2) [OF d]] decimal_char_value [OF d] d 1(1)
      by auto
  next
    case 2
    note b = class_bounds(5) [OF 2(3)]
    have a: "a = digit_char 0 \<or> a = digit_char 1" using 2(2) by (auto simp: digit_char_def)
    have n0: "Number [digit_char 0, digit_char (of_char b - 48)] = Some (Num (int (10 * 0 + (of_char b - 48))))"
      by (rule Number_two_digits) (simp_all add: decimal_char_value(2) [OF b])
    have n1: "Number [digit_char 1, digit_char (of_char b - 48)] = Some (Num (int (10 * 1 + (of_char b - 48))))"
      by (rule Number_two_digits) (simp_all add: decimal_char_value(2) [OF b])
    have hb: "hh = [a, digit_char (of_char b - 48)]"
      using 2(1) decimal_char_value(1) [OF b] by simp
    have sub: "set hh \<subseteq> set ''0123456789''" using 2 b by auto
    show ?thesis
      using a n0 n1 hb sub decimal_char_value(2) [OF b] by (elim disjE) auto
  next
    case 3
    note b = class_bounds(3) [OF 3(2)]
    have two: "CHR ''2'' = digit_char 2" by (simp add: digit_char_def)
    have n: "Number [digit_char 2, digit_char (of_char b - 48)] = Some (Num (int (10 * 2 + (of_char b - 48))))"
      by (rule Number_two_digits) (use b in \<open>simp_all add: decimal_char_value(2)\<close>)
    have hb: "hh = [digit_char 2, digit_char (of_char b - 48)]"
      using 3(1) decimal_char_value(1) [of b] b two by simp
    have sub: "set hh \<subseteq> set ''0123456789''" using 3(1) b by auto
    show ?thesis using n hb sub b by auto
  qed
qed

lemma hour12_value:
  assumes "hour12 hh"
  shows "\<exists>H. Number hh = Some (Num H) \<and> 1 \<le> H \<and> H \<le> 12 \<and> set hh \<subseteq> set ''0123456789''"
proof -
  consider d where "hh = [d]" "inClass d ''123456789''"
    | b where "hh = [CHR ''0'', b]" "inClass b ''123456789''"
    | b where "hh = [CHR ''1'', b]" "inClass b ''012''"
    using assms by (auto simp: hour12_def split: list.splits)
  then show ?thesis
  proof cases
    case 1
    note d = class_bounds(1) [OF 1(2)]
    show ?thesis
      using Number_one_digit [of "of_char d - 48"] decimal_char_value [of d] d 1(1)
      by auto
  next
    case 2
    note b = class_bounds(1) [OF 2(2)]
    have zero: "CHR ''0'' = digit_char 0" by (simp add: digit_char_def)
    have n: "Number [digit_char 0, digit_char (of_char b - 48)] = Some (Num (int (10 * 0 + (of_char b - 48))))"
      by (rule Number_two_digits) (use b in \<open>simp_all add: decimal_char_value(2)\<close>)
    have hb: "hh = [digit_char 0, digit_char (of_char b - 48)]"
      using 2(1) decimal_char_value(1) [of b] b zero by simp
    have sub: "set hh \<subseteq> set ''0123456789''" using 2(1) b by auto
    show ?thesis using n hb sub b decimal_char_value(2) [of b] by auto
  next
    case 3
    note b = class_bounds(4) [OF 3(2)]
    have one: "CHR ''1'' = digit_char 1" by (simp add: digit_char_def)
    have n: "Number [digit_char 1, digit_char (of_char b - 48)] = Some (Num (int (10 * 1 + (of_char b - 48))))"
      by (rule Number_two_digits) (use b in \<open>simp_all add: decimal_char_value(2)\<close>)
    have hb: "hh = [digit_char 1, digit_char (of_char b - 48)]"
      using 3(1) decimal_char_value(1) [of b] b one by simp
    have sub: "set hh \<subseteq> set ''0123456789''" using 3(1) b by auto
    show ?thesis using n hb sub b by auto
  qed
qed

lemma minute_value:
  assumes "inClass m1 ''012345''" and "inClass m2 ''0123456789''"
  shows "\<exists>M. Number [m1, m2] = Some (Num M) \<and> 0 \<le> M \<and> M \<le> 59
             \<and> Number [m1, m2, CHR ''A'', CHR ''M''] = Some NaN
             \<and> Number [m1, m2, CHR ''P'', CHR ''M''] = Some NaN"
proof -
  note a = class_bounds(2) [OF assms(1)] and b = class_bounds(5) [OF assms(2)]
  have la: "of_char m1 - 48 < (10::nat)" using a by simp
  note lb = decimal_char_value(2) [OF b]
  have ea: "m1 = digit_char (of_char m1 - 48)" using decimal_char_value(1) [of m1] a by simp
  note eb = decimal_char_value(1) [OF b]
  have "Number [m1, m2] = Some (Num (int (10 * (of_char m1 - 48) + (of_char m2 - 48))))"
    using Number_two_digits [OF la lb] ea eb by simp
  moreover have "Number [m1, m2, CHR ''A'', CHR ''M''] = Some NaN"
    using Number_minutes_period [OF la lb, of "CHR ''A''"] ea eb by simp
  moreover have "Number [m1, m2, CHR ''P'', CHR ''M''] = Some NaN"
    using Number_minutes_period [OF la lb, of "CHR ''P''"] ea eb by simp
  ultimately show ?thesis using a lb by auto
qed

text \<open>Splitting and searching a text whose shape is known.\<close>

lemma split_char_absent:
  "sep \<notin> set v \<Longrightarrow> split_char sep v = [v]"
  by (induction v) auto

lemma split_char_first:
  "sep \<notin> set u \<Longrightarrow> split_char sep (u @ sep # v) = u # split_char sep v"
  by (induction u) auto

lemma includes_absent:
  "x \<notin> set s \<Longrightarrow> \<not> includes_str s [y, x]"
proof (induction s)
  case Nil
  then show ?case by simp
next
  case (Cons c cs)
  have "\<not> startsWith (c # cs) [y, x]"
  proof
    assume "startsWith (c # cs) [y, x]"
    then have "take 1 cs = [x]" by (simp add: startsWith_def)
    then have "x \<in> set (take 1 cs)" by simp
    then show False using Cons.prems by (auto dest: in_set_takeD)
  qed
  then show ?case using Cons by simp
qed

lemma includes_suffix:
  "includes_str (u @ sub) sub"
proof (induction u)
  case Nil
  then show ?case by (cases sub) (simp_all add: startsWith_def)
next
  case (Cons c cs)
  then show ?case by simp
qed

lemma decimal_set_facts:
  assumes "set u \<subseteq> set ''0123456789''"
  shows "CHR '':'' \<notin> set u" and "CHR ''M'' \<notin> set u" and "\<forall>c \<in> set u. \<not> isSpace c"
  using assms decimal_char_facts(1,4,7) by blast+

text \<open>The three shapes of an accepted time, after trimming and upper-casing.\<close>

lemma parse_shape24:
  assumes cl: "toUpperCase (trim s) = hh @ CHR '':'' # mm"
    and hh: "Number hh = Some (Num H)" "set hh \<subseteq> set ''0123456789''"
    and mm: "Number mm = Some (Num M)" "set mm \<subseteq> set ''0123456789''" "mm \<noteq> []"
  shows "parseTimeToMinutes (Some s) = Some (Num (H * 60 + M))
         \<and> parseTimeToMinutes_portal (Some s) = Some (Num (H * 60 + M))"
proof -
  have ne: "s \<noteq> []" using cl by (auto simp: trim_def toUpperCase_def)
  have noM: "CHR ''M'' \<notin> set (hh @ CHR '':'' # mm)"
    using decimal_set_facts(2) [OF hh(2)] decimal_set_facts(2) [OF mm(2)] by simp
  have inc: "\<not> includes_str (hh @ CHR '':'' # mm) ''AM''" "\<not> includes_str (hh @ CHR '':'' # mm) ''PM''"
    using includes_absent [OF noM] by simp_all
  have sp: "split_char CHR '':'' (hh @ CHR '':'' # mm) = [hh, mm]"
    using split_char_first [OF decimal_set_facts(1) [OF hh(2)], of mm]
          split_char_absent [OF decimal_set_facts(1) [OF mm(2)]] by simp
  show ?thesis
    using ne inc hh(1) mm(1) mm(3)
    by (simp add: parseTimeToMinutes_def parseTimeToMinutes_portal_def cl sp Let_def at_index_def
          Number_opt_def Number_or0_def or_num_def js_add_def js_mul_def
          del: includes_str.simps split_char.simps)
qed

lemma parse_shape12_spaced:
  assumes cl: "toUpperCase (trim s) = (hh @ CHR '':'' # mm) @ w # [p, CHR ''M'']"
    and hh: "Number hh = Some (Num H)" "set hh \<subseteq> set ''0123456789''"
    and mm: "Number mm = Some (Num M)" "set mm \<subseteq> set ''0123456789''" "mm \<noteq> []"
    and w: "isSpace w" and p: "p = CHR ''A'' \<or> p = CHR ''P''"
  shows "parseTimeToMinutes (Some s)
           = Some (js_add (js_mul (adjustHours (Some [p, CHR ''M'']) (Num H)) (Num 60)) (or_num (Num M) (Num 0)))
         \<and> parseTimeToMinutes_portal (Some s)
           = Some (js_add (js_mul (adjustHours (Some [p, CHR ''M'']) (Num H)) (Num 60)) (or_num (Num M) (Num 0)))"
proof -
  have ne: "s \<noteq> []" using cl by (auto simp: trim_def toUpperCase_def)
  have inc: "includes_str ((hh @ CHR '':'' # mm) @ w # [p, CHR ''M'']) ''AM''
             \<or> includes_str ((hh @ CHR '':'' # mm) @ w # [p, CHR ''M'']) ''PM''"
    using includes_suffix [of "(hh @ CHR '':'' # mm) @ [w]" "[p, CHR ''M'']"] p by auto
  have nsp: "\<forall>c \<in> set (hh @ CHR '':'' # mm). \<not> isSpace c"
    using decimal_set_facts(3) [OF hh(2)] decimal_set_facts(3) [OF mm(2)]
    by (auto simp: literal_char_facts)
  have nsp2: "\<forall>c \<in> set [p, CHR ''M'']. \<not> isSpace c"
    using p by (auto simp: literal_char_facts)
  have sw: "split_ws ((hh @ CHR '':'' # mm) @ w # [p, CHR ''M'']) = [hh @ CHR '':'' # mm, [p, CHR ''M'']]"
    using split_ws_one_space [OF nsp w nsp2] by simp
  have sp: "split_char CHR '':'' (hh @ CHR '':'' # mm) = [hh, mm]"
    using split_char_first [OF decimal_set_facts(1) [OF hh(2)], of mm]
          split_char_absent [OF decimal_set_facts(1) [OF mm(2)]] by simp
  show ?thesis
    using ne inc hh(1) mm(1) mm(3)
    by (simp add: parseTimeToMinutes_def parseTimeToMinutes_portal_def cl sw sp Let_def at_index_def
          Number_opt_def Number_or0_def or_str_def
          del: includes_str.simps split_char.simps append_assoc append.simps)
qed

lemma parse_shape12_joined:
  assumes cl: "toUpperCase (trim s) = hh @ CHR '':'' # (mm @ [p, CHR ''M''])"
    and hh: "Number hh = Some (Num H)" "set hh \<subseteq> set ''0123456789''"
    and mm: "Number (mm @ [p, CHR ''M'']) = Some NaN" "set mm \<subseteq> set ''0123456789''"
    and p: "p = CHR ''A'' \<or> p = CHR ''P''"
  shows "parseTimeToMinutes (Some s)
           = Some (js_add (js_mul (adjustHours (Some (if js_ge (Num H) (Num 12) then ''PM'' else ''AM''))
                                     (Num H)) (Num 60)) (Num 0))
         \<and> parseTimeToMinutes_portal (Some s)
           = Some (js_add (js_mul (adjustHours None (Num H)) (Num 60)) (Num 0))"
proof -
  have ne: "s \<noteq> []" using cl by (auto simp: trim_def toUpperCase_def)
  have inc: "includes_str (hh @ CHR '':'' # (mm @ [p, CHR ''M''])) ''AM''
             \<or> includes_str (hh @ CHR '':'' # (mm @ [p, CHR ''M''])) ''PM''"
    using includes_suffix [of "hh @ CHR '':'' # mm" "[p, CHR ''M'']"] p by auto
  have nsp: "\<forall>c \<in> set (hh @ CHR '':'' # (mm @ [p, CHR ''M''])). \<not> isSpace c"
    using decimal_set_facts(3) [OF hh(2)] decimal_set_facts(3) [OF mm(2)] p
    by (auto simp: literal_char_facts)
  note sw = split_ws_no_space [OF nsp]
  have nc: "CHR '':'' \<notin> set (mm @ [p, CHR ''M''])"
    using decimal_set_facts(1) [OF mm(2)] p by auto
  have sp: "split_char CHR '':'' (hh @ CHR '':'' # (mm @ [p, CHR ''M''])) = [hh, mm @ [p, CHR ''M'']]"
    using split_char_first [OF decimal_set_facts(1) [OF hh(2)], of "mm @ [p, CHR ''M'']"]
          split_char_absent [OF nc] by simp
  show ?thesis
    using ne inc hh(1) mm(1)
    by (simp add: parseTimeToMinutes_def parseTimeToMinutes_portal_def cl sw sp Let_def at_index_def
          Number_opt_def Number_or0_def or_str_def or_num_def
          del: includes_str.simps split_char.simps append_assoc append.simps)
qed

text \<open>What the regular expressions say about the text.\<close>

lemma time24hRegex_shape:
  assumes "time24hRegex clean"
  shows "\<exists>hh m1 m2. clean = hh @ CHR '':'' # [m1, m2] \<and> hour24 hh
            \<and> inClass m1 ''012345'' \<and> inClass m2 ''0123456789''"
proof -
  obtain c m1 m2 where d: "dropWhile (\<lambda>c. c \<noteq> CHR '':'') clean = [c, m1, m2]"
    and h: "hour24 (takeWhile (\<lambda>c. c \<noteq> CHR '':'') clean)"
    and m: "inClass m1 ''012345''" "inClass m2 ''0123456789''"
    using assms by (auto simp: time24hRegex_def split: list.splits)
  have "c = CHR '':''" using hd_dropWhile [of "\<lambda>c. c \<noteq> CHR '':''" clean] d by simp
  then have "clean = takeWhile (\<lambda>c. c \<noteq> CHR '':'') clean @ CHR '':'' # [m1, m2]"
    using takeWhile_dropWhile_id [of "\<lambda>c. c \<noteq> CHR '':''" clean] d by simp
  then show ?thesis using h m by blast
qed

lemma time12hRegex_shape:
  assumes "time12hRegex clean"
  shows "\<exists>hh m1 m2 rest. clean = hh @ CHR '':'' # m1 # m2 # rest \<and> hour12 hh
            \<and> inClass m1 ''012345'' \<and> inClass m2 ''0123456789'' \<and> periodSuffix rest"
proof -
  obtain c m1 m2 rest where d: "dropWhile (\<lambda>c. c \<noteq> CHR '':'') clean = c # m1 # m2 # rest"
    and h: "hour12 (takeWhile (\<lambda>c. c \<noteq> CHR '':'') clean)"
    and m: "inClass m1 ''012345''" "inClass m2 ''0123456789''" "periodSuffix rest"
    using assms by (auto simp: time12hRegex_def split: list.splits)
  have "c = CHR '':''" using hd_dropWhile [of "\<lambda>c. c \<noteq> CHR '':''" clean] d by simp
  then have "clean = takeWhile (\<lambda>c. c \<noteq> CHR '':'') clean @ CHR '':'' # m1 # m2 # rest"
    using takeWhile_dropWhile_id [of "\<lambda>c. c \<noteq> CHR '':''" clean] d by simp
  then show ?thesis using h m by blast
qed

lemma periodSuffix_shape:
  assumes "periodSuffix rest"
  shows "(\<exists>p. rest = [p, CHR ''M''] \<and> (p = CHR ''A'' \<or> p = CHR ''P''))
         \<or> (\<exists>w p. rest = [w, p, CHR ''M''] \<and> isSpace w \<and> (p = CHR ''A'' \<or> p = CHR ''P''))"
  using assms by (auto simp: periodSuffix_def split: list.splits)

lemma adjustHours_AM_PM:
  "adjustHours (Some ''AM'') (Num H) = (if H = 12 then Num 0 else Num H)"
  "adjustHours (Some ''PM'') (Num H) = (if H < 12 then Num (H + 12) else Num H)"
  "adjustHours None (Num H) = Num H"
  by (simp_all add: adjustHours_def js_less_def js_add_def Let_def)

lemma adjustHours_range:
  assumes "1 \<le> H" and "H \<le> 12" and "p = CHR ''A'' \<or> p = CHR ''P''"
  shows "\<exists>h. adjustHours (Some [p, CHR ''M'']) (Num H) = Num h \<and> 0 \<le> h \<and> h \<le> 23"
proof -
  have "adjustHours (Some [p, CHR ''M'']) (Num H) = (if H = 12 then Num 0 else Num H)
        \<or> adjustHours (Some [p, CHR ''M'']) (Num H) = (if H < 12 then Num (H + 12) else Num H)"
    using assms(3) adjustHours_AM_PM(1,2) [of H] by (elim disjE) simp_all
  then show ?thesis using assms(1,2) by (elim disjE) (simp_all split: if_splits)
qed

lemma adjustHours_default:
  assumes "1 \<le> H" and "H \<le> 12"
  shows "adjustHours (Some (if js_ge (Num H) (Num 12) then ''PM'' else ''AM'')) (Num H) = Num H"
    and "adjustHours None (Num H) = Num H"
proof -
  show "adjustHours (Some (if js_ge (Num H) (Num 12) then ''PM'' else ''AM'')) (Num H) = Num H"
  proof (cases "H = 12")
    case True
    then show ?thesis by (simp add: js_ge_def adjustHours_AM_PM)
  next
    case False
    then have "\<not> js_ge (Num H) (Num 12)" using assms by (simp add: js_ge_def)
    then show ?thesis using False by (simp add: adjustHours_AM_PM)
  qed
  show "adjustHours None (Num H) = Num H" by (rule adjustHours_AM_PM(3))
qed
lemma valid24_range:
  assumes cl: "toUpperCase (trim s) = clean" and v: "time24hRegex clean"
  shows "(\<exists>m. parseTimeToMinutes (Some s) = Some (Num m) \<and> 0 \<le> m \<and> m \<le> 1439)
         \<and> (\<exists>m. parseTimeToMinutes_portal (Some s) = Some (Num m) \<and> 0 \<le> m \<and> m \<le> 1439)"
proof -
  obtain hh m1 m2 where sh: "clean = hh @ CHR '':'' # [m1, m2]" and h: "hour24 hh"
    and m: "inClass m1 ''012345''" "inClass m2 ''0123456789''"
    using time24hRegex_shape [OF v] by blast
  obtain H where H: "Number hh = Some (Num H)" "0 \<le> H" "H \<le> 23" "set hh \<subseteq> set ''0123456789''"
    using hour24_value [OF h] by blast
  obtain M where M: "Number [m1, m2] = Some (Num M)" "0 \<le> M" "M \<le> 59"
    using minute_value [OF m] by blast
  have ms: "set [m1, m2] \<subseteq> set ''0123456789''"
    using class_bounds(2) [OF m(1)] class_bounds(5) [OF m(2)] by simp
  note r = parse_shape24 [OF cl [unfolded sh] H(1) H(4) M(1) ms]
  have "0 \<le> H * 60 + M" "H * 60 + M \<le> 1439" using H(2,3) M(2,3) by simp_all
  then show ?thesis using r by simp
qed

lemma valid12_range:
  assumes cl: "toUpperCase (trim s) = clean" and v: "time12hRegex clean"
  shows "(\<exists>m. parseTimeToMinutes (Some s) = Some (Num m) \<and> 0 \<le> m \<and> m \<le> 1439)
         \<and> (\<exists>m. parseTimeToMinutes_portal (Some s) = Some (Num m) \<and> 0 \<le> m \<and> m \<le> 1439)"
proof -
  obtain hh m1 m2 rest where sh: "clean = hh @ CHR '':'' # m1 # m2 # rest" and h: "hour12 hh"
    and m: "inClass m1 ''012345''" "inClass m2 ''0123456789''" and ps: "periodSuffix rest"
    using time12hRegex_shape [OF v] by blast
  obtain H where H: "Number hh = Some (Num H)" "1 \<le> H" "H \<le> 12" "set hh \<subseteq> set ''0123456789''"
    using hour12_value [OF h] by blast
  obtain M where M: "Number [m1, m2] = Some (Num M)" "0 \<le> M" "M \<le> 59"
    and junk: "Number [m1, m2, CHR ''A'', CHR ''M''] = Some NaN"
              "Number [m1, m2, CHR ''P'', CHR ''M''] = Some NaN"
    using minute_value [OF m] by blast
  have ms: "set [m1, m2] \<subseteq> set ''0123456789''"
    using class_bounds(2) [OF m(1)] class_bounds(5) [OF m(2)] by simp
  consider (joined) p where "rest = [p, CHR ''M'']" "p = CHR ''A'' \<or> p = CHR ''P''"
    | (spaced) w p where "rest = [w, p, CHR ''M'']" "isSpace w" "p = CHR ''A'' \<or> p = CHR ''P''"
    using periodSuffix_shape [OF ps] by blast
  then show ?thesis
  proof cases
    case joined
    note rest = joined(1) and p = joined(2)
    have c1: "toUpperCase (trim s) = hh @ CHR '':'' # ([m1, m2] @ [p, CHR ''M''])"
      using cl sh rest by simp
    have j: "Number ([m1, m2] @ [p, CHR ''M'']) = Some NaN" using junk p by auto
    note r = parse_shape12_joined [OF c1 H(1) H(4) j ms p]
    have "0 \<le> H * 60" "H * 60 \<le> 1439" using H(2,3) by simp_all
    then show ?thesis
      using r adjustHours_default [OF H(2,3)] by (simp add: js_add_def js_mul_def)
  next
    case spaced
    note rest = spaced(1) and w = spaced(2) and p = spaced(3)
    have c1: "toUpperCase (trim s) = (hh @ CHR '':'' # [m1, m2]) @ w # [p, CHR ''M'']"
      using cl sh rest by simp
    note r = parse_shape12_spaced [OF c1 H(1) H(4) M(1) ms _ w p]
    obtain h where a: "adjustHours (Some [p, CHR ''M'']) (Num H) = Num h" "0 \<le> h" "h \<le> 23"
      using adjustHours_range [OF H(2,3) p] by blast
    have "0 \<le> h * 60 + M" "h * 60 + M \<le> 1439" using a(2,3) M(2,3) by simp_all
    then show ?thesis
      using r a(1) by (simp add: js_add_def js_mul_def or_num_def)
  qed
qed

lemma valid_time_range:
  assumes "isValidTime s"
  shows "(\<exists>m. parseTimeToMinutes (Some s) = Some (Num m) \<and> 0 \<le> m \<and> m \<le> 1439)
         \<and> (\<exists>m. parseTimeToMinutes_portal (Some s) = Some (Num m) \<and> 0 \<le> m \<and> m \<le> 1439)"
  using assms valid12_range [of s "toUpperCase (trim s)"] valid24_range [of s "toUpperCase (trim s)"]
  unfolding isValidTime_def Let_def by blast

text \<open>
  Claim C7, as amended. \<^verbatim>\<open>parseTimeToMinutes\<close> does not check the range of what it
  reads; the check is \<^verbatim>\<open>isValidTime\<close>, which the dashboard applies before it saves a
  task. For every text that \<^verbatim>\<open>isValidTime\<close> accepts, \<^verbatim>\<open>parseTimeToMinutes\<close> of the
  dashboard and of the child portal return an integer from 0 to 1439; for a missing
  and for an empty text they return 0. Outside the accepted texts nothing bounds the
  result: \<^verbatim>\<open>25:00\<close> is read as 1500.
\<close>

theorem parseTimeToMinutes_range:
  "(isValidTime s \<longrightarrow>
      (\<exists>m. parseTimeToMinutes (Some s) = Some (Num m) \<and> 0 \<le> m \<and> m \<le> 1439)
      \<and> (\<exists>m. parseTimeToMinutes_portal (Some s) = Some (Num m) \<and> 0 \<le> m \<and> m \<le> 1439))
   \<and> parseTimeToMinutes None = Some (Num 0)
   \<and> parseTimeToMinutes (Some []) = Some (Num 0)
   \<and> parseTimeToMinutes_portal None = Some (Num 0)
   \<and> parseTimeToMinutes_portal (Some []) = Some (Num 0)"
  using valid_time_range [of s]
  by (simp add: parseTimeToMinutes_def parseTimeToMinutes_portal_def)

theorem parseTimeToMinutes_range_witness:
  "isValidTime ''9:05 pm''
   \<and> parseTimeToMinutes (Some ''9:05 pm'') = Some (Num 1265)
   \<and> parseTimeToMinutes_portal (Some ''9:05 pm'') = Some (Num 1265)
   \<and> (0::int) \<le> 1265 \<and> (1265::int) \<le> 1439"
proof -
  note range = parseTimeToMinutes_range [of "''9:05 pm''"]
  have valid: "isValidTime ''9:05 pm''"
    by (simp add: js_defs time_defs)
  have sw: "split_ws ''9:05 PM'' = [''9:05'', ''PM'']"
    using split_ws_one_space [of "''9:05''" "CHR '' ''" "''PM''"] by (simp add: isSpace_def)
  have dash: "parseTimeToMinutes (Some ''9:05 pm'') = Some (Num 1265)"
    by (simp add: js_defs time_defs sw adjustHours_def)
  have portal: "parseTimeToMinutes_portal (Some ''9:05 pm'') = Some (Num 1265)"
    by (simp add: js_defs time_defs sw adjustHours_def)
  show ?thesis using range valid dash portal by simp
qed

theorem parseTimeToMinutes_range_counterexample:
  "parseTimeToMinutes (Some ''25:00'') = Some (Num 1500)
   \<and> parseTimeToMinutes_portal (Some ''25:00'') = Some (Num 1500)
   \<and> \<not> (1500::int) \<le> 1439
   \<and> parseTimeToMinutes (Some ''abc PM'') = Some NaN
   \<and> parseTimeToMinutes_portal (Some ''abc PM'') = Some NaN"
proof -
  have sw: "split_ws ''ABC PM'' = [''ABC'', ''PM'']"
    using split_ws_one_space [of "''ABC''" "CHR '' ''" "''PM''"] by (simp add: isSpace_def)
  have late: "parseTimeToMinutes (Some ''25:00'') = Some (Num 1500)
              \<and> parseTimeToMinutes_portal (Some ''25:00'') = Some (Num 1500)"
    by (simp add: js_defs time_defs)
  have nan: "parseTimeToMinutes (Some ''abc PM'') = Some NaN
             \<and> parseTimeToMinutes_portal (Some ''abc PM'') = Some NaN"
    by (simp add: js_defs time_defs sw adjustHours_def)
  show ?thesis using late nan by simp
qed

subsection \<open>The task due now\<close>

lemma dueNow_interval:
  "dueNow (Num start) task now
     = (case parseInt (or_str (duration task) ''0'') of
          NaN \<Rightarrow> False
        | Num d \<Rightarrow> start \<le> now \<and> now < start + d)"
  by (simp add: dueNow_def Let_def js_ge_def js_less_def js_add_def split: jsnum.splits)

lemma find_first_total:
  "\<forall>x \<in> set xs. p x \<noteq> None \<Longrightarrow> find_first p xs = Some (find (\<lambda>x. p x = Some True) xs)"
  by (induction xs) (auto split: option.splits bool.splits)

lemma find_first_map:
  "(\<And>x. p (f x) = p x) \<Longrightarrow>
   find_first p (map f xs) = map_option (map_option f) (find_first p xs)"
  by (induction xs) (auto split: option.splits bool.splits)

lemma find_first_Some:
  "find_first p xs = Some (Some t) \<Longrightarrow>
   \<exists>i < length xs. xs ! i = t \<and> p t = Some True \<and> (\<forall>j < i. p (xs ! j) = Some False)"
proof (induction xs)
  case Nil
  then show ?case by simp
next
  case (Cons x xs)
  show ?case
  proof (cases "p x = Some True")
    case True
    then have "x = t" using Cons.prems by simp
    then have "0 < length (x # xs) \<and> (x # xs) ! 0 = t \<and> p t = Some True
               \<and> (\<forall>j < (0::nat). p ((x # xs) ! j) = Some False)"
      using True by simp
    then show ?thesis by blast
  next
    case False
    then have px: "p x = Some False" and rest: "find_first p xs = Some (Some t)"
      using Cons.prems by (auto split: option.splits bool.splits)
    obtain i where i: "i < length xs" "xs ! i = t" "p t = Some True"
      "\<forall>j < i. p (xs ! j) = Some False"
      using Cons.IH [OF rest] by blast
    have "\<forall>j < Suc i. p ((x # xs) ! j) = Some False"
      using px i(4) by (auto simp: less_Suc_eq_0_disj)
    then have "Suc i < length (x # xs) \<and> (x # xs) ! Suc i = t \<and> p t = Some True
               \<and> (\<forall>j < Suc i. p ((x # xs) ! j) = Some False)"
      using i by simp
    then show ?thesis by blast
  qed
qed

lemma find_first_None:
  "find_first p xs = Some None \<Longrightarrow> \<forall>x \<in> set xs. p x = Some False"
  by (induction xs) (auto split: option.splits bool.splits)

lemma due_valid:
  assumes "isValidTime (task_time task)"
  shows "dueInPortal task now \<noteq> None \<and> dueInDashboard task now \<noteq> None"
  using valid_time_range [OF assms] by (auto simp: dueInPortal_def dueInDashboard_def)

lemma due_status:
  "dueInPortal (task\<lparr>status := st\<rparr>) now = dueInPortal task now
   \<and> dueInDashboard (task\<lparr>status := st\<rparr>) now = dueInDashboard task now"
  by (simp add: dueInPortal_def dueInDashboard_def dueNow_def)

lemma activeTaskNow_find:
  "activeTaskNow ts clk = find_first (\<lambda>task. dueInDashboard task (nowMinutes clk)) ts"
  by (simp add: activeTaskNow_def)

text \<open>
  Claim C9, as amended. In both views the callback of \<^verbatim>\<open>find\<close> answers for one task
  whether the minute of the day lies in the half-open interval from the start parsed
  from the task's time to that start plus \<^verbatim>\<open>parseInt(task.duration || '0')\<close>; with a
  duration that is not a number it answers no. It does not read the status. It has an
  answer for every time that \<^verbatim>\<open>isValidTime\<close> accepts. The projection is \<^verbatim>\<open>find\<close>:
  it selects not every task for which the callback answers yes but the first one in the
  list, and none exactly when the callback answers no for every task. Changing the
  statuses of the tasks changes nothing but the status of the task selected.
\<close>

theorem currently_due_first:
  "(parseTimeToMinutes_portal (Some (task_time task)) = Some (Num start)
      \<and> parseInt (or_str (duration task) ''0'') = Num d
      \<longrightarrow> dueInPortal task now = Some (start \<le> now \<and> now < start + d))
   \<and> (parseTimeToMinutes (Some (task_time task)) = Some (Num start)
      \<and> parseInt (or_str (duration task) ''0'') = Num d
      \<longrightarrow> dueInDashboard task now = Some (start \<le> now \<and> now < start + d))
   \<and> (parseInt (or_str (duration task) ''0'') = NaN
      \<longrightarrow> dueInPortal task now \<noteq> Some True \<and> dueInDashboard task now \<noteq> Some True)
   \<and> (isValidTime (task_time task)
      \<longrightarrow> dueInPortal task now \<noteq> None \<and> dueInDashboard task now \<noteq> None)
   \<and> ((\<forall>t \<in> set ts. isValidTime (task_time t))
      \<longrightarrow> getCurrentActiveTaskFromSchedule ts clk
            = Some (find (\<lambda>t. dueInPortal t (nowMinutes clk) = Some True) ts)
          \<and> activeTaskNow ts clk
            = Some (find (\<lambda>t. dueInDashboard t (nowMinutes clk) = Some True) ts))
   \<and> (getCurrentActiveTaskFromSchedule ts clk = Some (Some task)
      \<longrightarrow> (\<exists>i < length ts. ts ! i = task \<and> dueInPortal task (nowMinutes clk) = Some True
              \<and> (\<forall>j < i. dueInPortal (ts ! j) (nowMinutes clk) = Some False)))
   \<and> (activeTaskNow ts clk = Some (Some task)
      \<longrightarrow> (\<exists>i < length ts. ts ! i = task \<and> dueInDashboard task (nowMinutes clk) = Some True
              \<and> (\<forall>j < i. dueInDashboard (ts ! j) (nowMinutes clk) = Some False)))
   \<and> (getCurrentActiveTaskFromSchedule ts clk = Some None
      \<longrightarrow> (\<forall>t \<in> set ts. dueInPortal t (nowMinutes clk) = Some False))
   \<and> (activeTaskNow ts clk = Some None
      \<longrightarrow> (\<forall>t \<in> set ts. dueInDashboard t (nowMinutes clk) = Some False))
   \<and> dueInPortal (task\<lparr>status := st\<rparr>) now = dueInPortal task now
   \<and> dueInDashboard (task\<lparr>status := st\<rparr>) now = dueInDashboard task now
   \<and> getCurrentActiveTaskFromSchedule (map (\<lambda>t. t\<lparr>status := f t\<rparr>) ts) clk
        = map_option (map_option (\<lambda>t. t\<lparr>status := f t\<rparr>)) (getCurrentActiveTaskFromSchedule ts clk)
   \<and> activeTaskNow (map (\<lambda>t. t\<lparr>status := f t\<rparr>) ts) clk
        = map_option (map_option (\<lambda>t. t\<lparr>status := f t\<rparr>)) (activeTaskNow ts clk)"
proof -
  have callback:
    "(parseTimeToMinutes_portal (Some (task_time task)) = Some (Num start)
        \<and> parseInt (or_str (duration task) ''0'') = Num d
        \<longrightarrow> dueInPortal task now = Some (start \<le> now \<and> now < start + d))
     \<and> (parseTimeToMinutes (Some (task_time task)) = Some (Num start)
        \<and> parseInt (or_str (duration task) ''0'') = Num d
        \<longrightarrow> dueInDashboard task now = Some (start \<le> now \<and> now < start + d))"
    by (simp add: dueInPortal_def dueInDashboard_def dueNow_interval)
  have nan: "parseInt (or_str (duration task) ''0'') = NaN
      \<longrightarrow> dueInPortal task now \<noteq> Some True \<and> dueInDashboard task now \<noteq> Some True"
    by (auto simp: dueInPortal_def dueInDashboard_def dueNow_def Let_def js_add_def js_less_def
          split: jsnum.splits)
  have valid: "isValidTime (task_time task)
      \<longrightarrow> dueInPortal task now \<noteq> None \<and> dueInDashboard task now \<noteq> None"
    using due_valid by blast
  have total: "(\<forall>t \<in> set ts. isValidTime (task_time t))
      \<longrightarrow> getCurrentActiveTaskFromSchedule ts clk
            = Some (find (\<lambda>t. dueInPortal t (nowMinutes clk) = Some True) ts)
          \<and> activeTaskNow ts clk
            = Some (find (\<lambda>t. dueInDashboard t (nowMinutes clk) = Some True) ts)"
  proof
    assume v: "\<forall>t \<in> set ts. isValidTime (task_time t)"
    have p: "\<forall>t \<in> set ts. dueInPortal t (nowMinutes clk) \<noteq> None"
      and q: "\<forall>t \<in> set ts. dueInDashboard t (nowMinutes clk) \<noteq> None"
      using v due_valid by blast+
    show "getCurrentActiveTaskFromSchedule ts clk
            = Some (find (\<lambda>t. dueInPortal t (nowMinutes clk) = Some True) ts)
          \<and> activeTaskNow ts clk
            = Some (find (\<lambda>t. dueInDashboard t (nowMinutes clk) = Some True) ts)"
      using find_first_total [OF p] find_first_total [OF q]
      by (simp add: getCurrentActiveTaskFromSchedule_def activeTaskNow_find)
  qed
  have first: "(getCurrentActiveTaskFromSchedule ts clk = Some (Some task)
      \<longrightarrow> (\<exists>i < length ts. ts ! i = task \<and> dueInPortal task (nowMinutes clk) = Some True
              \<and> (\<forall>j < i. dueInPortal (ts ! j) (nowMinutes clk) = Some False)))
   \<and> (activeTaskNow ts clk = Some (Some task)
      \<longrightarrow> (\<exists>i < length ts. ts ! i = task \<and> dueInDashboard task (nowMinutes clk) = Some True
              \<and> (\<forall>j < i. dueInDashboard (ts ! j) (nowMinutes clk) = Some False)))"
    using find_first_Some [of "\<lambda>task. dueInPortal task (nowMinutes clk)" ts task]
          find_first_Some [of "\<lambda>task. dueInDashboard task (nowMinutes clk)" ts task]
    unfolding getCurrentActiveTaskFromSchedule_def activeTaskNow_find by blast
  have none: "(getCurrentActiveTaskFromSchedule ts clk = Some None
      \<longrightarrow> (\<forall>t \<in> set ts. dueInPortal t (nowMinutes clk) = Some False))
   \<and> (activeTaskNow ts clk = Some None
      \<longrightarrow> (\<forall>t \<in> set ts. dueInDashboard t (nowMinutes clk) = Some False))"
    using find_first_None [of "\<lambda>task. dueInPortal task (nowMinutes clk)" ts]
          find_first_None [of "\<lambda>task. dueInDashboard task (nowMinutes clk)" ts]
    unfolding getCurrentActiveTaskFromSchedule_def activeTaskNow_find by blast
  have mapped: "getCurrentActiveTaskFromSchedule (map (\<lambda>t. t\<lparr>status := f t\<rparr>) ts) clk
        = map_option (map_option (\<lambda>t. t\<lparr>status := f t\<rparr>)) (getCurrentActiveTaskFromSchedule ts clk)
   \<and> activeTaskNow (map (\<lambda>t. t\<lparr>status := f t\<rparr>) ts) clk
        = map_option (map_option (\<lambda>t. t\<lparr>status := f t\<rparr>)) (activeTaskNow ts clk)"
    using find_first_map [of "\<lambda>task. dueInPortal task (nowMinutes clk)" "\<lambda>t. t\<lparr>status := f t\<rparr>" ts]
          find_first_map [of "\<lambda>task. dueInDashboard task (nowMinutes clk)" "\<lambda>t. t\<lparr>status := f t\<rparr>" ts]
          due_status
    unfolding getCurrentActiveTaskFromSchedule_def activeTaskNow_find by simp
  show ?thesis
    using callback nan valid total first none due_status mapped by blast
qed

theorem currently_due_first_witness:
  "parseTimeToMinutes_portal (Some (task_time (sampleTask ''t1'' ''08:00'' ''30'' Done None)))
     = Some (Num 480)
   \<and> parseInt (or_str (duration (sampleTask ''t1'' ''08:00'' ''30'' Done None)) ''0'') = Num 30
   \<and> dueInPortal (sampleTask ''t1'' ''08:00'' ''30'' Done None) 479 = Some False
   \<and> dueInPortal (sampleTask ''t1'' ''08:00'' ''30'' Done None) 480 = Some True
   \<and> dueInPortal (sampleTask ''t1'' ''08:00'' ''30'' Done None) 509 = Some True
   \<and> dueInPortal (sampleTask ''t1'' ''08:00'' ''30'' Done None) 510 = Some False"
proof -
  have parsed: "parseTimeToMinutes_portal (Some (task_time (sampleTask ''t1'' ''08:00'' ''30'' Done None)))
     = Some (Num 480)"
    by (simp add: sampleTask_def js_defs time_defs)
  have lasts: "parseInt (or_str (duration (sampleTask ''t1'' ''08:00'' ''30'' Done None)) ''0'') = Num 30"
    by (simp add: sampleTask_def js_defs)
  note due = currently_due_first [of "sampleTask ''t1'' ''08:00'' ''30'' Done None" 480 30]
  have a: "dueInPortal (sampleTask ''t1'' ''08:00'' ''30'' Done None) 479 = Some False"
    using due [of 479] parsed lasts by simp
  have b: "dueInPortal (sampleTask ''t1'' ''08:00'' ''30'' Done None) 480 = Some True"
    using due [of 480] parsed lasts by simp
  have c: "dueInPortal (sampleTask ''t1'' ''08:00'' ''30'' Done None) 509 = Some True"
    using due [of 509] parsed lasts by simp
  have d: "dueInPortal (sampleTask ''t1'' ''08:00'' ''30'' Done None) 510 = Some False"
    using due [of 510] parsed lasts by simp
  show ?thesis using parsed lasts a b c d by blast
qed

theorem currently_due_counterexample:
  "nowMinutes (clockAt 2 8 10) = 490
   \<and> parseTimeToMinutes_portal (Some (task_time (sampleTask ''t2'' ''08:00'' ''30'' Pending None)))
       = Some (Num 480)
   \<and> parseInt (or_str (duration (sampleTask ''t2'' ''08:00'' ''30'' Pending None)) ''0'') = Num 30
   \<and> getCurrentActiveTaskFromSchedule
        [sampleTask ''t1'' ''08:00'' ''30'' Pending None, sampleTask ''t2'' ''08:00'' ''30'' Pending None]
        (clockAt 2 8 10)
       = Some (Some (sampleTask ''t1'' ''08:00'' ''30'' Pending None))
   \<and> activeTaskNow
        [sampleTask ''t1'' ''08:00'' ''30'' Pending None, sampleTask ''t2'' ''08:00'' ''30'' Pending None]
        (clockAt 2 8 10)
       = Some (Some (sampleTask ''t1'' ''08:00'' ''30'' Pending None))
   \<and> sampleTask ''t2'' ''08:00'' ''30'' Pending None \<noteq> sampleTask ''t1'' ''08:00'' ''30'' Pending None"
  by (simp add: getCurrentActiveTaskFromSchedule_def activeTaskNow_def dueInPortal_def
        dueInDashboard_def dueNow_def nowMinutes_def clockAt_def sampleTask_def js_defs time_defs)

subsection \<open>Recurrence rules and the schedule\<close>

lemma due_recurrence:
  "dueInPortal (task\<lparr>recurrence := r\<rparr>) now = dueInPortal task now
   \<and> dueInDashboard (task\<lparr>recurrence := r\<rparr>) now = dueInDashboard task now"
  by (simp add: dueInPortal_def dueInDashboard_def dueNow_def)

lemma nowMinutes_date:
  "nowMinutes (clk\<lparr>getDay := weekday, getDate := monthday\<rparr>) = nowMinutes clk"
  by (simp add: nowMinutes_def)

text \<open>
  Claim C6, as amended. No code expands a recurrence rule. The form stores the rule
  with the task, for the frequency \<^verbatim>\<open>weekly\<close> with the days chosen, and the schedule
  never reads it: in both views the task due now is found from the time and the
  duration of the tasks and from the hour and the minute of the clock. So the task
  found is the same, up to its own rule, whatever the rules of the tasks, and the same
  whatever the day of the week and the day of the month of the clock: a weekly task
  is due at its time on every day of the week.
\<close>

theorem schedule_ignores_recurrence:
  "(recurrenceFreq form = Weekly \<longrightarrow>
      formRecurrence form
        = Some \<lparr>frequency = Weekly, days = recurrenceDays form, dayOfMonth = None,
                endDate = (if recurrenceEndDate form = [] then None
                           else Some (recurrenceEndDate form))\<rparr>)
   \<and> dueInPortal (task\<lparr>recurrence := r\<rparr>) now = dueInPortal task now
   \<and> dueInDashboard (task\<lparr>recurrence := r\<rparr>) now = dueInDashboard task now
   \<and> getCurrentActiveTaskFromSchedule (map (\<lambda>t. t\<lparr>recurrence := rule t\<rparr>) ts) clk
        = map_option (map_option (\<lambda>t. t\<lparr>recurrence := rule t\<rparr>))
            (getCurrentActiveTaskFromSchedule ts clk)
   \<and> activeTaskNow (map (\<lambda>t. t\<lparr>recurrence := rule t\<rparr>) ts) clk
        = map_option (map_option (\<lambda>t. t\<lparr>recurrence := rule t\<rparr>)) (activeTaskNow ts clk)
   \<and> getCurrentActiveTaskFromSchedule ts (clk\<lparr>getDay := weekday, getDate := monthday\<rparr>)
        = getCurrentActiveTaskFromSchedule ts clk
   \<and> activeTaskNow ts (clk\<lparr>getDay := weekday, getDate := monthday\<rparr>) = activeTaskNow ts clk"
proof -
  have stored: "recurrenceFreq form = Weekly \<longrightarrow>
      formRecurrence form
        = Some \<lparr>frequency = Weekly, days = recurrenceDays form, dayOfMonth = None,
                endDate = (if recurrenceEndDate form = [] then None
                           else Some (recurrenceEndDate form))\<rparr>"
    by (simp add: formRecurrence_def)
  have mapped: "getCurrentActiveTaskFromSchedule (map (\<lambda>t. t\<lparr>recurrence := rule t\<rparr>) ts) clk
        = map_option (map_option (\<lambda>t. t\<lparr>recurrence := rule t\<rparr>))
            (getCurrentActiveTaskFromSchedule ts clk)
   \<and> activeTaskNow (map (\<lambda>t. t\<lparr>recurrence := rule t\<rparr>) ts) clk
        = map_option (map_option (\<lambda>t. t\<lparr>recurrence := rule t\<rparr>)) (activeTaskNow ts clk)"
    using find_first_map [of "\<lambda>task. dueInPortal task (nowMinutes clk)" "\<lambda>t. t\<lparr>recurrence := rule t\<rparr>" ts]
          find_first_map [of "\<lambda>task. dueInDashboard task (nowMinutes clk)" "\<lambda>t. t\<lparr>recurrence := rule t\<rparr>" ts]
          due_recurrence
    unfolding getCurrentActiveTaskFromSchedule_def activeTaskNow_find by simp
  have dated: "getCurrentActiveTaskFromSchedule ts (clk\<lparr>getDay := weekday, getDate := monthday\<rparr>)
        = getCurrentActiveTaskFromSchedule ts clk
   \<and> activeTaskNow ts (clk\<lparr>getDay := weekday, getDate := monthday\<rparr>) = activeTaskNow ts clk"
    by (simp add: getCurrentActiveTaskFromSchedule_def activeTaskNow_def nowMinutes_date)
  show ?thesis using stored mapped dated due_recurrence by blast
qed

theorem schedule_ignores_recurrence_witness:
  "recurrenceFreq (emptyForm\<lparr>recurrenceFreq := Weekly, recurrenceDays := [1, 3, 5]\<rparr>) = Weekly
   \<and> formRecurrence (emptyForm\<lparr>recurrenceFreq := Weekly, recurrenceDays := [1, 3, 5]\<rparr>)
       = Some \<lparr>frequency = Weekly, days = [1, 3, 5], dayOfMonth = None, endDate = None\<rparr>
   \<and> getCurrentActiveTaskFromSchedule [weeklyTask ''t1'' [1, 3, 5]]
        ((clockAt 1 8 10)\<lparr>getDay := 2, getDate := 4\<rparr>)
       = getCurrentActiveTaskFromSchedule [weeklyTask ''t1'' [1, 3, 5]] (clockAt 1 8 10)"
proof -
  note rule = schedule_ignores_recurrence
    [where form = "emptyForm\<lparr>recurrenceFreq := Weekly, recurrenceDays := [1, 3, 5]\<rparr>"
       and task = "weeklyTask ''t1'' [1, 3, 5]" and r = None and now = 490
       and rule = "\<lambda>t. None" and ts = "[weeklyTask ''t1'' [1, 3, 5]]"
       and clk = "clockAt 1 8 10" and weekday = 2 and monthday = 4]
  have weekly: "recurrenceFreq (emptyForm\<lparr>recurrenceFreq := Weekly, recurrenceDays := [1, 3, 5]\<rparr>) = Weekly"
    by simp
  have fields: "recurrenceDays (emptyForm\<lparr>recurrenceFreq := Weekly, recurrenceDays := [1, 3, 5]\<rparr>) = [1, 3, 5]"
    "recurrenceEndDate (emptyForm\<lparr>recurrenceFreq := Weekly, recurrenceDays := [1, 3, 5]\<rparr>) = []"
    by (simp_all add: emptyForm_def)
  have saved: "formRecurrence (emptyForm\<lparr>recurrenceFreq := Weekly, recurrenceDays := [1, 3, 5]\<rparr>)
       = Some \<lparr>frequency = Weekly, days = [1, 3, 5], dayOfMonth = None, endDate = None\<rparr>"
    using rule weekly fields by simp
  show ?thesis using rule weekly saved by blast
qed

theorem weekly_occurrence_counterexample:
  "recurrence (weeklyTask ''t1'' [1, 3, 5])
     = Some \<lparr>frequency = Weekly, days = [1, 3, 5], dayOfMonth = None, endDate = None\<rparr>
   \<and> getDay (clockAt 2 8 10) = 2
   \<and> (2::int) \<notin> set [1, 3, 5]
   \<and> getCurrentActiveTaskFromSchedule [weeklyTask ''t1'' [1, 3, 5]] (clockAt 2 8 10)
       = Some (Some (weeklyTask ''t1'' [1, 3, 5]))
   \<and> activeTaskNow [weeklyTask ''t1'' [1, 3, 5]] (clockAt 2 8 10)
       = Some (Some (weeklyTask ''t1'' [1, 3, 5]))"
  by (simp add: getCurrentActiveTaskFromSchedule_def activeTaskNow_def dueInPortal_def
        dueInDashboard_def dueNow_def nowMinutes_def clockAt_def weeklyTask_def sampleTask_def
        js_defs time_defs)

end
